(* ===== verification/SFS_Prelude.thy ===== *)
theory SFS_Prelude
  imports Main "HOL-Library.Word" "HOL-Library.State_Monad" "HOL-Library.Multiset"
begin

text \<open>
  Shared ground of the SimpleFS development: machine integers, error values, byte blocks with
  little-endian access, arrays of fixed-size records inside a block, bitmaps, and a small
  weakest-precondition calculus for the state monad in which the stateful code is written.
\<close>

unbundle bit_operations_syntax

section \<open>Machine integers and error values\<close>

type_synonym u8 = "8 word"
type_synonym u16 = "16 word"
type_synonym u32 = "32 word"
type_synonym u64 = "64 word"

text \<open>
  The error numbers the sources return (as \<open>-E...\<close>), and \<open>EOTHER\<close> for any other
  value an external routine may report.
\<close>

datatype errno =
    EPERM | ENOENT | EIO | E2BIG | EAGAIN | ENOMEM | EACCES | EFAULT | EEXIST | ENOTDIR | EISDIR
  | EINVAL | ENOTTY | EFBIG | ENOSPC | EROFS | ERANGE | ENAMETOOLONG | ENOTEMPTY | ENODATA
  | EUCLEAN | EFSCORRUPTED | EOPNOTSUPP | ESTALE | ECHILD | ESHUTDOWN | ENOTBLK | EOTHER nat

text \<open>An \<open>int\<close> status: \<open>None\<close> is the C value 0, \<open>Some e\<close> is \<open>-e\<close>.\<close>

type_synonym status = "errno option"

section \<open>Lemma collections\<close>

named_theorems wp_simps \<open>weakest preconditions of the monad's primitives\<close>
named_theorems mem_simps \<open>reads over writes in byte blocks\<close>

section \<open>Word arithmetic\<close>

lemma unat_add_no_wrap:
  fixes a b :: "'a::len word"
  assumes "unat a + unat b < 2 ^ LENGTH('a)"
  shows "unat (a + b) = unat a + unat b"
  using assms by (simp add: unat_word_ariths)

lemma unat_sub_le:
  fixes a b :: "'a::len word"
  assumes "b \<le> a"
  shows "unat (a - b) = unat a - unat b"
  using assms by (simp add: unat_sub)

lemma unat_lt_u32 [simp]: "unat (x :: u32) < 4294967296"
  by (rule order_less_le_trans [OF unsigned_less]) simp

lemma unat_ucast_u64 [simp]: "unat (ucast (x :: u32) :: u64) = unat x"
proof -
  have "unat x < 2 ^ 64" by (rule order_less_trans [OF unat_lt_u32]) simp
  then show ?thesis by (simp add: unsigned_ucast_eq take_bit_nat_eq_self)
qed

lemma unat_of_nat_u32: "n < 2 ^ 32 \<Longrightarrow> unat (of_nat n :: u32) = n"
  by (simp add: unat_of_nat take_bit_nat_eq_self)

section \<open>Byte blocks\<close>

text \<open>
  The memory image of a 4096-byte block: byte \<open>k\<close> at offset \<open>k\<close>. Multi-byte fields
  are little endian, the byte order of the on-disk format (\<open>htole32\<close>) and of the hosts the
  kernel module reads them on without conversion.
\<close>

type_synonym block = "nat \<Rightarrow> u8"

definition zero_block :: block where
  "zero_block = (\<lambda>_. 0)"

definition get16 :: "block \<Rightarrow> nat \<Rightarrow> u16" where
  "get16 b p = ucast (b p) OR push_bit 8 (ucast (b (p + 1)))"

definition put16 :: "u16 \<Rightarrow> block \<Rightarrow> nat \<Rightarrow> block" where
  "put16 v b p = b(p := ucast v, p + 1 := ucast (drop_bit 8 v))"

definition get32 :: "block \<Rightarrow> nat \<Rightarrow> u32" where
  "get32 b p = ucast (b p) OR push_bit 8 (ucast (b (p + 1)))
     OR push_bit 16 (ucast (b (p + 2))) OR push_bit 24 (ucast (b (p + 3)))"

definition put32 :: "u32 \<Rightarrow> block \<Rightarrow> nat \<Rightarrow> block" where
  "put32 v b p = b(p := ucast v, p + 1 := ucast (drop_bit 8 v),
     p + 2 := ucast (drop_bit 16 v), p + 3 := ucast (drop_bit 24 v))"

text \<open>\<open>memset(b + p, v, n)\<close> and \<open>memcpy(d + p, s + q, n)\<close>.\<close>

definition mem_set :: "block \<Rightarrow> nat \<Rightarrow> u8 \<Rightarrow> nat \<Rightarrow> block" where
  "mem_set b p v n = (\<lambda>k. if p \<le> k \<and> k < p + n then v else b k)"

definition mem_copy :: "block \<Rightarrow> nat \<Rightarrow> block \<Rightarrow> nat \<Rightarrow> nat \<Rightarrow> block" where
  "mem_copy d p s q n = (\<lambda>k. if p \<le> k \<and> k < p + n then s (q + (k - p)) else d k)"

text \<open>\<open>memcmp(a + p, b + q, n) == 0\<close>.\<close>

definition mem_eq :: "block \<Rightarrow> nat \<Rightarrow> block \<Rightarrow> nat \<Rightarrow> nat \<Rightarrow> bool" where
  "mem_eq a p b q n = list_all (\<lambda>k. a (p + k) = b (q + k)) [0..<n]"

lemma mem_eq_iff: "mem_eq a p b q n \<longleftrightarrow> (\<forall>k<n. a (p + k) = b (q + k))"
  by (auto simp: mem_eq_def list_all_iff)

lemma get16_put16 [mem_simps]: "get16 (put16 v b p) p = v"
  by (rule bit_word_eqI) (auto simp: get16_def put16_def bit_simps)

lemma get32_put32 [mem_simps]: "get32 (put32 v b p) p = v"
proof (rule bit_word_eqI)
  fix n :: nat
  assume "n < LENGTH(32)"
  then consider "n < 8" | "8 \<le> n" "n < 16" | "16 \<le> n" "n < 24" | "24 \<le> n" "n < 32"
    by fastforce
  then show "bit (get32 (put32 v b p) p) n = bit v n"
    by cases (auto simp: get32_def put32_def bit_simps)
qed

lemma get16_cong: "(\<And>k. p \<le> k \<Longrightarrow> k < p + 2 \<Longrightarrow> b k = c k) \<Longrightarrow> get16 b p = get16 c p"
  by (simp add: get16_def)

lemma get32_cong: "(\<And>k. p \<le> k \<Longrightarrow> k < p + 4 \<Longrightarrow> b k = c k) \<Longrightarrow> get32 b p = get32 c p"
  by (simp add: get32_def)

lemma put16_frame: "k < p \<or> p + 2 \<le> k \<Longrightarrow> put16 v b p k = b k"
  by (auto simp: put16_def)

lemma put32_frame: "k < p \<or> p + 4 \<le> k \<Longrightarrow> put32 v b p k = b k"
  by (auto simp: put32_def)

section \<open>Arrays of records in a block\<close>

text \<open>
  \<open>store_array put w vs b p\<close> writes the records \<open>vs\<close>, each of \<open>w\<close> bytes, one after
  the other from offset \<open>p\<close>; \<open>load_array get w n b p\<close> reads \<open>n\<close> of them back.
\<close>

fun store_array :: "('a \<Rightarrow> block \<Rightarrow> nat \<Rightarrow> block) \<Rightarrow> nat \<Rightarrow> 'a list \<Rightarrow> block \<Rightarrow> nat \<Rightarrow> block" where
  "store_array put w [] b p = b"
| "store_array put w (v # vs) b p = store_array put w vs (put v b p) (p + w)"

definition load_array :: "(block \<Rightarrow> nat \<Rightarrow> 'a) \<Rightarrow> nat \<Rightarrow> nat \<Rightarrow> block \<Rightarrow> nat \<Rightarrow> 'a list" where
  "load_array get w n b p = map (\<lambda>i. get b (p + w * i)) [0..<n]"

text \<open>
  The contract of a fixed-size record layout: a store is read back, touches only its own bytes,
  and a load depends only on the record's own bytes, wherever they lie.
\<close>

locale record_codec =
  fixes put :: "'a \<Rightarrow> block \<Rightarrow> nat \<Rightarrow> block"
    and get :: "block \<Rightarrow> nat \<Rightarrow> 'a"
    and w :: nat
  assumes get_put: "get (put v b p) p = v"
    and put_frame: "k < p \<or> p + w \<le> k \<Longrightarrow> put v b p k = b k"
    and get_local: "(\<And>k. k < w \<Longrightarrow> b (p + k) = c (q + k)) \<Longrightarrow> get b p = get c q"
begin

lemma get_put_other: "p + w \<le> q \<or> q + w \<le> p \<Longrightarrow> get (put v b p) q = get b q"
  by (rule get_local) (rule put_frame, auto)

lemma store_array_frame:
  "k < p \<or> p + w * length vs \<le> k \<Longrightarrow> store_array put w vs b p k = b k"
  by (induction vs arbitrary: b p) (auto simp: put_frame)

lemma get_store_array_before: "q + w \<le> p \<Longrightarrow> get (store_array put w vs b p) q = get b q"
  by (rule get_local) (rule store_array_frame, auto)

lemma get_store_array:
  "i < length vs \<Longrightarrow> get (store_array put w vs b p) (p + w * i) = vs ! i"
proof (induction vs arbitrary: b p i)
  case Nil
  then show ?case by simp
next
  case (Cons v vs)
  show ?case
  proof (cases i)
    case 0
    then show ?thesis by (simp add: get_store_array_before get_put)
  next
    case (Suc j)
    with Cons.prems have "get (store_array put w vs (put v b p) ((p + w) )) ((p + w) + w * j) = vs ! j"
      by (intro Cons.IH) simp
    with Suc show ?thesis by (simp add: add.assoc)
  qed
qed

lemma load_store_array:
  "load_array get w (length vs) (store_array put w vs b p) p = vs"
  by (rule nth_equalityI) (simp_all add: load_array_def get_store_array)

lemma load_array_cong:
  assumes "\<And>k. k < w * n \<Longrightarrow> b (p + k) = c (q + k)"
  shows "load_array get w n b p = load_array get w n c q"
proof -
  have "get b (p + w * i) = get c (q + w * i)" if "i < n" for i
  proof (rule get_local)
    fix k
    assume "k < w"
    moreover from that have "w * Suc i \<le> w * n" by (intro mult_le_mono) auto
    ultimately have "w * i + k < w * n" by simp
    from assms [OF this] show "b (p + w * i + k) = c (q + w * i + k)"
      by (simp add: add.assoc)
  qed
  then show ?thesis by (simp add: load_array_def)
qed

end

interpretation le16: record_codec put16 get16 2
proof unfold_locales
  show "get16 (put16 v b p) p = v" for v b p by (rule get16_put16)
  show "put16 v b p k = b k" if "k < p \<or> p + 2 \<le> k" for v b p k using that by (rule put16_frame)
  show "get16 b p = get16 c q" if "\<And>k. k < 2 \<Longrightarrow> b (p + k) = c (q + k)" for b c p q
    using that [of 0] that [of 1] by (simp add: get16_def)
qed

interpretation le32: record_codec put32 get32 4
proof unfold_locales
  show "get32 (put32 v b p) p = v" for v b p by (rule get32_put32)
  show "put32 v b p k = b k" if "k < p \<or> p + 4 \<le> k" for v b p k using that by (rule put32_frame)
  show "get32 b p = get32 c q" if "\<And>k. k < 4 \<Longrightarrow> b (p + k) = c (q + k)" for b c p q
    using that [of 0] that [of 1] that [of 2] that [of 3] by (simp add: get32_def)
qed

lemmas [mem_simps] = le16.get_put_other le32.get_put_other

lemma get32_put16_other [mem_simps]: "p + 2 \<le> q \<or> q + 4 \<le> p \<Longrightarrow> get32 (put16 v b p) q = get32 b q"
  by (rule le32.get_local) (rule le16.put_frame, auto)

lemma get16_put32_other [mem_simps]: "p + 4 \<le> q \<or> q + 2 \<le> p \<Longrightarrow> get16 (put32 v b p) q = get16 b q"
  by (rule le16.get_local) (rule le32.put_frame, auto)

lemma get_zero_block [mem_simps]: "get16 zero_block p = 0" "get32 zero_block p = 0"
  by (simp_all add: get16_def get32_def zero_block_def)

section \<open>Byte strings in a block\<close>

definition bytes_at :: "block \<Rightarrow> nat \<Rightarrow> nat \<Rightarrow> u8 list" where
  "bytes_at b p n = map (\<lambda>k. b (p + k)) [0..<n]"

definition store_bytes :: "u8 list \<Rightarrow> block \<Rightarrow> nat \<Rightarrow> block" where
  "store_bytes xs b p = (\<lambda>k. if p \<le> k \<and> k < p + length xs then xs ! (k - p) else b k)"

lemma length_bytes_at [simp]: "length (bytes_at b p n) = n"
  by (simp add: bytes_at_def)

lemma bytes_at_cong: "(\<And>k. p \<le> k \<Longrightarrow> k < p + n \<Longrightarrow> b k = c k) \<Longrightarrow> bytes_at b p n = bytes_at c p n"
  by (simp add: bytes_at_def)

lemma bytes_at_store [simp]: "bytes_at (store_bytes xs b p) p (length xs) = xs"
  by (rule nth_equalityI) (simp_all add: bytes_at_def store_bytes_def)

lemma store_bytes_other: "k < p \<or> p + length xs \<le> k \<Longrightarrow> store_bytes xs b p k = b k"
  by (auto simp: store_bytes_def)

lemma store_bytes_get:
  "q + 4 \<le> p \<or> p + length xs \<le> q \<Longrightarrow> get32 (store_bytes xs b p) q = get32 b q"
  "q + 2 \<le> p \<or> p + length xs \<le> q \<Longrightarrow> get16 (store_bytes xs b p) q = get16 b q"
  by (rule get32_cong get16_cong, rule store_bytes_other, auto)+

lemma mem_copy_frame: "k < p \<or> p + n \<le> k \<Longrightarrow> mem_copy d p s q n k = d k"
  by (auto simp: mem_copy_def)

lemma get32_mem_copy_other: "r + 4 \<le> p \<or> p + n \<le> r \<Longrightarrow> get32 (mem_copy d p s q n) r = get32 d r"
  by (rule le32.get_local) (rule mem_copy_frame, auto)

section \<open>Bitmaps\<close>

text \<open>
  The kernel's \<open>unsigned long\<close> bitmaps: \<open>test_bit\<close> is application, \<open>bm_set\<close> and
  \<open>bm_clear\<close> are \<open>bitmap_set\<close> and \<open>bitmap_clear\<close>, \<open>bm_weight\<close> is
  \<open>bitmap_weight\<close>. On a little-endian host bit \<open>k\<close> lies in byte \<open>k div 8\<close>.
\<close>

type_synonym bitmap = "nat \<Rightarrow> bool"

definition bm_set :: "bitmap \<Rightarrow> nat \<Rightarrow> nat \<Rightarrow> bitmap" where
  "bm_set m i n = (\<lambda>k. i \<le> k \<and> k < i + n \<or> m k)"

definition bm_clear :: "bitmap \<Rightarrow> nat \<Rightarrow> nat \<Rightarrow> bitmap" where
  "bm_clear m i n = (\<lambda>k. \<not> (i \<le> k \<and> k < i + n) \<and> m k)"

definition bm_weight :: "bitmap \<Rightarrow> nat \<Rightarrow> nat" where
  "bm_weight m n = length (filter m [0..<n])"

text \<open>Are all of the \<open>n\<close> bits from \<open>i\<close> set?\<close>

definition bm_all :: "bitmap \<Rightarrow> nat \<Rightarrow> nat \<Rightarrow> bool" where
  "bm_all m i n = list_all m [i..<i + n]"

definition bm_none :: "bitmap \<Rightarrow> nat \<Rightarrow> nat \<Rightarrow> bool" where
  "bm_none m i n = list_all (\<lambda>k. \<not> m k) [i..<i + n]"

text \<open>The 4096 bytes of bitmap block \<open>i\<close>, and a bitmap read back from such bytes.\<close>

definition bitmap_block :: "bitmap \<Rightarrow> nat \<Rightarrow> block" where
  "bitmap_block m i = (\<lambda>k. horner_sum of_bool 2 (map (\<lambda>j. m (i * 32768 + k * 8 + j)) [0..<8]))"

definition block_bit :: "block \<Rightarrow> nat \<Rightarrow> bool" where
  "block_bit b k = bit (b (k div 8)) (k mod 8)"

lemma bm_all_iff: "bm_all m i n \<longleftrightarrow> (\<forall>k. i \<le> k \<and> k < i + n \<longrightarrow> m k)"
  by (auto simp: bm_all_def list_all_iff)

lemma bm_none_iff: "bm_none m i n \<longleftrightarrow> (\<forall>k. i \<le> k \<and> k < i + n \<longrightarrow> \<not> m k)"
  by (auto simp: bm_none_def list_all_iff)

lemma bm_weight_card: "bm_weight m n = card {k. k < n \<and> m k}"
proof -
  have "bm_weight m n = card (set (filter m [0..<n]))"
    unfolding bm_weight_def by (rule distinct_card [symmetric]) simp
  also have "set (filter m [0..<n]) = {k. k < n \<and> m k}"
    by auto
  finally show ?thesis .
qed

lemma bm_weight_le: "bm_weight m n \<le> n"
proof -
  have "bm_weight m n \<le> length [0..<n]"
    unfolding bm_weight_def by (rule length_filter_le)
  then show ?thesis by simp
qed

lemma bm_weight_clear:
  assumes "bm_all m i k" "i + k \<le> n"
  shows "bm_weight (bm_clear m i k) n + k = bm_weight m n"
proof -
  have split: "{j. j < n \<and> m j} = {j. j < n \<and> bm_clear m i k j} \<union> {i..<i + k}"
    using assms by (auto simp: bm_clear_def bm_all_iff)
  have "card {j. j < n \<and> m j} = card {j. j < n \<and> bm_clear m i k j} + card {i..<i + k}"
    unfolding split by (rule card_Un_disjoint) (auto simp: bm_clear_def)
  then show ?thesis by (simp add: bm_weight_card)
qed

lemma bm_set_clear: "bm_all m i k \<Longrightarrow> bm_set (bm_clear m i k) i k = m"
  by (auto simp: bm_set_def bm_clear_def bm_all_iff fun_eq_iff)

lemma bm_clear_set: "bm_none m i k \<Longrightarrow> bm_clear (bm_set m i k) i k = m"
  by (auto simp: bm_set_def bm_clear_def bm_none_iff fun_eq_iff)

lemma bm_weight_set:
  assumes "bm_none m i k" "i + k \<le> n"
  shows "bm_weight (bm_set m i k) n = bm_weight m n + k"
proof -
  have "bm_all (bm_set m i k) i k" by (simp add: bm_all_iff bm_set_def)
  from bm_weight_clear [OF this assms(2)] show ?thesis
    by (simp add: bm_clear_set [OF assms(1)])
qed

lemma block_bit_bitmap_block:
  assumes "k < 32768"
  shows "block_bit (bitmap_block m i) k = m (i * 32768 + k)"
proof -
  have "i * 32768 + k div 8 * 8 + k mod 8 = i * 32768 + k"
    by (simp add: div_mult_mod_eq add.assoc)
  then show ?thesis
    by (simp add: block_bit_def bitmap_block_def bit_horner_sum_bit_word_iff)
      (simp add: add.commute)
qed

section \<open>The state monad and its weakest preconditions\<close>

text \<open>
  Stateful code is written in the library's state monad. \<open>wp m Q s\<close> says that running
  \<open>m\<close> from \<open>s\<close> ends with a result and a state that satisfy \<open>Q\<close>; the monad is
  total and deterministic, so this is total correctness.
\<close>

abbreviation ret :: "'a \<Rightarrow> ('s, 'a) state" where
  "ret \<equiv> State_Monad.return"

definition gets :: "('s \<Rightarrow> 'a) \<Rightarrow> ('s, 'a) state" where
  "gets f = State (\<lambda>s. (f s, s))"

definition modify :: "('s \<Rightarrow> 's) \<Rightarrow> ('s, unit) state" where
  "modify f = State (\<lambda>s. ((), f s))"

text \<open>\<open>if (!ret) ret = m;\<close> and \<open>if (c) m;\<close>.\<close>

definition then_if_ok :: "status \<Rightarrow> ('s, status) state \<Rightarrow> ('s, status) state" where
  "then_if_ok r m = (case r of None \<Rightarrow> m | Some e \<Rightarrow> ret (Some e))"

definition when_true :: "bool \<Rightarrow> ('s, unit) state \<Rightarrow> ('s, unit) state" where
  "when_true c m = (if c then m else ret ())"

definition wp :: "('s, 'a) state \<Rightarrow> ('a \<Rightarrow> 's \<Rightarrow> bool) \<Rightarrow> 's \<Rightarrow> bool" where
  "wp m Q s = (case run_state m s of (r, s') \<Rightarrow> Q r s')"

lemma run_state_gets [simp]: "run_state (gets f) s = (f s, s)"
  by (simp add: gets_def)

lemma run_state_modify [simp]: "run_state (modify f) s = ((), f s)"
  by (simp add: modify_def)

lemma wp_return [wp_simps]: "wp (ret x) Q s = Q x s"
  by (simp add: wp_def)

lemma wp_gets [wp_simps]: "wp (gets f) Q s = Q (f s) s"
  by (simp add: wp_def)

lemma wp_modify [wp_simps]: "wp (modify f) Q s = Q () (f s)"
  by (simp add: wp_def)

lemma wp_bind [wp_simps]: "wp (State_Monad.bind m f) Q s = wp m (\<lambda>r. wp (f r) Q) s"
  by (simp add: wp_def split: prod.splits)

lemma wp_if [wp_simps]: "wp (if c then m else n) Q s = (if c then wp m Q s else wp n Q s)"
  by simp

lemma wp_when [wp_simps]: "wp (when_true c m) Q s = (if c then wp m Q s else Q () s)"
  by (simp add: when_true_def wp_return)

lemma wp_option [wp_simps]:
  "wp (case x of None \<Rightarrow> m | Some y \<Rightarrow> f y) Q s
     = (case x of None \<Rightarrow> wp m Q s | Some y \<Rightarrow> wp (f y) Q s)"
  by (simp split: option.splits)

lemma wp_sum [wp_simps]:
  "wp (case x of Inl e \<Rightarrow> f e | Inr y \<Rightarrow> g y) Q s
     = (case x of Inl e \<Rightarrow> wp (f e) Q s | Inr y \<Rightarrow> wp (g y) Q s)"
  by (simp split: sum.splits)

lemma wp_then_if_ok [wp_simps]:
  "wp (then_if_ok r m) Q s = (case r of None \<Rightarrow> wp m Q s | Some e \<Rightarrow> Q (Some e) s)"
  by (simp add: then_if_ok_def wp_return split: option.splits)

lemma wp_mono: "wp m Q s \<Longrightarrow> (\<And>r s'. Q r s' \<Longrightarrow> R r s') \<Longrightarrow> wp m R s"
  by (auto simp: wp_def split: prod.splits)

lemma wp_conj: "wp m Q s \<Longrightarrow> wp m R s \<Longrightarrow> wp m (\<lambda>r s'. Q r s' \<and> R r s') s"
  by (simp add: wp_def split: prod.splits)

lemma wp_run: "wp m Q s \<Longrightarrow> run_state m s = (r, s') \<Longrightarrow> Q r s'"
  by (simp add: wp_def)

lemma wpI: "(\<And>r s'. run_state m s = (r, s') \<Longrightarrow> Q r s') \<Longrightarrow> wp m Q s"
  by (simp add: wp_def split: prod.splits)

section \<open>Frames: what every run keeps\<close>

text \<open>
  A frame is a reflexive and transitive relation between the state before and the state after. That
  a piece of code keeps a frame follows from its parts; the rules below are collected in
  \<open>frame_rules\<close>, one instance per interpreted frame.
\<close>

definition keeps :: "('s \<Rightarrow> 's \<Rightarrow> bool) \<Rightarrow> ('s, 'a) state \<Rightarrow> bool" where
  "keeps R m \<longleftrightarrow> (\<forall>s. R s (snd (run_state m s)))"

named_theorems frame_rules

lemma wp_keeps: "keeps R m \<Longrightarrow> wp m Q s \<Longrightarrow> wp m (\<lambda>r s'. R s s' \<and> Q r s') s"
  by (auto simp: keeps_def wp_def split_beta)

lemma keepsD: "keeps R m \<Longrightarrow> run_state m s = (r, s') \<Longrightarrow> R s s'"
  by (metis keeps_def snd_conv)

lemma keeps_wp: "keeps R m \<longleftrightarrow> (\<forall>s. wp m (\<lambda>_. R s) s)"
  by (simp add: keeps_def wp_def split_beta)

lemma keeps_modify [frame_rules]: "(\<And>s. R s (f s)) \<Longrightarrow> keeps R (modify f)"
  by (simp add: keeps_def)

locale frame =
  fixes R :: "'s \<Rightarrow> 's \<Rightarrow> bool"
  assumes refl: "R s s"
    and trans: "R s t \<Longrightarrow> R t u \<Longrightarrow> R s u"
begin

lemma keeps_return: "keeps R (ret x)"
  by (simp add: keeps_def refl)

lemma keeps_gets: "keeps R (gets f)"
  by (simp add: keeps_def refl)

lemma keeps_bind: "keeps R m \<Longrightarrow> (\<And>x. keeps R (f x)) \<Longrightarrow> keeps R (State_Monad.bind m f)"
  by (auto simp: keeps_def split_beta intro: trans)

lemma keeps_when: "(c \<Longrightarrow> keeps R m) \<Longrightarrow> keeps R (when_true c m)"
  by (simp add: when_true_def keeps_return)

lemma keeps_then: "keeps R m \<Longrightarrow> keeps R (then_if_ok r m)"
  by (simp add: then_if_ok_def keeps_return split: option.split)

end

lemma keeps_if [frame_rules]:
  "(c \<Longrightarrow> keeps R m) \<Longrightarrow> (\<not> c \<Longrightarrow> keeps R n) \<Longrightarrow> keeps R (if c then m else n)"
  by simp

lemma keeps_option [frame_rules]:
  "(x = None \<Longrightarrow> keeps R m) \<Longrightarrow> (\<And>y. x = Some y \<Longrightarrow> keeps R (f y))
     \<Longrightarrow> keeps R (case x of None \<Rightarrow> m | Some y \<Rightarrow> f y)"
  by (simp split: option.split)

lemma keeps_sum [frame_rules]:
  "(\<And>e. x = Inl e \<Longrightarrow> keeps R (f e)) \<Longrightarrow> (\<And>y. x = Inr y \<Longrightarrow> keeps R (g y))
     \<Longrightarrow> keeps R (case x of Inl e \<Rightarrow> f e | Inr y \<Rightarrow> g y)"
  by (simp split: sum.split)

lemma keeps_prod [frame_rules]:
  "(\<And>a b. p = (a, b) \<Longrightarrow> keeps R (f a b)) \<Longrightarrow> keeps R (case p of (a, b) \<Rightarrow> f a b)"
  by (simp split: prod.split)

lemma keeps_let [frame_rules]: "(\<And>x. x = e \<Longrightarrow> keeps R (f x)) \<Longrightarrow> keeps R (let x = e in f x)"
  by simp

end
