(* ===== verification/SFS_Format.thy ===== *)
theory SFS_Format
  imports SFS_Prelude
begin

text \<open>
  The on-disk format of \<open>simplefs.h\<close>: the layout constants, the extent record with its state
  bit in the high bit of \<open>ee_len\<close>, the headers of extent root and leaf blocks, and the byte
  layout of these records. Directory records, inodes and extended attributes have their layout in
  the theories of the components that use them.
\<close>

section \<open>Constants\<close>

definition SIMPLEFS_BLOCK_SIZE :: nat where
  "SIMPLEFS_BLOCK_SIZE = 2 ^ 12"

definition SIMPLEFS_FILE_EXTENTS_PER_LEAF :: nat where
  "SIMPLEFS_FILE_EXTENTS_PER_LEAF = (SIMPLEFS_BLOCK_SIZE - 8) div 12"

definition SIMPLEFS_FILE_INDEX_SLOTS :: nat where
  "SIMPLEFS_FILE_INDEX_SLOTS = (SIMPLEFS_BLOCK_SIZE - 8) div 16"

definition SIMPLEFS_MAX_BLOCKS_PER_EXTENT :: u32 where
  "SIMPLEFS_MAX_BLOCKS_PER_EXTENT = 8192"

definition SIMPLEFS_MAX_FILE_EXTENTS :: nat where
  "SIMPLEFS_MAX_FILE_EXTENTS = SIMPLEFS_FILE_EXTENTS_PER_LEAF * SIMPLEFS_FILE_INDEX_SLOTS"

text \<open>\<open>sizeof(struct simplefs_inode)\<close> is 104 and \<open>sizeof(struct simplefs_file)\<close> is 260.\<close>

definition SIMPLEFS_INODES_PER_BLOCK :: nat where
  "SIMPLEFS_INODES_PER_BLOCK = SIMPLEFS_BLOCK_SIZE div 104"

definition SIMPLEFS_FILES_PER_BLOCK :: nat where
  "SIMPLEFS_FILES_PER_BLOCK = SIMPLEFS_BLOCK_SIZE div 260"

definition SIMPLEFS_MAX_FILESIZE :: nat where
  "SIMPLEFS_MAX_FILESIZE =
     unat SIMPLEFS_MAX_BLOCKS_PER_EXTENT * SIMPLEFS_BLOCK_SIZE * SIMPLEFS_MAX_FILE_EXTENTS"

definition SIMPLEFS_DISK_MAGIC :: u32 where
  "SIMPLEFS_DISK_MAGIC = 0xDEADCE02"

definition SIMPLEFS_EXTENT_ROOT_MAGIC :: u32 where
  "SIMPLEFS_EXTENT_ROOT_MAGIC = 0xF5007E01"

definition SIMPLEFS_EXTENT_LEAF_MAGIC :: u32 where
  "SIMPLEFS_EXTENT_LEAF_MAGIC = 0xF5007E02"

definition SIMPLEFS_EXTENT_UNWRITTEN :: u32 where
  "SIMPLEFS_EXTENT_UNWRITTEN = push_bit 31 1"

definition SIMPLEFS_EXTENT_LEN_MASK :: u32 where
  "SIMPLEFS_EXTENT_LEN_MASK = NOT SIMPLEFS_EXTENT_UNWRITTEN"

lemma format_constants [simp]:
  "SIMPLEFS_BLOCK_SIZE = 4096"
  "SIMPLEFS_FILE_EXTENTS_PER_LEAF = 340"
  "SIMPLEFS_FILE_INDEX_SLOTS = 255"
  "SIMPLEFS_MAX_BLOCKS_PER_EXTENT = 8192"
  "SIMPLEFS_MAX_FILE_EXTENTS = 86700"
  "SIMPLEFS_INODES_PER_BLOCK = 39"
  "SIMPLEFS_FILES_PER_BLOCK = 15"
  by (simp_all add: SIMPLEFS_BLOCK_SIZE_def SIMPLEFS_FILE_EXTENTS_PER_LEAF_def
      SIMPLEFS_FILE_INDEX_SLOTS_def SIMPLEFS_MAX_BLOCKS_PER_EXTENT_def
      SIMPLEFS_MAX_FILE_EXTENTS_def SIMPLEFS_INODES_PER_BLOCK_def SIMPLEFS_FILES_PER_BLOCK_def)

section \<open>Block counts and 512-byte sectors\<close>

definition simplefs_blocks_to_sectors :: "u64 \<Rightarrow> u64" where
  "simplefs_blocks_to_sectors blocks = blocks * of_nat (SIMPLEFS_BLOCK_SIZE div 512)"

definition simplefs_sectors_to_blocks :: "u64 \<Rightarrow> u64" where
  "simplefs_sectors_to_blocks sectors = sectors div of_nat (SIMPLEFS_BLOCK_SIZE div 512)"

section \<open>Extents\<close>

record simplefs_extent =
  ee_block :: u32
  ee_len :: u32
  ee_start :: u32

definition simplefs_ext_len :: "simplefs_extent \<Rightarrow> u32" where
  "simplefs_ext_len ext =
     (let len = ee_len ext AND SIMPLEFS_EXTENT_LEN_MASK
      in if len > SIMPLEFS_MAX_BLOCKS_PER_EXTENT then SIMPLEFS_MAX_BLOCKS_PER_EXTENT else len)"

definition simplefs_ext_unwritten :: "simplefs_extent \<Rightarrow> bool" where
  "simplefs_ext_unwritten ext \<longleftrightarrow> ee_len ext AND SIMPLEFS_EXTENT_UNWRITTEN \<noteq> 0"

definition simplefs_ext_set_len :: "simplefs_extent \<Rightarrow> u32 \<Rightarrow> simplefs_extent" where
  "simplefs_ext_set_len ext len =
     ext\<lparr>ee_len := (ee_len ext AND SIMPLEFS_EXTENT_UNWRITTEN) OR (len AND SIMPLEFS_EXTENT_LEN_MASK)\<rparr>"

definition simplefs_ext_set_unwritten :: "simplefs_extent \<Rightarrow> bool \<Rightarrow> simplefs_extent" where
  "simplefs_ext_set_unwritten ext unwritten =
     (let l = ee_len ext AND SIMPLEFS_EXTENT_LEN_MASK
      in ext\<lparr>ee_len := (if unwritten then l OR SIMPLEFS_EXTENT_UNWRITTEN else l)\<rparr>)"

definition simplefs_ext_init :: "u32 \<Rightarrow> u32 \<Rightarrow> u32 \<Rightarrow> bool \<Rightarrow> simplefs_extent" where
  "simplefs_ext_init blk len start unwritten =
     (let l = len AND SIMPLEFS_EXTENT_LEN_MASK
      in \<lparr>ee_block = blk, ee_len = (if unwritten then l OR SIMPLEFS_EXTENT_UNWRITTEN else l),
          ee_start = start\<rparr>)"

definition simplefs_ext_end :: "simplefs_extent \<Rightarrow> u32" where
  "simplefs_ext_end ext = ee_block ext + simplefs_ext_len ext"

definition simplefs_extent_is_empty :: "simplefs_extent \<Rightarrow> bool" where
  "simplefs_extent_is_empty ext \<longleftrightarrow> ee_start ext = 0 \<or> simplefs_ext_len ext = 0"

text \<open>\<open>simplefs_extent_clear\<close> zeroes all three fields of its argument.\<close>

definition simplefs_extent_clear :: "simplefs_extent \<Rightarrow> simplefs_extent" where
  "simplefs_extent_clear ext = ext\<lparr>ee_start := 0, ee_len := 0, ee_block := 0\<rparr>"

section \<open>Extent root and leaf blocks\<close>

record simplefs_extent_index =
  ei_first :: u32
  leaf_block :: u32
  ei_nr_extents :: u32
  last_block :: u32

definition put_extent :: "simplefs_extent \<Rightarrow> block \<Rightarrow> nat \<Rightarrow> block" where
  "put_extent v b p = put32 (ee_start v) (put32 (ee_len v) (put32 (ee_block v) b p) (p + 4)) (p + 8)"

definition get_extent :: "block \<Rightarrow> nat \<Rightarrow> simplefs_extent" where
  "get_extent b p = \<lparr>ee_block = get32 b p, ee_len = get32 b (p + 4), ee_start = get32 b (p + 8)\<rparr>"

definition put_index :: "simplefs_extent_index \<Rightarrow> block \<Rightarrow> nat \<Rightarrow> block" where
  "put_index v b p = put32 (last_block v) (put32 (ei_nr_extents v)
     (put32 (leaf_block v) (put32 (ei_first v) b p) (p + 4)) (p + 8)) (p + 12)"

definition get_index :: "block \<Rightarrow> nat \<Rightarrow> simplefs_extent_index" where
  "get_index b p = \<lparr>ei_first = get32 b p, leaf_block = get32 b (p + 4),
     ei_nr_extents = get32 b (p + 8), last_block = get32 b (p + 12)\<rparr>"

text \<open>
  Both headers are eight bytes: the magic, \<open>eh_entries\<close>, and \<open>eh_depth\<close> in a root,
  \<open>eh_max\<close> in a leaf.
\<close>

definition eh_magic :: "block \<Rightarrow> u32" where "eh_magic b = get32 b 0"
definition eh_entries :: "block \<Rightarrow> u16" where "eh_entries b = get16 b 4"
definition eh_depth :: "block \<Rightarrow> u16" where "eh_depth b = get16 b 6"

definition set_eh_magic :: "u32 \<Rightarrow> block \<Rightarrow> block" where "set_eh_magic v b = put32 v b 0"
definition set_eh_entries :: "u16 \<Rightarrow> block \<Rightarrow> block" where "set_eh_entries v b = put16 v b 4"
definition set_eh_depth :: "u16 \<Rightarrow> block \<Rightarrow> block" where "set_eh_depth v b = put16 v b 6"
definition set_eh_max :: "u16 \<Rightarrow> block \<Rightarrow> block" where "set_eh_max v b = put16 v b 6"

section \<open>Laws of the extent record\<close>

lemma bit_unwritten: "bit SIMPLEFS_EXTENT_UNWRITTEN n \<longleftrightarrow> n = 31"
  unfolding SIMPLEFS_EXTENT_UNWRITTEN_def bit_push_bit_iff by (auto simp: bit_1_iff)

lemma ext_mask_take_bit: "x AND SIMPLEFS_EXTENT_LEN_MASK = take_bit 31 x"
  by (rule bit_word_eqI)
    (auto simp: SIMPLEFS_EXTENT_LEN_MASK_def bit_unwritten bit_simps)

lemma ext_len_take_bit:
  "simplefs_ext_len e = (if take_bit 31 (ee_len e) > 8192 then 8192 else take_bit 31 (ee_len e))"
  by (simp add: simplefs_ext_len_def ext_mask_take_bit Let_def)

lemma ext_unwritten_bit: "simplefs_ext_unwritten e \<longleftrightarrow> bit (ee_len e) 31"
proof -
  have "ee_len e AND SIMPLEFS_EXTENT_UNWRITTEN
      = (if bit (ee_len e) 31 then SIMPLEFS_EXTENT_UNWRITTEN else 0)"
    by (rule bit_word_eqI) (auto simp: bit_unwritten bit_simps)
  moreover have "SIMPLEFS_EXTENT_UNWRITTEN \<noteq> 0"
    using bit_unwritten [of 31] by auto
  ultimately show ?thesis by (simp add: simplefs_ext_unwritten_def)
qed

lemma ext_len_le: "simplefs_ext_len e \<le> 8192"
  by (simp add: ext_len_take_bit not_less)

lemma unat_ext_len_le: "unat (simplefs_ext_len e) \<le> 8192"
  using ext_len_le [of e] by (simp add: word_le_nat_alt)

lemma take_bit_31_small: "(n :: u32) \<le> 8192 \<Longrightarrow> take_bit 31 n = n"
proof -
  assume "n \<le> 8192"
  then have "unat n < 2 ^ 31" by (simp add: word_le_nat_alt)
  then have "take_bit 31 (unat n) = unat n" by (rule take_bit_nat_eq_self)
  then show ?thesis by (metis unsigned_take_bit_eq word_unat_eq_iff)
qed

lemma ext_init_len [simp]: "len \<le> 8192 \<Longrightarrow> simplefs_ext_len (simplefs_ext_init b len st u) = len"
proof -
  assume a: "len \<le> 8192"
  have "take_bit 31 (take_bit 31 len OR SIMPLEFS_EXTENT_UNWRITTEN) = take_bit 31 len"
    by (rule bit_word_eqI) (auto simp: bit_unwritten bit_simps)
  with a show ?thesis
    by (auto simp: simplefs_ext_init_def ext_len_take_bit ext_mask_take_bit Let_def
        take_bit_31_small not_less)
qed

lemma ext_init_unwritten [simp]: "simplefs_ext_unwritten (simplefs_ext_init b len st u) = u"
  by (auto simp: simplefs_ext_init_def ext_unwritten_bit ext_mask_take_bit Let_def
      bit_unwritten bit_simps)

lemma ext_init_fields [simp]:
  "ee_block (simplefs_ext_init b len st u) = b" "ee_start (simplefs_ext_init b len st u) = st"
  by (simp_all add: simplefs_ext_init_def Let_def)

lemma ext_set_len_len [simp]: "n \<le> 8192 \<Longrightarrow> simplefs_ext_len (simplefs_ext_set_len e n) = n"
proof -
  assume a: "n \<le> 8192"
  have "take_bit 31 ((ee_len e AND SIMPLEFS_EXTENT_UNWRITTEN) OR take_bit 31 n) = take_bit 31 n"
    by (rule bit_word_eqI) (auto simp: bit_simps bit_unwritten)
  with a show ?thesis
    by (auto simp: simplefs_ext_set_len_def ext_len_take_bit ext_mask_take_bit take_bit_31_small not_less)
qed

lemma ext_set_len_unwritten [simp]:
  "simplefs_ext_unwritten (simplefs_ext_set_len e n) = simplefs_ext_unwritten e"
  by (auto simp: simplefs_ext_set_len_def ext_unwritten_bit ext_mask_take_bit
      bit_unwritten bit_simps)

lemma ext_set_len_fields [simp]:
  "ee_block (simplefs_ext_set_len e n) = ee_block e" "ee_start (simplefs_ext_set_len e n) = ee_start e"
  by (simp_all add: simplefs_ext_set_len_def)

lemma ext_set_unwritten_unwritten [simp]:
  "simplefs_ext_unwritten (simplefs_ext_set_unwritten e u) = u"
  by (auto simp: simplefs_ext_set_unwritten_def ext_unwritten_bit ext_mask_take_bit Let_def
      bit_unwritten bit_simps)

lemma ext_set_unwritten_len [simp]:
  "simplefs_ext_len (simplefs_ext_set_unwritten e u) = simplefs_ext_len e"
proof -
  have "take_bit 31 (take_bit 31 (ee_len e) OR SIMPLEFS_EXTENT_UNWRITTEN) = take_bit 31 (ee_len e)"
    by (rule bit_word_eqI) (auto simp: bit_unwritten bit_simps)
  then show ?thesis
    by (simp add: simplefs_ext_set_unwritten_def ext_len_take_bit ext_mask_take_bit Let_def)
qed

lemma ext_set_unwritten_fields [simp]:
  "ee_block (simplefs_ext_set_unwritten e u) = ee_block e"
  "ee_start (simplefs_ext_set_unwritten e u) = ee_start e"
  by (simp_all add: simplefs_ext_set_unwritten_def Let_def)

lemma ext_clear_empty [simp]: "simplefs_extent_is_empty (simplefs_extent_clear e)"
  by (simp add: simplefs_extent_is_empty_def simplefs_extent_clear_def)

lemma sectors_blocks_roundtrip:
  assumes "unat n < 2 ^ 61"
  shows "simplefs_sectors_to_blocks (simplefs_blocks_to_sectors n) = n"
proof -
  have "unat (n * 8) = unat n * 8"
    using assms by (simp add: unat_word_ariths)
  then have "unat (n * 8 div 8) = unat n"
    by (simp add: unat_div)
  then show ?thesis
    by (simp add: simplefs_sectors_to_blocks_def simplefs_blocks_to_sectors_def word_unat_eq_iff)
qed

section \<open>Laws of the record layouts\<close>

interpretation extent_codec: record_codec put_extent get_extent 12
proof unfold_locales
  show "get_extent (put_extent v b p) p = v" for v b p
    by (simp add: get_extent_def put_extent_def mem_simps)
  show "put_extent v b p k = b k" if "k < p \<or> p + 12 \<le> k" for v b p k
    using that by (auto simp: put_extent_def put32_frame)
  show "get_extent b p = get_extent c q" if eq: "\<And>k. k < 12 \<Longrightarrow> b (p + k) = c (q + k)" for b c p q
  proof -
    have "get32 b (p + j) = get32 c (q + j)" if "j \<le> 8" for j
      by (rule le32.get_local) (use eq [of "j + k" for k] that in \<open>auto simp: add.assoc\<close>)
    from this [of 0] this [of 4] this [of 8] show ?thesis by (simp add: get_extent_def)
  qed
qed

interpretation index_codec: record_codec put_index get_index 16
proof unfold_locales
  show "get_index (put_index v b p) p = v" for v b p
    by (simp add: get_index_def put_index_def mem_simps)
  show "put_index v b p k = b k" if "k < p \<or> p + 16 \<le> k" for v b p k
    using that by (auto simp: put_index_def put32_frame)
  show "get_index b p = get_index c q" if eq: "\<And>k. k < 16 \<Longrightarrow> b (p + k) = c (q + k)" for b c p q
  proof -
    have "get32 b (p + j) = get32 c (q + j)" if "j \<le> 12" for j
      by (rule le32.get_local) (use eq [of "j + k" for k] that in \<open>auto simp: add.assoc\<close>)
    from this [of 0] this [of 4] this [of 8] this [of 12] show ?thesis by (simp add: get_index_def)
  qed
qed

end
