(* ===== verification/SFS_ExtentBuf.thy ===== *)
theory SFS_ExtentBuf
  imports SFS_Format
begin

text \<open>
  The in-memory extent list of a file, \<open>struct simplefs_extent_buffer\<close>, and the functions of
  \<open>simplefs_extent.c\<close> that work on it alone: search, removal and normalisation. A list of extents
  stands for a partial map from logical to physical blocks with a written/unwritten mark; the lemmas
  relate the lists to that map.

  \<open>nr_extents\<close> and \<open>nr_leaf_blocks\<close> are the lengths of the two lists. Positions in a list
  are natural numbers: a list never has more than \<open>INT_MAX / 12\<close> elements, because
  \<open>kvmalloc_array\<close> refuses a larger array.
\<close>

section \<open>The buffer\<close>

record simplefs_extent_buffer =
  extents :: "simplefs_extent list"
  buf_capacity :: nat
  leaf_blocks :: "u32 list"

definition empty_buffer :: simplefs_extent_buffer where
  "empty_buffer = \<lparr>extents = [], buf_capacity = 0, leaf_blocks = []\<rparr>"

definition simplefs_file_destroy_extents :: "simplefs_extent_buffer \<Rightarrow> simplefs_extent_buffer" where
  "simplefs_file_destroy_extents buf = empty_buffer"

text \<open>The loop leaves the first extent that starts after \<open>iblock\<close> or covers it.\<close>

fun find_extent_loop :: "simplefs_extent list \<Rightarrow> u32 \<Rightarrow> nat \<Rightarrow> bool \<times> nat" where
  "find_extent_loop [] iblock i = (False, i)"
| "find_extent_loop (ext # rest) iblock i =
     (if iblock < ee_block ext then (False, i)
      else if iblock \<ge> ee_block ext \<and> iblock < simplefs_ext_end ext then (True, i)
      else find_extent_loop rest iblock (Suc i))"

text \<open>
  Is there an extent that covers \<open>iblock\<close>; its index if so (\<open>*extent_idx\<close> and
  \<open>*insert_idx\<close> are then the same), or the index at which it belongs (\<open>*insert_idx\<close>).
\<close>

definition simplefs_file_find_extent :: "simplefs_extent_buffer \<Rightarrow> u32 \<Rightarrow> bool \<times> nat" where
  "simplefs_file_find_extent buf iblock = find_extent_loop (extents buf) iblock 0"

definition simplefs_file_remove_extent ::
    "simplefs_extent_buffer \<Rightarrow> nat \<Rightarrow> status \<times> simplefs_extent_buffer" where
  "simplefs_file_remove_extent buf extent_idx =
     (if extent_idx \<ge> length (extents buf) then (Some EINVAL, buf)
      else (None, buf\<lparr>extents := take extent_idx (extents buf) @ drop (Suc extent_idx) (extents buf)\<rparr>))"

section \<open>Normalisation\<close>

text \<open>
  The inner loop of the exchange sort: \<open>x\<close> is the element at the outer index, the list the ones
  after it. The result is the element left at the outer index and the elements after it.
\<close>

fun exchange_pass :: "simplefs_extent \<Rightarrow> simplefs_extent list \<Rightarrow> simplefs_extent \<times> simplefs_extent list" where
  "exchange_pass x [] = (x, [])"
| "exchange_pass x (y # ys) =
     (if ee_block x > ee_block y
      then let (m, zs) = exchange_pass y ys in (m, x # zs)
      else let (m, zs) = exchange_pass x ys in (m, y # zs))"

lemma exchange_pass_length: "exchange_pass x ys = (m, zs) \<Longrightarrow> length zs = length ys"
  by (induction x ys arbitrary: m zs rule: exchange_pass.induct)
    (auto split: prod.splits if_splits)

function exchange_sort :: "simplefs_extent list \<Rightarrow> simplefs_extent list" where
  "exchange_sort [] = []"
| "exchange_sort (x # xs) = (let (m, zs) = exchange_pass x xs in m # exchange_sort zs)"
  by pat_completeness auto
termination
  by (relation "measure length") (auto dest: exchange_pass_length [OF sym])

definition mergeable :: "simplefs_extent \<Rightarrow> simplefs_extent \<Rightarrow> bool" where
  "mergeable cur nxt \<longleftrightarrow> simplefs_ext_unwritten cur = simplefs_ext_unwritten nxt \<and>
     simplefs_ext_end cur = ee_block nxt \<and>
     ee_start cur + simplefs_ext_len cur = ee_start nxt \<and>
     simplefs_ext_len cur + simplefs_ext_len nxt \<le> SIMPLEFS_MAX_BLOCKS_PER_EXTENT"

definition merge_two :: "simplefs_extent \<Rightarrow> simplefs_extent \<Rightarrow> simplefs_extent" where
  "merge_two cur nxt = simplefs_ext_set_len cur (simplefs_ext_len cur + simplefs_ext_len nxt)"

text \<open>The second loop, from the element at the loop index on.\<close>

function merge_extents :: "simplefs_extent list \<Rightarrow> simplefs_extent list" where
  "merge_extents [] = []"
| "merge_extents [cur] = (if simplefs_extent_is_empty cur then [] else [cur])"
| "merge_extents (cur # nxt # rest) =
     (if simplefs_extent_is_empty cur then merge_extents (nxt # rest)
      else if mergeable cur nxt then merge_extents (merge_two cur nxt # rest)
      else cur # merge_extents (nxt # rest))"
  by pat_completeness auto
termination
  by (relation "measure length") auto

definition simplefs_file_normalize_extents :: "simplefs_extent_buffer \<Rightarrow> simplefs_extent_buffer" where
  "simplefs_file_normalize_extents buf =
     buf\<lparr>extents := merge_extents (exchange_sort (extents buf))\<rparr>"

section \<open>The map a list of extents stands for\<close>

text \<open>No end of an extent wraps around the 32-bit block numbers.\<close>

definition ext_ok :: "simplefs_extent \<Rightarrow> bool" where
  "ext_ok e \<longleftrightarrow> unat (ee_block e) + unat (simplefs_ext_len e) < 2 ^ 32
     \<and> unat (ee_start e) + unat (simplefs_ext_len e) < 2 ^ 32"

definition covers :: "simplefs_extent \<Rightarrow> nat \<Rightarrow> bool" where
  "covers e b \<longleftrightarrow> \<not> simplefs_extent_is_empty e \<and> unat (ee_block e) \<le> b
     \<and> b < unat (ee_block e) + unat (simplefs_ext_len e)"

definition target :: "simplefs_extent \<Rightarrow> nat \<Rightarrow> nat \<times> bool" where
  "target e b = (unat (ee_start e) + (b - unat (ee_block e)), simplefs_ext_unwritten e)"

text \<open>Where logical block \<open>b\<close> lies on the device, and whether it is unwritten.\<close>

definition emap :: "simplefs_extent list \<Rightarrow> nat \<Rightarrow> (nat \<times> bool) set" where
  "emap xs b = (\<lambda>e. target e b) ` {e \<in> set xs. covers e b}"

definition apart_exts :: "simplefs_extent \<Rightarrow> simplefs_extent \<Rightarrow> bool" where
  "apart_exts e f \<longleftrightarrow> simplefs_extent_is_empty e \<or> simplefs_extent_is_empty f
     \<or> unat (ee_block e) + unat (simplefs_ext_len e) \<le> unat (ee_block f)
     \<or> unat (ee_block f) + unat (simplefs_ext_len f) \<le> unat (ee_block e)"

definition exts_ok :: "simplefs_extent list \<Rightarrow> bool" where
  "exts_ok xs \<longleftrightarrow> list_all ext_ok xs \<and> sorted_wrt apart_exts xs"

text \<open>The normal form: non-empty extents in ascending order, none overlapping the next.\<close>

definition before :: "simplefs_extent \<Rightarrow> simplefs_extent \<Rightarrow> bool" where
  "before e f \<longleftrightarrow> unat (ee_block e) + unat (simplefs_ext_len e) \<le> unat (ee_block f)"

definition normal :: "simplefs_extent list \<Rightarrow> bool" where
  "normal xs \<longleftrightarrow> list_all (\<lambda>e. ext_ok e \<and> \<not> simplefs_extent_is_empty e) xs \<and> sorted_wrt before xs"

fun coalesced :: "simplefs_extent list \<Rightarrow> bool" where
  "coalesced (e # f # rest) \<longleftrightarrow> \<not> mergeable e f \<and> coalesced (f # rest)"
| "coalesced _ = True"

lemma ext_end_unat: "ext_ok e \<Longrightarrow> unat (simplefs_ext_end e) = unat (ee_block e) + unat (simplefs_ext_len e)"
  by (simp add: ext_ok_def simplefs_ext_end_def unat_add_no_wrap)

lemma emap_Cons: "emap (e # xs) b = (if covers e b then {target e b} else {}) \<union> emap xs b"
  by (auto simp: emap_def)

lemma emap_Nil [simp]: "emap [] b = {}"
  by (simp add: emap_def)

lemma emap_append: "emap (xs @ ys) b = emap xs b \<union> emap ys b"
  by (auto simp: emap_def)

lemma emap_set: "set xs = set ys \<Longrightarrow> emap xs = emap ys"
  by (simp add: emap_def fun_eq_iff)

text \<open>Disjoint extents map every block at most once.\<close>

lemma apart_covers: "apart_exts e f \<Longrightarrow> covers e b \<Longrightarrow> covers f b \<Longrightarrow> False"
  by (auto simp: apart_exts_def covers_def)

section \<open>Sorting\<close>

lemma exchange_pass_mset: "exchange_pass x ys = (m, zs) \<Longrightarrow> add_mset m (mset zs) = add_mset x (mset ys)"
  by (induction x ys arbitrary: m zs rule: exchange_pass.induct)
    (auto split: prod.splits if_splits)

lemma exchange_pass_min:
  "exchange_pass x ys = (m, zs) \<Longrightarrow> ee_block m \<le> ee_block x \<and> (\<forall>z\<in>set zs. ee_block m \<le> ee_block z)"
  by (induction x ys arbitrary: m zs rule: exchange_pass.induct)
    (fastforce split: prod.splits if_splits)+

lemma exchange_sort_mset: "mset (exchange_sort xs) = mset xs"
  by (induction xs rule: exchange_sort.induct)
    (auto split: prod.splits dest: exchange_pass_mset)

lemma exchange_sort_sorted: "sorted_wrt (\<lambda>e f. ee_block e \<le> ee_block f) (exchange_sort xs)"
proof (induction xs rule: exchange_sort.induct)
  case (2 x xs)
  obtain m zs where p: "exchange_pass x xs = (m, zs)" by fastforce
  have "set (exchange_sort zs) = set zs" by (rule mset_eq_setD [OF exchange_sort_mset])
  then show ?case using 2 [OF p [symmetric] refl] exchange_pass_min [OF p] p by simp
qed simp

lemma sorted_wrt_mset:
  assumes "symp P" "mset xs = mset ys" "sorted_wrt P xs"
  shows "sorted_wrt P ys"
  using assms(2,3)
proof (induction xs arbitrary: ys)
  case (Cons x xs)
  have "x \<in> set ys" using mset_eq_setD [OF Cons.prems(1)] by auto
  then obtain as bs where ys: "ys = as @ x # bs" using split_list by fast
  then have m: "mset xs = mset (as @ bs)" using Cons.prems(1) by simp
  then have "sorted_wrt P (as @ bs)" using Cons by simp
  moreover have "\<forall>y\<in>set as \<union> set bs. P x y" using Cons.prems(2) mset_eq_setD [OF m] by simp
  ultimately show ?case using assms(1) by (auto simp: ys sorted_wrt_append dest: sympD)
qed simp

lemma apart_exts_sym: "symp apart_exts"
  by (auto simp: symp_def apart_exts_def)

lemma exts_ok_sort: "exts_ok xs \<Longrightarrow> exts_ok (exchange_sort xs)"
  using sorted_wrt_mset [OF apart_exts_sym exchange_sort_mset [symmetric]] mset_eq_setD [OF exchange_sort_mset]
  by (simp add: exts_ok_def list_all_iff)

lemma emap_sort: "emap (exchange_sort xs) = emap xs"
  by (rule emap_set) (rule mset_eq_setD [OF exchange_sort_mset])

section \<open>Merging\<close>

lemma mergeable_unat:
  assumes "ext_ok cur" "\<not> simplefs_extent_is_empty cur" "mergeable cur nxt"
  shows "unat (ee_block nxt) = unat (ee_block cur) + unat (simplefs_ext_len cur)"
    "unat (ee_start nxt) = unat (ee_start cur) + unat (simplefs_ext_len cur)"
    "unat (simplefs_ext_len cur + simplefs_ext_len nxt) = unat (simplefs_ext_len cur) + unat (simplefs_ext_len nxt)"
    "simplefs_extent_is_empty nxt \<Longrightarrow> unat (simplefs_ext_len nxt) = 0"
proof -
  show *: "unat (ee_block nxt) = unat (ee_block cur) + unat (simplefs_ext_len cur)"
    using assms(3) ext_end_unat [OF assms(1)] by (simp add: mergeable_def)
  have "unat (ee_start cur + simplefs_ext_len cur) = unat (ee_start cur) + unat (simplefs_ext_len cur)"
    using assms(1) by (simp add: ext_ok_def unat_add_no_wrap)
  then show **: "unat (ee_start nxt) = unat (ee_start cur) + unat (simplefs_ext_len cur)"
    using assms(3) by (simp add: mergeable_def)
  show "unat (simplefs_ext_len cur + simplefs_ext_len nxt) = unat (simplefs_ext_len cur) + unat (simplefs_ext_len nxt)"
    using unat_ext_len_le [of cur] unat_ext_len_le [of nxt] by (intro unat_add_no_wrap) simp
  show "unat (simplefs_ext_len nxt) = 0" if "simplefs_extent_is_empty nxt"
    using that ** assms(2) by (auto simp: simplefs_extent_is_empty_def unat_eq_zero)
qed

lemma merge_two_simps [simp]:
  "ee_block (merge_two cur nxt) = ee_block cur" "ee_start (merge_two cur nxt) = ee_start cur"
  "simplefs_ext_unwritten (merge_two cur nxt) = simplefs_ext_unwritten cur"
  by (simp_all add: merge_two_def)

lemma merge_two_len:
  "mergeable cur nxt \<Longrightarrow> simplefs_ext_len (merge_two cur nxt) = simplefs_ext_len cur + simplefs_ext_len nxt"
  by (simp add: merge_two_def mergeable_def)

lemma merge_two_ok:
  assumes "ext_ok cur" "ext_ok nxt" "\<not> simplefs_extent_is_empty cur" "mergeable cur nxt"
  shows "ext_ok (merge_two cur nxt)" "\<not> simplefs_extent_is_empty (merge_two cur nxt)"
    "covers (merge_two cur nxt) b \<longleftrightarrow> covers cur b \<or> covers nxt b"
    "covers cur b \<Longrightarrow> target (merge_two cur nxt) b = target cur b"
    "covers nxt b \<Longrightarrow> target (merge_two cur nxt) b = target nxt b"
proof -
  note m = mergeable_unat [OF assms(1,3,4)]
  have len: "unat (simplefs_ext_len (merge_two cur nxt)) = unat (simplefs_ext_len cur) + unat (simplefs_ext_len nxt)"
    using merge_two_len [OF assms(4)] m(3) by simp
  show "ext_ok (merge_two cur nxt)" using assms(2) m len by (simp add: ext_ok_def)
  show ne: "\<not> simplefs_extent_is_empty (merge_two cur nxt)"
    using assms(3) len by (auto simp: simplefs_extent_is_empty_def word_unat_eq_iff)
  show "covers (merge_two cur nxt) b \<longleftrightarrow> covers cur b \<or> covers nxt b"
    using ne assms(3) m len by (auto simp: covers_def)
  show "target (merge_two cur nxt) b = target cur b" if "covers cur b" by (simp add: target_def)
  show "target (merge_two cur nxt) b = target nxt b" if "covers nxt b"
    using that m assms(4) by (auto simp: target_def covers_def mergeable_def)
qed

text \<open>The state of the second loop: what is left is sorted and disjoint.\<close>

definition sorted_ok :: "simplefs_extent list \<Rightarrow> bool" where
  "sorted_ok xs \<longleftrightarrow> exts_ok xs \<and> sorted_wrt (\<lambda>e f. ee_block e \<le> ee_block f) xs"

lemma sorted_ok_Cons:
  "sorted_ok (e # xs) \<longleftrightarrow> ext_ok e \<and> sorted_ok xs \<and> (\<forall>f\<in>set xs. apart_exts e f \<and> ee_block e \<le> ee_block f)"
  by (auto simp: sorted_ok_def exts_ok_def)

lemma apart_before:
  "apart_exts e f \<Longrightarrow> ee_block e \<le> ee_block f \<Longrightarrow> \<not> simplefs_extent_is_empty e \<Longrightarrow>
   \<not> simplefs_extent_is_empty f \<Longrightarrow> before e f"
  by (auto simp: apart_exts_def before_def word_le_nat_alt simplefs_extent_is_empty_def word_unat_eq_iff)

lemma before_apart: "before e f \<Longrightarrow> apart_exts e f"
  by (simp add: before_def apart_exts_def)

lemma sorted_ok_merge:
  assumes "sorted_ok (cur # nxt # rest)" "\<not> simplefs_extent_is_empty cur" "mergeable cur nxt"
  shows "sorted_ok (merge_two cur nxt # rest)"
proof -
  have ok: "ext_ok cur" "ext_ok nxt" using assms(1) by (simp_all add: sorted_ok_Cons)
  note m = mergeable_unat [OF ok(1) assms(2,3)] merge_two_ok [OF ok assms(2,3)]
  have "apart_exts (merge_two cur nxt) f" if f: "f \<in> set rest" for f
  proof (cases "simplefs_extent_is_empty f")
    case False
    have "before (if simplefs_extent_is_empty nxt then cur else nxt) f"
      using assms(1,2) f False by (auto simp: sorted_ok_Cons intro: apart_before)
    then have "before (merge_two cur nxt) f"
      using m by (auto simp: before_def merge_two_len [OF assms(3)] split: if_splits)
    then show ?thesis by (rule before_apart)
  qed (simp add: apart_exts_def)
  then show ?thesis using assms(1) m by (auto simp: sorted_ok_Cons)
qed

lemma merge_extents_normal:
  "sorted_ok xs \<Longrightarrow> normal (merge_extents xs) \<and> emap (merge_extents xs) = emap xs \<and>
     (\<forall>g\<in>set (merge_extents xs). \<exists>e\<in>set xs. ee_block g = ee_block e \<and> \<not> simplefs_extent_is_empty e)"
proof (induction xs rule: merge_extents.induct)
  case (3 cur nxt rest)
  note ok = 3(4) [unfolded sorted_ok_Cons [of cur]]
  consider (empty) "simplefs_extent_is_empty cur"
    | (merge) "\<not> simplefs_extent_is_empty cur" "mergeable cur nxt"
    | (step) "\<not> simplefs_extent_is_empty cur" "\<not> mergeable cur nxt" by blast
  then show ?case
  proof cases
    case empty
    have "emap (cur # nxt # rest) = emap (nxt # rest)"
      by (simp add: emap_Cons [of cur] covers_def empty fun_eq_iff)
    then show ?thesis using 3(1) [OF empty] ok empty by simp
  next
    case merge
    have nxt: "ext_ok nxt" "ext_ok cur" using 3(4) by (simp_all add: sorted_ok_Cons)
    note m = merge_two_ok [OF nxt(2,1) merge]
    have "(if covers (merge_two cur nxt) b then {target (merge_two cur nxt) b} else {})
        = (if covers cur b then {target cur b} else {}) \<union> (if covers nxt b then {target nxt b} else {})" for b
      using m(3) [of b] m(4) [of b] m(5) [of b]
      by (cases "covers cur b"; cases "covers nxt b") simp_all
    then have emap: "emap (merge_two cur nxt # rest) = emap (cur # nxt # rest)"
      by (simp only: emap_Cons fun_eq_iff Un_assoc) simp
    note IH = 3(2) [OF merge sorted_ok_merge [OF 3(4) merge]]
    have "\<exists>e\<in>set (cur # nxt # rest). ee_block g = ee_block e \<and> \<not> simplefs_extent_is_empty e"
      if "g \<in> set (merge_extents (merge_two cur nxt # rest))" for g
      using IH that merge(1) by fastforce
    then show ?thesis using IH merge emap by simp
  next
    case step
    note IH = 3(3) [OF step conjunct1 [OF conjunct2 [OF ok]]]
    have "before cur g" if g: "g \<in> set (merge_extents (nxt # rest))" for g
    proof -
      obtain e where "e \<in> set (nxt # rest)" "ee_block g = ee_block e" "\<not> simplefs_extent_is_empty e"
        using IH g by meson
      moreover from this(1) have "apart_exts cur e" "ee_block cur \<le> ee_block e"
        using ok by auto
      ultimately have "before cur e" using step(1) by (intro apart_before)
      then show ?thesis using \<open>ee_block g = ee_block e\<close> by (simp add: before_def)
    qed
    moreover have "emap (cur # merge_extents (nxt # rest)) = emap (cur # nxt # rest)"
      using IH by (simp add: emap_Cons [of cur] fun_eq_iff)
    ultimately show ?thesis using IH step conjunct1 [OF ok] by (simp add: normal_def)
  qed
qed (auto simp: normal_def sorted_ok_def exts_ok_def emap_Cons covers_def)

lemma coalesced_Cons: "coalesced (e # xs) \<longleftrightarrow> (xs \<noteq> [] \<longrightarrow> \<not> mergeable e (hd xs)) \<and> coalesced xs"
  by (cases xs) auto

text \<open>Merging keeps the first block and start of the head and never shortens it.\<close>

lemma merge_extents_head:
  assumes "list_all (\<lambda>e. \<not> simplefs_extent_is_empty e) xs" "sorted_ok xs" "xs \<noteq> []"
  shows "merge_extents xs \<noteq> [] \<and> ee_block (hd (merge_extents xs)) = ee_block (hd xs)
    \<and> ee_start (hd (merge_extents xs)) = ee_start (hd xs)
    \<and> simplefs_ext_unwritten (hd (merge_extents xs)) = simplefs_ext_unwritten (hd xs)
    \<and> simplefs_ext_len (hd xs) \<le> simplefs_ext_len (hd (merge_extents xs))"
  using assms
proof (induction xs rule: merge_extents.induct)
  case (3 cur nxt rest)
  show ?case
  proof (cases "mergeable cur nxt")
    case True
    have ne: "\<not> simplefs_extent_is_empty cur" and ok: "ext_ok nxt" "ext_ok cur"
      using 3(4,5) by (simp_all add: sorted_ok_Cons)
    have "simplefs_ext_len cur \<le> simplefs_ext_len (merge_two cur nxt)"
      using mergeable_unat(3) [OF ok(2) ne True] merge_two_len [OF True] by (simp add: word_le_nat_alt)
    then show ?thesis
      using 3(2) [OF ne True] sorted_ok_merge [OF 3(5) ne True] merge_two_ok(2) [OF ok(2,1) ne True] 3(4) ne True
      by (auto intro: order_trans)
  qed (use 3(4) in simp)
qed simp_all

lemma merge_extents_coalesced:
  "list_all (\<lambda>e. \<not> simplefs_extent_is_empty e) xs \<Longrightarrow> sorted_ok xs \<Longrightarrow> coalesced (merge_extents xs)"
proof (induction xs rule: merge_extents.induct)
  case (3 cur nxt rest)
  have ne: "\<not> simplefs_extent_is_empty cur" and ok: "ext_ok nxt" "ext_ok cur"
    using 3(4,5) by (simp_all add: sorted_ok_Cons)
  show ?case
  proof (cases "mergeable cur nxt")
    case True
    then show ?thesis
      using 3(2) [OF ne True] sorted_ok_merge [OF 3(5) ne True] merge_two_ok(2) [OF ok(2,1) ne True] 3(4) ne
      by simp
  next
    case False
    let ?h = "hd (merge_extents (nxt # rest))"
    have rest: "sorted_ok (nxt # rest)" using 3(5) by (simp add: sorted_ok_Cons)
    note hd = merge_extents_head [OF _ rest]
    have len: "unat (simplefs_ext_len nxt) \<le> unat (simplefs_ext_len ?h)"
      using hd 3(4) by (simp add: word_le_nat_alt)
    have add: "unat (simplefs_ext_len cur + simplefs_ext_len e) = unat (simplefs_ext_len cur) + unat (simplefs_ext_len e)" for e
      using unat_ext_len_le [of cur] unat_ext_len_le [of e] by (intro unat_add_no_wrap) simp
    have "\<not> mergeable cur ?h"
      using False hd 3(4) len by (auto simp: mergeable_def word_le_nat_alt add)
    then show ?thesis using 3(3) [OF ne False] rest 3(4) ne False by (simp add: coalesced_Cons)
  qed
qed simp_all

section \<open>Normalisation and search\<close>

lemma sorted_ok_sort: "exts_ok xs \<Longrightarrow> sorted_ok (exchange_sort xs)"
  by (simp add: sorted_ok_def exts_ok_sort exchange_sort_sorted)

lemma normalize_normal:
  assumes "exts_ok (extents buf)"
  shows "normal (extents (simplefs_file_normalize_extents buf))"
    "emap (extents (simplefs_file_normalize_extents buf)) = emap (extents buf)"
  using merge_extents_normal [OF sorted_ok_sort [OF assms]]
  by (simp_all add: simplefs_file_normalize_extents_def emap_sort)

lemma normal_exts_ok: "normal xs \<Longrightarrow> exts_ok xs"
  unfolding normal_def exts_ok_def
  by (auto simp: list_all_iff intro: before_apart elim!: sorted_wrt_mono_rel [rotated])

text \<open>In normal form a block has at most one target.\<close>

lemma exts_ok_unique: "exts_ok xs \<Longrightarrow> p \<in> emap xs b \<Longrightarrow> q \<in> emap xs b \<Longrightarrow> p = q"
proof (induction xs)
  case (Cons e xs)
  have "emap xs b = {}" if "covers e b"
    using that Cons.prems(1) apart_covers by (fastforce simp: exts_ok_def emap_def)
  then show ?case using Cons by (auto simp: emap_Cons exts_ok_def split: if_splits)
qed simp

lemma find_extent_loop_shift:
  "find_extent_loop xs b k = (fst (find_extent_loop xs b 0), k + snd (find_extent_loop xs b 0))"
proof (induction xs arbitrary: k)
  case (Cons e xs)
  show ?case using Cons [of "Suc k"] Cons [of "Suc 0"] by simp
qed simp

lemma find_extent_loop_spec:
  assumes "normal xs" "find_extent_loop xs b 0 = (found, i)"
  shows "(\<forall>e\<in>set (take i xs). unat (ee_block e) + unat (simplefs_ext_len e) \<le> unat b) \<and>
    (if found then i < length xs \<and> covers (xs ! i) (unat b)
     else i \<le> length xs \<and> (\<forall>e\<in>set (drop i xs). unat b < unat (ee_block e)))"
  using assms
proof (induction xs arbitrary: i)
  case (Cons e xs)
  have e: "ext_ok e" "\<not> simplefs_extent_is_empty e" and xs: "normal xs" "\<forall>f\<in>set xs. before e f"
    using Cons.prems(1) by (simp_all add: normal_def)
  note u = word_less_nat_alt word_le_nat_alt ext_end_unat [OF e(1)]
  consider (lt) "b < ee_block e" | (hit) "ee_block e \<le> b" "b < simplefs_ext_end e"
    | (beyond) "ee_block e \<le> b" "\<not> b < simplefs_ext_end e" by fastforce
  then show ?case
  proof cases
    case lt
    have "unat b < unat (ee_block f)" if "f \<in> set xs" for f
      using xs(2) lt that by (fastforce simp: before_def u)
    then show ?thesis using lt Cons.prems(2) by (auto simp: u)
  next
    case hit
    then show ?thesis using Cons.prems(2) e by (auto simp: covers_def u not_less)
  next
    case beyond
    obtain j where j: "find_extent_loop xs b 0 = (found, j)" "i = Suc j"
      using Cons.prems(2) beyond find_extent_loop_shift [of xs b "Suc 0"]
      by (cases "find_extent_loop xs b 0") (auto simp: u not_less)
    show ?thesis using Cons.IH [OF xs(1) j(1)] beyond j(2) by (auto simp: u not_less)
  qed
qed simp

lemma exchange_pass_id: "\<forall>y\<in>set ys. ee_block x \<le> ee_block y \<Longrightarrow> exchange_pass x ys = (x, ys)"
  by (induction ys) (auto simp: not_less)

lemma exchange_sort_id: "sorted_wrt (\<lambda>e f. ee_block e \<le> ee_block f) xs \<Longrightarrow> exchange_sort xs = xs"
  by (induction xs) (simp_all add: exchange_pass_id)

lemma merge_extents_id: "normal xs \<Longrightarrow> coalesced xs \<Longrightarrow> merge_extents xs = xs"
  by (induction xs rule: merge_extents.induct) (simp_all add: normal_def)

lemma normal_sorted: "normal xs \<Longrightarrow> sorted_wrt (\<lambda>e f. ee_block e \<le> ee_block f) xs"
  unfolding normal_def
  by (auto simp: before_def word_le_nat_alt elim!: sorted_wrt_mono_rel [rotated])

lemma merge_extents_length: "length (merge_extents xs) \<le> length xs"
  by (induction xs rule: merge_extents.induct) auto

text \<open>
  C4. \<open>simplefs_file_normalize_extents\<close> on a list of non-overlapping extents in any order, empty ones
  included, gives non-empty extents in ascending order that do not overlap, map every logical block to
  the same physical block in the same written state, and are no more than before. When no extent was
  empty, no two neighbours can still be merged, and normalising again changes nothing.
\<close>
theorem normalize_extents_correct:
  assumes "exts_ok (extents buf)" "buf' = simplefs_file_normalize_extents buf"
  shows "normal (extents buf') \<and> emap (extents buf') = emap (extents buf) \<and>
    length (extents buf') \<le> length (extents buf) \<and> leaf_blocks buf' = leaf_blocks buf \<and>
    ((\<forall>e\<in>set (extents buf). \<not> simplefs_extent_is_empty e) \<longrightarrow>
       coalesced (extents buf') \<and> simplefs_file_normalize_extents buf' = buf')"
proof -
  let ?xs = "exchange_sort (extents buf)"
  have xs': "extents buf' = merge_extents ?xs" "leaf_blocks buf' = leaf_blocks buf"
    using assms(2) by (simp_all add: simplefs_file_normalize_extents_def)
  have n: "normal (extents buf')" "emap (extents buf') = emap (extents buf)"
    using normalize_normal [OF assms(1)] assms(2) by simp_all
  have "length ?xs = length (extents buf)" using exchange_sort_mset by (metis size_mset)
  then have "length (extents buf') \<le> length (extents buf)" using merge_extents_length [of ?xs] xs'(1) by simp
  moreover have "coalesced (extents buf') \<and> simplefs_file_normalize_extents buf' = buf'"
    if "\<forall>e\<in>set (extents buf). \<not> simplefs_extent_is_empty e"
  proof -
    have "list_all (\<lambda>e. \<not> simplefs_extent_is_empty e) ?xs"
      using that mset_eq_setD [OF exchange_sort_mset] by (simp add: list_all_iff)
    then have "coalesced (extents buf')"
      unfolding xs'(1) by (rule merge_extents_coalesced) (rule sorted_ok_sort [OF assms(1)])
    then show ?thesis
      using exchange_sort_id [OF normal_sorted [OF n(1)]] merge_extents_id [OF n(1)]
      by (simp add: simplefs_file_normalize_extents_def)
  qed
  ultimately show ?thesis using n xs'(2) by simp
qed

definition demo_exts :: "simplefs_extent list" where
  "demo_exts = [simplefs_ext_init 4 2 104 False, simplefs_ext_init 0 4 100 False, simplefs_ext_init 9 1 50 True]"

lemma demo_exts_facts:
  "exts_ok demo_exts" "\<forall>e\<in>set demo_exts. \<not> simplefs_extent_is_empty e"
  by (simp_all add: demo_exts_def exts_ok_def ext_ok_def apart_exts_def simplefs_extent_is_empty_def)

theorem normalize_extents_correct_witness:
  "let buf' = simplefs_file_normalize_extents (empty_buffer\<lparr>extents := demo_exts\<rparr>)
   in normal (extents buf') \<and> emap (extents buf') = emap demo_exts \<and> coalesced (extents buf')"
  using normalize_extents_correct [of "empty_buffer\<lparr>extents := demo_exts\<rparr>", OF _ refl] demo_exts_facts
  by (simp add: Let_def)

text \<open>
  C31. On a list in normal form, \<open>simplefs_file_find_extent\<close> finds an extent exactly when the block is
  mapped; the extent at the returned index covers the block and gives its target. Otherwise the index
  is where an extent for the block belongs: every extent before it ends at or before the block, and
  every one from it on starts after the block.
\<close>
theorem find_extent_correct:
  assumes "normal (extents buf)" "simplefs_file_find_extent buf b = (found, i)"
  shows "(found \<longleftrightarrow> emap (extents buf) (unat b) \<noteq> {}) \<and>
    (found \<longrightarrow> i < length (extents buf) \<and> covers (extents buf ! i) (unat b) \<and>
       emap (extents buf) (unat b) = {target (extents buf ! i) (unat b)}) \<and>
    (\<forall>e\<in>set (take i (extents buf)). unat (ee_block e) + unat (simplefs_ext_len e) \<le> unat b) \<and>
    (\<not> found \<longrightarrow> (\<forall>e\<in>set (drop i (extents buf)). unat b < unat (ee_block e)))"
proof -
  let ?xs = "extents buf"
  note spec = find_extent_loop_spec [OF assms(1) assms(2) [unfolded simplefs_file_find_extent_def]]
  have after: "\<forall>e\<in>set (drop i ?xs). unat b < unat (ee_block e)" if "\<not> found" using spec that by simp
  have hit: "i < length ?xs \<and> covers (?xs ! i) (unat b) \<and> emap ?xs (unat b) = {target (?xs ! i) (unat b)}" if found
  proof -
    have c: "i < length ?xs" "covers (?xs ! i) (unat b)" using spec that by simp_all
    then have "target (?xs ! i) (unat b) \<in> emap ?xs (unat b)" by (auto simp: emap_def)
    then show ?thesis using c exts_ok_unique [OF normal_exts_ok [OF assms(1)]] by blast
  qed
  have "emap ?xs (unat b) = {}" if "\<not> found"
  proof -
    have "\<not> covers e (unat b)" if e: "e \<in> set (take i ?xs) \<union> set (drop i ?xs)" for e
      using e spec after [OF \<open>\<not> found\<close>] by (fastforce simp: covers_def)
    moreover have "set ?xs = set (take i ?xs) \<union> set (drop i ?xs)" by (metis append_take_drop_id set_append)
    ultimately show ?thesis by (auto simp: emap_def)
  qed
  with hit have "found \<longleftrightarrow> emap ?xs (unat b) \<noteq> {}" by auto
  then show ?thesis using hit after spec by blast
qed

theorem find_extent_correct_witness:
  "let buf = empty_buffer\<lparr>extents := [simplefs_ext_init 0 6 100 False, simplefs_ext_init 9 1 50 True]\<rparr>
   in simplefs_file_find_extent buf 9 = (True, 1) \<and> emap (extents buf) 9 = {(50, True)}"
proof -
  let ?buf = "empty_buffer\<lparr>extents := [simplefs_ext_init 0 6 100 False, simplefs_ext_init 9 1 50 True]\<rparr>"
  have n: "normal (extents ?buf)"
    by (simp add: normal_def ext_ok_def before_def simplefs_extent_is_empty_def)
  have f: "simplefs_file_find_extent ?buf 9 = (True, 1)"
    by (simp add: simplefs_file_find_extent_def simplefs_ext_end_def)
  show ?thesis using find_extent_correct [OF n f] f by (simp add: Let_def target_def)
qed

end
