(* ===== verification/SFS_State.thy ===== *)
theory SFS_State
  imports SFS_ExtentBuf
begin

text \<open>
  The state of a mounted SimpleFS and the calls it makes into code outside this repository.

  The kernel's JBD2, page cache, block layer and allocator are not part of the sources. A call into
  them is a \<open>kcall\<close>; what it returns is decided by an \<open>env\<close>, a parameter of every
  definition that makes such a call. An \<open>env\<close> answers from the whole history of calls, so it
  can fail any call at any time; \<open>kreplay\<close> is
  what JBD2's recovery does to the blocks of the device when a journal is loaded. Each call is recorded in the \<open>trace\<close> of the state (most recent
  first), which is how the order of writes is stated. Locks are taken and released around whole
  operations in the sources; the model runs one operation at a time and has no lock state.
\<close>

section \<open>Calls into the kernel\<close>

datatype kcall =
    Read_mapping_folio u32
  | Folio_mark_dirty u32
  | Folio_covers u32 u32
  | Sb_getblk u32
  | Sb_find_get_block u32
  | Sb_bread u32
  | Sync_dirty_buffer u32
  | Buffer_revoked u32
  | Buffer_transaction_owned u32
  | Bdev_read_only
  | Sb_rdonly
  | Blkdev_issue_flush
  | Blkdev_issue_zeroout u32 u32
  | Sb_issue_discard u64 u64
  | Mapping_set_error errno
  | Filemap_write_and_wait_range u32 u32
  | Invalidate_pages u32 u32
  | Kmalloc
  | Journal_current_handle
  | Is_journal_aborted
  | Jbd2_journal_init_dev u32 u32
  | Jbd2_journal_load
  | Jbd2_journal_destroy
  | Jbd2_journal_start int
  | Jbd2_journal_stop
  | Jbd2_journal_abort errno
  | Jbd2_get_write_access u32
  | Jbd2_dirty_metadata u32
  | Jbd2_revoke_credits
  | Jbd2_revoke u32
  | Jbd2_flush
  | Jbd2_force_commit
  | Bdev_discard_granularity
  | Root_inode
  | Mark_inode_dirty u32
  | Other string "int list"

type_synonym event = "kcall \<times> status"

record env =
  kret :: "event list \<Rightarrow> kcall \<Rightarrow> status"
  kask :: "event list \<Rightarrow> kcall \<Rightarrow> bool"
  knum :: "event list \<Rightarrow> kcall \<Rightarrow> int"
  kreplay :: "event list \<Rightarrow> (u32 \<Rightarrow> block) \<Rightarrow> (u32 \<Rightarrow> block)"

section \<open>The superblock, the journal adapter and inodes\<close>

text \<open>
  \<open>struct simplefs_sb_info\<close>. Its \<open>s_journal\<close> and \<open>s_shutdown\<close> members are fields of
  the mounted state \<open>kst\<close> below, because the journal adapter changes these two and nothing
  else of it.
\<close>

record simplefs_sb_info =
  nr_blocks :: u32
  nr_inodes :: u32
  nr_istore_blocks :: u32
  nr_ifree_blocks :: u32
  nr_bfree_blocks :: u32
  nr_free_inodes :: u32
  nr_free_blocks :: u32
  s_journal_present :: u32
  s_journal_start :: u32
  s_journal_mode :: u32
  s_needs_recovery :: u32
  ifree_bitmap :: bitmap
  bfree_bitmap :: bitmap
  discard_pending :: "bitmap option"
  s_discard :: bool

text \<open>
  \<open>struct simplefs_journal\<close>: is there a JBD2 journal, does the running task own the handle, and
  is an active handle recorded.
\<close>

record simplefs_journal =
  j_jbd2 :: bool
  j_handle_owner :: bool
  j_active_handle :: bool

record timespec64 =
  tv_sec :: int
  tv_nsec :: int

text \<open>
  A cached directory record, \<open>struct simplefs_dir_name\<close>, and \<open>struct simplefs_dir_index\<close>
  without its back pointer \<open>dir\<close> (an index is only reached through its inode). The hash table
  \<open>names\<close> is a map from file names; a record that is both in the table and in the \<open>entries\<close> array is
  one object in the sources, so an operation that changes it changes both.
\<close>

record simplefs_dir_name =
  dn_name :: "u8 list"
  dn_ino :: u32
  dn_slot :: u32

record simplefs_dir_index =
  dx_mapping :: simplefs_extent_buffer
  dx_names :: "u8 list \<Rightarrow> simplefs_dir_name option"
  dx_entries :: "nat \<Rightarrow> simplefs_dir_name option"
  dx_used :: bitmap
  dx_blocks :: "u32 list"
  dx_nr_files :: u32
  dx_capacity :: u32
  dx_next_free :: u32
  dx_valid :: bool

text \<open>
  The members of a VFS inode and its \<open>struct simplefs_inode_info\<close>. \<open>i_vfs_flags\<close> is
  \<open>inode->i_flags\<close>, the \<open>S_*\<close> bits, and \<open>i_flags\<close> the \<open>FS_*_FL\<close> bits of the
  SimpleFS part; \<open>i_link\<close> says that \<open>inode->i_link\<close> points to \<open>i_data\<close>.
\<close>

record simplefs_inode_info =
  i_mode :: u16
  i_uid :: u32
  i_gid :: u32
  i_size :: int
  i_ctime :: timespec64
  i_atime :: timespec64
  i_mtime :: timespec64
  i_blocks :: u64
  i_nlink :: u32
  i_generation :: u32
  i_rdev :: u32
  i_vfs_flags :: u32
  i_link :: bool
  ei_block :: u32
  i_xattr_block :: u32
  i_flags :: u32
  i_crtime :: timespec64
  i_data :: block
  prealloc_block :: u32
  prealloc_len :: u32
  dir_index :: "simplefs_dir_index option"

record kst =
  cache :: "u32 \<Rightarrow> block"
  sbi :: simplefs_sb_info
  s_fs_info :: bool
  s_journal :: "simplefs_journal option"
  s_shutdown :: bool
  inodes :: "u32 \<Rightarrow> simplefs_inode_info"
  trace :: "event list"

text \<open>A call that returns a status, a query with a truth value, and one with a number.\<close>

definition ext :: "env \<Rightarrow> kcall \<Rightarrow> (kst, status) state" where
  "ext E c = State (\<lambda>s. let r = kret E (trace s) c in (r, s\<lparr>trace := (c, r) # trace s\<rparr>))"

definition ask :: "env \<Rightarrow> kcall \<Rightarrow> (kst, bool) state" where
  "ask E c = State (\<lambda>s. (kask E (trace s) c, s\<lparr>trace := (c, None) # trace s\<rparr>))"

definition asknum :: "env \<Rightarrow> kcall \<Rightarrow> (kst, int) state" where
  "asknum E c = State (\<lambda>s. (knum E (trace s) c, s\<lparr>trace := (c, None) # trace s\<rparr>))"

text \<open>A call whose result the sources ignore.\<close>

definition note_call :: "kcall \<Rightarrow> (kst, unit) state" where
  "note_call c = modify (\<lambda>s. s\<lparr>trace := (c, None) # trace s\<rparr>)"

definition upd_sbi :: "(simplefs_sb_info \<Rightarrow> simplefs_sb_info) \<Rightarrow> (kst, unit) state" where
  "upd_sbi f = modify (\<lambda>s. s\<lparr>sbi := f (sbi s)\<rparr>)"

definition set_cache :: "u32 \<Rightarrow> block \<Rightarrow> (kst, unit) state" where
  "set_cache n b = modify (\<lambda>s. s\<lparr>cache := (cache s)(n := b)\<rparr>)"

definition upd_inode :: "u32 \<Rightarrow> (simplefs_inode_info \<Rightarrow> simplefs_inode_info) \<Rightarrow> (kst, unit) state" where
  "upd_inode ino f = modify (\<lambda>s. s\<lparr>inodes := (inodes s)(ino := f (inodes s ino))\<rparr>)"

lemma wp_ext [wp_simps]:
  "wp (ext E c) Q s = Q (kret E (trace s) c) (s\<lparr>trace := (c, kret E (trace s) c) # trace s\<rparr>)"
  by (simp add: ext_def wp_def Let_def)

lemma wp_ask [wp_simps]:
  "wp (ask E c) Q s = Q (kask E (trace s) c) (s\<lparr>trace := (c, None) # trace s\<rparr>)"
  by (simp add: ask_def wp_def)

lemma wp_asknum [wp_simps]:
  "wp (asknum E c) Q s = Q (knum E (trace s) c) (s\<lparr>trace := (c, None) # trace s\<rparr>)"
  by (simp add: asknum_def wp_def)

lemma wp_note_call [wp_simps]: "wp (note_call c) Q s = Q () (s\<lparr>trace := (c, None) # trace s\<rparr>)"
  by (simp add: note_call_def wp_simps)

lemma wp_upd_sbi [wp_simps]: "wp (upd_sbi f) Q s = Q () (s\<lparr>sbi := f (sbi s)\<rparr>)"
  by (simp add: upd_sbi_def wp_simps)

lemma wp_set_cache [wp_simps]: "wp (set_cache n b) Q s = Q () (s\<lparr>cache := (cache s)(n := b)\<rparr>)"
  by (simp add: set_cache_def wp_simps)

lemma wp_upd_inode [wp_simps]:
  "wp (upd_inode ino f) Q s = Q () (s\<lparr>inodes := (inodes s)(ino := f (inodes s ino))\<rparr>)"
  by (simp add: upd_inode_def wp_simps)

section \<open>Layout of the superblock on disk\<close>

definition sb_off_nr_blocks :: nat where "sb_off_nr_blocks = 4"
definition sb_off_nr_inodes :: nat where "sb_off_nr_inodes = 8"
definition sb_off_nr_istore_blocks :: nat where "sb_off_nr_istore_blocks = 12"
definition sb_off_nr_ifree_blocks :: nat where "sb_off_nr_ifree_blocks = 16"
definition sb_off_nr_bfree_blocks :: nat where "sb_off_nr_bfree_blocks = 20"
definition sb_off_nr_free_inodes :: nat where "sb_off_nr_free_inodes = 24"
definition sb_off_nr_free_blocks :: nat where "sb_off_nr_free_blocks = 28"
definition sb_off_s_journal_present :: nat where "sb_off_s_journal_present = 32"
definition sb_off_s_journal_start :: nat where "sb_off_s_journal_start = 36"
definition sb_off_s_journal_mode :: nat where "sb_off_s_journal_mode = 40"
definition sb_off_s_needs_recovery :: nat where "sb_off_s_needs_recovery = 108"

lemmas sb_offsets = sb_off_nr_blocks_def sb_off_nr_inodes_def sb_off_nr_istore_blocks_def
  sb_off_nr_ifree_blocks_def sb_off_nr_bfree_blocks_def sb_off_nr_free_inodes_def
  sb_off_nr_free_blocks_def sb_off_s_journal_present_def sb_off_s_journal_start_def
  sb_off_s_journal_mode_def sb_off_s_needs_recovery_def

text \<open>The first block after the fixed metadata, the block of the root directory's extent root.\<close>

definition root_dir_block :: "simplefs_sb_info \<Rightarrow> u32" where
  "root_dir_block sb = 1 + nr_istore_blocks sb + nr_ifree_blocks sb + nr_bfree_blocks sb"

section \<open>What the journal adapter leaves alone\<close>

text \<open>
  \<open>jframe s s'\<close>: \<open>s'\<close> differs from \<open>s\<close> at most in cached block images, the trace, the
  handle ownership, and a shutdown that may have been latched but never cleared.
\<close>

definition jframe :: "kst \<Rightarrow> kst \<Rightarrow> bool" where
  "jframe s s' \<longleftrightarrow> sbi s' = sbi s \<and> inodes s' = inodes s \<and> s_fs_info s' = s_fs_info s
     \<and> (s_shutdown s \<longrightarrow> s_shutdown s')
     \<and> map_option j_jbd2 (s_journal s') = map_option j_jbd2 (s_journal s)"

lemma jframe_refl [simp]: "jframe s s"
  by (simp add: jframe_def)

lemma jframe_trans: "jframe s t \<Longrightarrow> jframe t u \<Longrightarrow> jframe s u"
  by (simp add: jframe_def)

lemma jframe_trace [simp]:
  "jframe s (t\<lparr>trace := x\<rparr>) = jframe s t" "jframe (s\<lparr>trace := x\<rparr>) t = jframe s t"
  by (simp_all add: jframe_def)

lemma jframe_cache [simp]:
  "jframe s (t\<lparr>cache := x\<rparr>) = jframe s t" "jframe (s\<lparr>cache := x\<rparr>) t = jframe s t"
  by (simp_all add: jframe_def)

interpretation jfr: frame jframe
  by unfold_locales (auto intro: jframe_trans)

lemmas [frame_rules] = jfr.keeps_return jfr.keeps_gets jfr.keeps_bind jfr.keeps_when jfr.keeps_then

lemma ext_jframe [frame_rules]: "keeps jframe (ext E c)"
  by (simp add: keeps_def ext_def Let_def)

lemma ask_jframe [frame_rules]: "keeps jframe (ask E c)"
  by (simp add: keeps_def ask_def)

lemma asknum_jframe [frame_rules]: "keeps jframe (asknum E c)"
  by (simp add: keeps_def asknum_def)

lemma note_call_jframe [frame_rules]: "keeps jframe (note_call c)"
  by (simp add: keeps_def note_call_def)

lemma set_cache_jframe [frame_rules]: "keeps jframe (set_cache n b)"
  by (simp add: keeps_def set_cache_def)

section \<open>A concrete environment and state\<close>

text \<open>
  An environment in which every call succeeds, every query answers no and JBD2 has credits, and a
  small mounted file system with and without a journal. The witnesses of the properties run on them.
\<close>

definition env_ok :: env where
  "env_ok = \<lparr>kret = \<lambda>_ _. None, kask = \<lambda>_ _. False, knum = \<lambda>_ _. 1, kreplay = \<lambda>_ c. c\<rparr>"

definition sbi0 :: simplefs_sb_info where
  "sbi0 = \<lparr>nr_blocks = 40, nr_inodes = 39, nr_istore_blocks = 1, nr_ifree_blocks = 1,
     nr_bfree_blocks = 1, nr_free_inodes = 38, nr_free_blocks = 35, s_journal_present = 0,
     s_journal_start = 0, s_journal_mode = 0, s_needs_recovery = 0,
     ifree_bitmap = (\<lambda>i. i \<noteq> 0), bfree_bitmap = (\<lambda>i. 5 \<le> i),
     discard_pending = None, s_discard = False\<rparr>"

definition time0 :: timespec64 where
  "time0 = \<lparr>tv_sec = 0, tv_nsec = 0\<rparr>"

definition inode0 :: simplefs_inode_info where
  "inode0 = \<lparr>i_mode = 0, i_uid = 0, i_gid = 0, i_size = 0, i_ctime = time0, i_atime = time0,
     i_mtime = time0, i_blocks = 0, i_nlink = 1, i_generation = 0, i_rdev = 0, i_vfs_flags = 0,
     i_link = False, ei_block = 0, i_xattr_block = 0, i_flags = 0, i_crtime = time0,
     i_data = zero_block, prealloc_block = 0, prealloc_len = 0, dir_index = None\<rparr>"

definition kst0 :: kst where
  "kst0 = \<lparr>cache = \<lambda>_. zero_block, sbi = sbi0, s_fs_info = True, s_journal = None,
     s_shutdown = False, inodes = \<lambda>_. inode0, trace = []\<rparr>"

definition kst1 :: kst where
  "kst1 = kst0\<lparr>s_journal := Some \<lparr>j_jbd2 = True, j_handle_owner = False, j_active_handle = False\<rparr>\<rparr>"

lemmas demo_simps = env_ok_def time0_def sbi0_def inode0_def kst0_def kst1_def

end
