(* ===== verification/SFS_Journal.thy ===== *)
theory SFS_Journal
  imports SFS_State
begin

text \<open>
  The JBD2 adapter, \<open>simplefs_journal.c\<close>: starting, nesting and stopping handles, journalled
  writes of metadata blocks, revokes, the recovery marker and the shutdown latch.

  A \<open>struct simplefs_handle *\<close> is \<open>Inl e\<close> for \<open>ERR_PTR(-e)\<close>, \<open>Inr False\<close> for
  \<open>NULL\<close> (no journal, or the caller joins a handle it already has) and \<open>Inr True\<close> for a
  handle of its own. A folio argument is the block it was looked up for. The allocation check of
  \<open>simplefs_journal_prepare_new_blocks\<close> is modelled in its form for kernels from 6.16 on.
\<close>

section \<open>Shutdown\<close>

definition simplefs_journal_mark_shutdown :: "simplefs_journal option \<Rightarrow> (kst, unit) state" where
  "simplefs_journal_mark_shutdown journal =
     when_true (journal \<noteq> None) (modify (\<lambda>s. s\<lparr>s_shutdown := True\<rparr>))"

definition has_jbd2 :: "simplefs_journal option \<Rightarrow> bool" where
  "has_jbd2 journal = (case journal of None \<Rightarrow> False | Some j \<Rightarrow> j_jbd2 j)"

definition simplefs_journal_fail :: "errno \<Rightarrow> (kst, unit) state" where
  "simplefs_journal_fail err = do {
     modify (\<lambda>s. s\<lparr>s_shutdown := True\<rparr>);
     note_call (Mapping_set_error err);
     j \<leftarrow> gets s_journal;
     when_true (has_jbd2 j) (note_call (Jbd2_journal_abort err))
   }"

definition simplefs_journal_shutdown :: "env \<Rightarrow> simplefs_journal option \<Rightarrow> (kst, unit) state" where
  "simplefs_journal_shutdown E journal =
     (if \<not> has_jbd2 journal then ret ()
      else do {
        aborted \<leftarrow> ask E Is_journal_aborted;
        when_true (\<not> aborted) (note_call (Jbd2_journal_abort ESHUTDOWN))
      })"

section \<open>Loading and destroying the journal\<close>

text \<open>The translation JBD2 applies to a logical log block; \<open>sector_t\<close> is 64 bits wide.\<close>

definition simplefs_journal_bmap :: "simplefs_sb_info option \<Rightarrow> u64 \<Rightarrow> u64 \<Rightarrow> errno + u64" where
  "simplefs_journal_bmap sb j_total_len blk =
     (case sb of
        None \<Rightarrow> Inl EIO
      | Some sbi' \<Rightarrow>
          if blk \<ge> j_total_len then Inl EFSCORRUPTED
          else Inr (blk + ucast (s_journal_start sbi')))"

definition simplefs_journal_free :: "simplefs_journal option \<Rightarrow> (kst, unit) state" where
  "simplefs_journal_free journal = when_true (has_jbd2 journal) (note_call Jbd2_journal_destroy)"

definition simplefs_journal_set_needs_recovery :: "env \<Rightarrow> bool \<Rightarrow> (kst, status) state" where
  "simplefs_journal_set_needs_recovery E dirty = do {
     sb \<leftarrow> gets sbi;
     if s_needs_recovery sb = of_bool dirty then ret None
     else do {
       ro \<leftarrow> ask E Bdev_read_only;
       if ro then ret (Some EROFS)
       else do {
         bh \<leftarrow> ext E (Sb_bread 0);
         if bh \<noteq> None then ret (Some EIO)
         else do {
           disk \<leftarrow> gets (\<lambda>s. cache s 0);
           set_cache 0 (put32 (of_bool dirty) disk sb_off_s_needs_recovery);
           up \<leftarrow> ext E (Sync_dirty_buffer 0);
           r \<leftarrow> ret (if up \<noteq> None then Some EIO else None);
           r \<leftarrow> then_if_ok r (ext E Blkdev_issue_flush);
           when_true (r = None) (upd_sbi (\<lambda>sb. sb\<lparr>s_needs_recovery := of_bool dirty\<rparr>));
           ret r
         }
       }
     }
   }"

definition set_s_journal :: "simplefs_journal option \<Rightarrow> (kst, unit) state" where
  "set_s_journal j = modify (\<lambda>s. s\<lparr>s_journal := j\<rparr>)"

definition simplefs_journal_load :: "env \<Rightarrow> (kst, status) state" where
  "simplefs_journal_load E = do {
     sb \<leftarrow> gets sbi;
     if s_journal_mode sb = 1 \<or> s_journal_present sb = 0
     then do { set_s_journal None; ret None }
     else do {
       nomem \<leftarrow> ext E Kmalloc;
       if nomem \<noteq> None then ret (Some ENOMEM)
       else do {
         let idle = \<lparr>j_jbd2 = False, j_handle_owner = False, j_active_handle = False\<rparr>;
         let live = idle\<lparr>j_jbd2 := True\<rparr>;
         r \<leftarrow> ext E (Jbd2_journal_init_dev (s_journal_start sb) (nr_blocks sb - s_journal_start sb));
         (case r of
            Some e \<Rightarrow> do { simplefs_journal_free (Some idle); ret (Some e) }
          | None \<Rightarrow>
              if s_journal_mode sb = 2
              then do { note_call Jbd2_journal_destroy; set_s_journal (Some idle); ret None }
              else do {
                ro \<leftarrow> ask E Bdev_read_only;
                if ro then
                  if s_needs_recovery sb \<noteq> 0
                  then do { simplefs_journal_free (Some live); ret (Some EROFS) }
                  else do { note_call Jbd2_journal_destroy; set_s_journal (Some idle); ret None }
                else do {
                  r \<leftarrow> ext E Jbd2_journal_load;
                  modify (\<lambda>s. s\<lparr>cache := kreplay E (trace s) (cache s)\<rparr>);
                  (case r of
                     Some e \<Rightarrow> do { simplefs_journal_free (Some live); ret (Some e) }
                   | None \<Rightarrow> do {
                       set_s_journal (Some live);
                       rdonly \<leftarrow> ask E Sb_rdonly;
                       r \<leftarrow> (if \<not> rdonly then simplefs_journal_set_needs_recovery E True
                            else if s_needs_recovery sb \<noteq> 0
                            then simplefs_journal_set_needs_recovery E False
                            else ret None);
                       if r \<noteq> None
                       then do { set_s_journal None; simplefs_journal_free (Some live); ret r }
                       else ret None
                     })
                }
              })
       }
     }
   }"

definition simplefs_journal_destroy :: "(kst, unit) state" where
  "simplefs_journal_destroy = do {
     j \<leftarrow> gets s_journal;
     simplefs_journal_free j;
     set_s_journal None
   }"

section \<open>Handles\<close>

text \<open>
  The shutdown flag is tested a second time after \<open>j_handle_mutex\<close> has been taken; with one
  operation at a time the two tests read the same value and are one test here.
\<close>

definition simplefs_current_jbd2_handle ::
    "env \<Rightarrow> simplefs_journal option \<Rightarrow> (kst, bool) state" where
  "simplefs_current_jbd2_handle E journal =
     (case journal of
        None \<Rightarrow> ret False
      | Some j \<Rightarrow>
          if \<not> j_jbd2 j then ret False
          else do {
            h \<leftarrow> ask E Journal_current_handle;
            ret (h \<or> (j_handle_owner j \<and> j_active_handle j))
          })"

definition set_handle :: "bool \<Rightarrow> (kst, unit) state" where
  "set_handle b = modify (\<lambda>s. s\<lparr>s_journal :=
     map_option (\<lambda>j. j\<lparr>j_handle_owner := b, j_active_handle := b\<rparr>) (s_journal s)\<rparr>)"

definition simplefs_journal_start_internal :: "env \<Rightarrow> int \<Rightarrow> (kst, errno + bool) state" where
  "simplefs_journal_start_internal E blocks = do {
     shutdown \<leftarrow> gets s_shutdown;
     journal \<leftarrow> gets s_journal;
     if shutdown then ret (Inl EIO)
     else (case journal of
       None \<Rightarrow> ret (Inr False)
     | Some j \<Rightarrow>
         if \<not> j_jbd2 j then ret (Inr False)
         else if j_handle_owner j then ret (Inr False)
         else do {
           nomem \<leftarrow> ext E Kmalloc;
           if nomem \<noteq> None then ret (Inl ENOMEM)
           else do {
             r \<leftarrow> ext E (Jbd2_journal_start (max blocks 64));
             (case r of
                Some e \<Rightarrow> do {
                  aborted \<leftarrow> ask E Is_journal_aborted;
                  when_true aborted (simplefs_journal_mark_shutdown journal);
                  ret (Inl e)
                }
              | None \<Rightarrow> do { set_handle True; ret (Inr True) })
           }
         })
   }"

definition simplefs_journal_start :: "env \<Rightarrow> int \<Rightarrow> (kst, errno + bool) state" where
  "simplefs_journal_start E blocks = simplefs_journal_start_internal E blocks"

definition simplefs_journal_start_sb :: "env \<Rightarrow> int \<Rightarrow> (kst, errno + bool) state" where
  "simplefs_journal_start_sb E blocks = do {
     shutdown \<leftarrow> gets s_shutdown;
     journal \<leftarrow> gets s_journal;
     if shutdown then ret (Inl EIO)
     else if \<not> has_jbd2 journal then ret (Inr False)
     else do {
       h \<leftarrow> simplefs_current_jbd2_handle E journal;
       if h then ret (Inr False) else simplefs_journal_start_internal E blocks
     }
   }"

definition simplefs_journal_stop :: "env \<Rightarrow> bool \<Rightarrow> (kst, status) state" where
  "simplefs_journal_stop E handle =
     (if \<not> handle then ret None
      else do {
        journal \<leftarrow> gets s_journal;
        r \<leftarrow> ext E Jbd2_journal_stop;
        when_true (r \<noteq> None) (do {
          aborted \<leftarrow> ask E Is_journal_aborted;
          when_true aborted (simplefs_journal_mark_shutdown journal)
        });
        set_handle False;
        ret r
      })"

section \<open>Journalled writes\<close>

text \<open>
  The image that becomes part of the transaction: a folio of the device's own mapping, whose bytes
  are already the cached block, or a separate buffer that is copied over it.
\<close>

datatype source = Folio u32 | Data block

definition simplefs_jbd2_dirty :: "env \<Rightarrow> u32 \<Rightarrow> source \<Rightarrow> (kst, status) state" where
  "simplefs_jbd2_dirty E block_nr src = do {
     covers \<leftarrow> (case src of
        Data _ \<Rightarrow> ret True
      | Folio f \<Rightarrow> if f = block_nr then ret True else ask E (Folio_covers f block_nr));
     if \<not> covers then ret (Some EFSCORRUPTED)
     else do {
       bh \<leftarrow> ext E (Sb_getblk block_nr);
       if bh \<noteq> None then ret (Some ENOMEM)
       else do {
         r \<leftarrow> ext E (Jbd2_get_write_access block_nr);
         if r \<noteq> None then do {
           aborted \<leftarrow> ask E Is_journal_aborted;
           journal \<leftarrow> gets s_journal;
           when_true aborted (simplefs_journal_mark_shutdown journal);
           ret r
         } else do {
           (case src of Folio _ \<Rightarrow> ret () | Data d \<Rightarrow> set_cache block_nr d);
           ext E (Jbd2_dirty_metadata block_nr)
         }
       }
     }
   }"

definition simplefs_journal_dirty_metadata ::
    "env \<Rightarrow> bool \<Rightarrow> u32 \<Rightarrow> source \<Rightarrow> (kst, status) state" where
  "simplefs_journal_dirty_metadata E handle block_nr src =
     (if \<not> handle then ret None else simplefs_jbd2_dirty E block_nr src)"

definition simplefs_journal_prepare_current :: "env \<Rightarrow> u32 \<Rightarrow> (kst, status) state" where
  "simplefs_journal_prepare_current E block_nr = do {
     info \<leftarrow> gets s_fs_info;
     journal \<leftarrow> gets s_journal;
     if \<not> info then ret None
     else do {
       h \<leftarrow> simplefs_current_jbd2_handle E journal;
       if \<not> h then ret None
       else do {
         bh \<leftarrow> ext E (Sb_getblk block_nr);
         if bh \<noteq> None then ret (Some ENOMEM) else ext E (Jbd2_get_write_access block_nr)
       }
     }
   }"

definition simplefs_journal_zero_current :: "env \<Rightarrow> u32 \<Rightarrow> (kst, status) state" where
  "simplefs_journal_zero_current E block_nr = do {
     journal \<leftarrow> gets s_journal;
     h \<leftarrow> simplefs_current_jbd2_handle E journal;
     if \<not> h then ret None
     else do {
       bh \<leftarrow> ext E (Sb_getblk block_nr);
       if bh \<noteq> None then ret (Some ENOMEM)
       else do {
         r \<leftarrow> ext E (Jbd2_get_write_access block_nr);
         when_true (r = None) (set_cache block_nr zero_block);
         ret r
       }
     }
   }"

text \<open>The loop over the \<open>len\<close> candidate blocks: the first one still in use by JBD2 stops it.\<close>

fun prepare_new_blocks_loop :: "env \<Rightarrow> u32 \<Rightarrow> nat \<Rightarrow> (kst, status) state" where
  "prepare_new_blocks_loop E b 0 = ret None"
| "prepare_new_blocks_loop E b (Suc k) = do {
     found \<leftarrow> ask E (Sb_find_get_block b);
     if \<not> found then prepare_new_blocks_loop E (b + 1) k
     else do {
       owned \<leftarrow> ask E (Buffer_transaction_owned b);
       revoked \<leftarrow> ask E (Buffer_revoked b);
       if revoked \<or> owned then ret (Some EAGAIN)
       else prepare_new_blocks_loop E (b + 1) k
     }
   }"

definition simplefs_journal_prepare_new_blocks ::
    "env \<Rightarrow> u32 \<Rightarrow> u32 \<Rightarrow> (kst, status) state" where
  "simplefs_journal_prepare_new_blocks E block_nr len = do {
     info \<leftarrow> gets s_fs_info;
     journal \<leftarrow> gets s_journal;
     if \<not> info \<or> journal = None then ret None
     else do {
       h \<leftarrow> simplefs_current_jbd2_handle E journal;
       if \<not> h then ret None else prepare_new_blocks_loop E block_nr (unat len)
     }
   }"

definition simplefs_journal_has_current_handle :: "env \<Rightarrow> (kst, bool) state" where
  "simplefs_journal_has_current_handle E = do {
     journal \<leftarrow> gets s_journal;
     simplefs_current_jbd2_handle E journal
   }"

definition simplefs_journal_dirty_current :: "env \<Rightarrow> u32 \<Rightarrow> block \<Rightarrow> (kst, status) state" where
  "simplefs_journal_dirty_current E block_nr data = do {
     journal \<leftarrow> gets s_journal;
     h \<leftarrow> simplefs_current_jbd2_handle E journal;
     if \<not> h then ret (if has_jbd2 journal then Some EUCLEAN else None)
     else simplefs_jbd2_dirty E block_nr (Data data)
   }"

definition simplefs_journal_dirty_folio :: "env \<Rightarrow> u32 \<Rightarrow> u32 \<Rightarrow> (kst, status) state" where
  "simplefs_journal_dirty_folio E block_nr folio = do {
     journal \<leftarrow> gets s_journal;
     h \<leftarrow> simplefs_current_jbd2_handle E journal;
     if h then simplefs_jbd2_dirty E block_nr (Folio folio)
     else if \<not> has_jbd2 journal then do { note_call (Folio_mark_dirty folio); ret None }
     else ret (Some EUCLEAN)
   }"

definition simplefs_journal_forget_current :: "env \<Rightarrow> u32 \<Rightarrow> (kst, status) state" where
  "simplefs_journal_forget_current E block_nr = do {
     journal \<leftarrow> gets s_journal;
     h \<leftarrow> simplefs_current_jbd2_handle E journal;
     if \<not> h then ret (Some EAGAIN)
     else do {
       credits \<leftarrow> asknum E Jbd2_revoke_credits;
       if credits \<le> 0 then ret (Some ENOSPC)
       else do {
         bh \<leftarrow> ext E (Sb_getblk block_nr);
         if bh \<noteq> None then ret (Some ENOMEM) else ext E (Jbd2_revoke block_nr)
       }
     }
   }"

definition simplefs_journal_checkpoint :: "env \<Rightarrow> simplefs_journal option \<Rightarrow> (kst, status) state" where
  "simplefs_journal_checkpoint E journal =
     (if \<not> has_jbd2 journal then ret None else ext E Jbd2_flush)"

section \<open>Frames of the adapter\<close>

lemma mark_shutdown_jframe [frame_rules]: "keeps jframe (simplefs_journal_mark_shutdown j)"
  by (auto simp: simplefs_journal_mark_shutdown_def jframe_def intro!: frame_rules)

lemma set_handle_jframe [frame_rules]: "keeps jframe (set_handle b)"
  by (auto simp: set_handle_def jframe_def option.map_comp comp_def intro!: frame_rules)

lemma current_handle_jframe [frame_rules]: "keeps jframe (simplefs_current_jbd2_handle E j)"
  unfolding simplefs_current_jbd2_handle_def by (intro frame_rules)

lemma start_internal_jframe [frame_rules]: "keeps jframe (simplefs_journal_start_internal E n)"
  unfolding simplefs_journal_start_internal_def by (intro frame_rules)

lemma start_jframe [frame_rules]: "keeps jframe (simplefs_journal_start E n)"
  unfolding simplefs_journal_start_def by (intro frame_rules)

lemma start_sb_jframe [frame_rules]: "keeps jframe (simplefs_journal_start_sb E n)"
  unfolding simplefs_journal_start_sb_def by (intro frame_rules)

lemma stop_jframe [frame_rules]: "keeps jframe (simplefs_journal_stop E h)"
  unfolding simplefs_journal_stop_def by (intro frame_rules)

lemma jbd2_dirty_jframe [frame_rules]: "keeps jframe (simplefs_jbd2_dirty E n src)"
  unfolding simplefs_jbd2_dirty_def by (cases src; simp only: source.case; intro frame_rules)

lemma dirty_metadata_jframe [frame_rules]: "keeps jframe (simplefs_journal_dirty_metadata E h n src)"
  unfolding simplefs_journal_dirty_metadata_def by (intro frame_rules)

lemma prepare_current_jframe [frame_rules]: "keeps jframe (simplefs_journal_prepare_current E n)"
  unfolding simplefs_journal_prepare_current_def by (intro frame_rules)

lemma zero_current_jframe [frame_rules]: "keeps jframe (simplefs_journal_zero_current E n)"
  unfolding simplefs_journal_zero_current_def by (intro frame_rules)

lemma prepare_new_loop_jframe [frame_rules]: "keeps jframe (prepare_new_blocks_loop E b k)"
proof (induction k arbitrary: b)
  case (Suc k)
  show ?case unfolding prepare_new_blocks_loop.simps by (intro frame_rules Suc)
qed (simp, intro frame_rules)

lemma prepare_new_jframe [frame_rules]: "keeps jframe (simplefs_journal_prepare_new_blocks E b l)"
  unfolding simplefs_journal_prepare_new_blocks_def by (intro frame_rules)

lemma has_current_jframe [frame_rules]: "keeps jframe (simplefs_journal_has_current_handle E)"
  unfolding simplefs_journal_has_current_handle_def by (intro frame_rules)

lemma dirty_current_jframe [frame_rules]: "keeps jframe (simplefs_journal_dirty_current E n d)"
  unfolding simplefs_journal_dirty_current_def by (intro frame_rules)

lemma dirty_folio_jframe [frame_rules]: "keeps jframe (simplefs_journal_dirty_folio E n f)"
  unfolding simplefs_journal_dirty_folio_def by (intro frame_rules)

lemma forget_current_jframe [frame_rules]: "keeps jframe (simplefs_journal_forget_current E n)"
  unfolding simplefs_journal_forget_current_def by (intro frame_rules)

lemma checkpoint_jframe [frame_rules]: "keeps jframe (simplefs_journal_checkpoint E j)"
  unfolding simplefs_journal_checkpoint_def by (intro frame_rules)

text \<open>
  \<open>wal s s'\<close>: between \<open>s\<close> and \<open>s'\<close> the trace only grew, and the cached image of a
  block changed only if in that time JBD2 had granted write access to it. \<open>leaf s s'\<close>: also the
  journal and handle ownership are as before.
\<close>

definition wal :: "kst \<Rightarrow> kst \<Rightarrow> bool" where
  "wal s s' \<longleftrightarrow> (\<exists>tr. trace s' = tr @ trace s \<and>
     (\<forall>b. cache s' b \<noteq> cache s b \<longrightarrow> (Jbd2_get_write_access b, None) \<in> set tr))"

definition leaf :: "kst \<Rightarrow> kst \<Rightarrow> bool" where
  "leaf s s' \<longleftrightarrow> wal s s' \<and> s_journal s' = s_journal s"

lemma wal_refl: "wal s s"
  by (simp add: wal_def)

lemma wal_trans:
  assumes "wal s t" "wal t u"
  shows "wal s u"
proof -
  obtain x y where x: "trace t = x @ trace s"
      "\<And>b. cache t b \<noteq> cache s b \<Longrightarrow> (Jbd2_get_write_access b, None) \<in> set x"
    and y: "trace u = y @ trace t"
      "\<And>b. cache u b \<noteq> cache t b \<Longrightarrow> (Jbd2_get_write_access b, None) \<in> set y"
    using assms unfolding wal_def by blast
  have "trace u = (y @ x) @ trace s" using x y by simp
  moreover have "(Jbd2_get_write_access b, None) \<in> set (y @ x)" if "cache u b \<noteq> cache s b" for b
    using x(2) [of b] y(2) [of b] that by fastforce
  ultimately show ?thesis unfolding wal_def by blast
qed

interpretation lfr: frame leaf
  by unfold_locales (auto simp: leaf_def wal_refl intro: wal_trans)

lemmas [frame_rules] = lfr.keeps_return lfr.keeps_gets lfr.keeps_bind lfr.keeps_when lfr.keeps_then

lemma ext_leaf [frame_rules]: "keeps leaf (ext E c)"
  by (auto simp: keeps_def ext_def Let_def leaf_def wal_def)

lemma ask_leaf [frame_rules]: "keeps leaf (ask E c)"
  by (auto simp: keeps_def ask_def leaf_def wal_def)

lemma asknum_leaf [frame_rules]: "keeps leaf (asknum E c)"
  by (auto simp: keeps_def asknum_def leaf_def wal_def)

lemma note_call_leaf [frame_rules]: "keeps leaf (note_call c)"
  by (auto simp: keeps_def note_call_def leaf_def wal_def)

lemma mark_shutdown_leaf [frame_rules]: "keeps leaf (simplefs_journal_mark_shutdown j)"
  by (auto simp: simplefs_journal_mark_shutdown_def leaf_def wal_def intro!: frame_rules)

lemma current_handle_leaf [frame_rules]: "keeps leaf (simplefs_current_jbd2_handle E j)"
  unfolding simplefs_current_jbd2_handle_def by (intro frame_rules)

text \<open>A write to the cache that follows a granted access.\<close>

lemma access_then_write_leaf:
  "keeps leaf (do { r \<leftarrow> ext E (Jbd2_get_write_access n);
     if r \<noteq> None then m r else do { set_cache n d; k } })"
  if "\<And>r. keeps leaf (m r)" "keeps leaf k"
proof -
  have wr: "leaf s (s\<lparr>trace := (Jbd2_get_write_access n, None) # trace s,
      cache := (cache s)(n := d)\<rparr>)" for s
    by (auto simp: leaf_def wal_def)
  have grow: "leaf s (s\<lparr>trace := e # trace s\<rparr>)" for s e
    by (auto simp: leaf_def wal_def)
  show ?thesis unfolding keeps_wp
    using that by (auto simp: wp_simps keeps_wp intro: wp_mono lfr.trans [OF wr] lfr.trans [OF grow])
qed

lemma jbd2_dirty_leaf [frame_rules]: "keeps leaf (simplefs_jbd2_dirty E n src)"
  unfolding simplefs_jbd2_dirty_def
  by (cases src; simp only: source.case) (intro frame_rules access_then_write_leaf)+

lemma dirty_metadata_leaf [frame_rules]: "keeps leaf (simplefs_journal_dirty_metadata E h n src)"
  unfolding simplefs_journal_dirty_metadata_def by (intro frame_rules)

lemma prepare_current_leaf [frame_rules]: "keeps leaf (simplefs_journal_prepare_current E n)"
  unfolding simplefs_journal_prepare_current_def by (intro frame_rules)

lemma zero_access_leaf: "keeps leaf (do { r \<leftarrow> ext E (Jbd2_get_write_access n);
     when_true (r = None) (set_cache n d); ret r })"
  by (auto simp: keeps_wp wp_simps leaf_def wal_def)

lemma zero_current_leaf [frame_rules]: "keeps leaf (simplefs_journal_zero_current E n)"
  unfolding simplefs_journal_zero_current_def
  by (intro zero_access_leaf frame_rules)

lemma prepare_new_loop_leaf [frame_rules]: "keeps leaf (prepare_new_blocks_loop E b k)"
proof (induction k arbitrary: b)
  case (Suc k)
  show ?case unfolding prepare_new_blocks_loop.simps by (intro frame_rules Suc)
qed (simp, intro frame_rules)

lemma prepare_new_leaf [frame_rules]: "keeps leaf (simplefs_journal_prepare_new_blocks E b l)"
  unfolding simplefs_journal_prepare_new_blocks_def by (intro frame_rules)

lemma has_current_leaf [frame_rules]: "keeps leaf (simplefs_journal_has_current_handle E)"
  unfolding simplefs_journal_has_current_handle_def by (intro frame_rules)

lemma dirty_current_leaf [frame_rules]: "keeps leaf (simplefs_journal_dirty_current E n d)"
  unfolding simplefs_journal_dirty_current_def by (intro frame_rules)

lemma dirty_folio_leaf [frame_rules]: "keeps leaf (simplefs_journal_dirty_folio E n f)"
  unfolding simplefs_journal_dirty_folio_def by (intro frame_rules)

lemma forget_current_leaf [frame_rules]: "keeps leaf (simplefs_journal_forget_current E n)"
  unfolding simplefs_journal_forget_current_def by (intro frame_rules)

lemma journal_fail_leaf [frame_rules]: "keeps leaf (simplefs_journal_fail e)"
  by (auto simp: simplefs_journal_fail_def leaf_def wal_def intro!: frame_rules)

section \<open>What starting, stopping and journalled writes do\<close>

lemma current_handle_spec:
  "wp (simplefs_current_jbd2_handle E j)
     (\<lambda>h s'. cache s' = cache s \<and> s_journal s' = s_journal s \<and> s_shutdown s' = s_shutdown s
       \<and> (h \<longrightarrow> has_jbd2 j)) s"
  by (auto simp: simplefs_current_jbd2_handle_def wp_simps has_jbd2_def split: option.split)

lemma start_internal_spec:
  "wp (simplefs_journal_start_internal E n) (\<lambda>r s'. cache s' = cache s \<and>
     (case r of
        Inl e \<Rightarrow> s_journal s' = s_journal s
      | Inr h \<Rightarrow> \<not> s_shutdown s \<and> s_shutdown s' = s_shutdown s \<and>
          (if h then \<exists>j. s_journal s = Some j \<and> j_jbd2 j \<and> \<not> j_handle_owner j \<and>
                  s_journal s' = Some (j\<lparr>j_handle_owner := True, j_active_handle := True\<rparr>)
           else s' = s \<and> (has_jbd2 (s_journal s) \<longrightarrow> (\<exists>j. s_journal s = Some j \<and> j_handle_owner j))))) s"
  by (auto simp: simplefs_journal_start_internal_def simplefs_journal_mark_shutdown_def set_handle_def
      has_jbd2_def wp_simps split: option.split)

lemma start_sb_spec:
  "wp (simplefs_journal_start_sb E n) (\<lambda>r s'. cache s' = cache s \<and>
     (case r of
        Inl e \<Rightarrow> s_journal s' = s_journal s
      | Inr h \<Rightarrow> \<not> s_shutdown s \<and> s_shutdown s' = s_shutdown s \<and>
          (if h then \<exists>j. s_journal s = Some j \<and> j_jbd2 j \<and> \<not> j_handle_owner j \<and>
                  s_journal s' = Some (j\<lparr>j_handle_owner := True, j_active_handle := True\<rparr>)
           else s_journal s' = s_journal s))) s"
  unfolding simplefs_journal_start_sb_def simplefs_current_jbd2_handle_def has_jbd2_def
  apply (simp add: wp_simps split: option.split)
  apply (intro conjI impI allI)
  apply (rule wp_mono [OF start_internal_spec])
  apply (auto split: sum.splits if_splits)
  done

lemma stop_spec:
  "wp (simplefs_journal_stop E h) (\<lambda>r s'. cache s' = cache s \<and>
     s_journal s' = (if h then map_option (\<lambda>j. j\<lparr>j_handle_owner := False, j_active_handle := False\<rparr>)
                       (s_journal s) else s_journal s)) s"
  by (auto simp: simplefs_journal_stop_def simplefs_journal_mark_shutdown_def set_handle_def wp_simps)

text \<open>The adapter is at rest when the owner and the active handle are set or cleared together.\<close>

definition handle_ok :: "kst \<Rightarrow> bool" where
  "handle_ok s = (case s_journal s of None \<Rightarrow> True | Some j \<Rightarrow> j_handle_owner j = j_active_handle j)"

lemma stop_restores:
  assumes "handle_ok s" "run_state (simplefs_journal_start_sb E n) s = (Inr h, s1)"
    and "s_journal s2 = s_journal s1" "run_state (simplefs_journal_stop E h) s2 = (r, s3)"
  shows "s_journal s3 = s_journal s"
  using wp_run [OF start_sb_spec assms(2)] wp_run [OF stop_spec assms(4)] assms(1,3)
  by (auto simp: handle_ok_def split: if_splits option.splits)

lemma jbd2_dirty_spec:
  "wp (simplefs_jbd2_dirty E n (Data d))
     (\<lambda>r s'. cache s' = (cache s)(n := d) \<or> (r \<noteq> None \<and> cache s' = cache s)) s"
  by (auto simp: simplefs_jbd2_dirty_def simplefs_journal_mark_shutdown_def wp_simps)

lemma jbd2_dirty_folio_spec: "wp (simplefs_jbd2_dirty E n (Folio f)) (\<lambda>r s'. cache s' = cache s) s"
  by (auto simp: simplefs_jbd2_dirty_def simplefs_journal_mark_shutdown_def wp_simps)

lemma dirty_current_spec:
  "wp (simplefs_journal_dirty_current E n d) (\<lambda>r s'.
     (if has_jbd2 (s_journal s) then cache s' = (cache s)(n := d) \<or> (r \<noteq> None \<and> cache s' = cache s)
      else r = None \<and> cache s' = cache s)) s"
  unfolding simplefs_journal_dirty_current_def simplefs_current_jbd2_handle_def has_jbd2_def
  apply (simp add: wp_simps split: option.split)
  apply (intro conjI impI allI)
  apply (auto intro: wp_mono [OF jbd2_dirty_spec])
  done

lemma dirty_folio_spec:
  "wp (simplefs_journal_dirty_folio E n f) (\<lambda>r s'. cache s' = cache s) s"
  unfolding simplefs_journal_dirty_folio_def simplefs_current_jbd2_handle_def has_jbd2_def
  by (auto simp: wp_simps intro: wp_mono [OF jbd2_dirty_folio_spec] split: option.split)

section \<open>Properties of the adapter\<close>

lemma start_nested:
  "wp (simplefs_journal_start_sb E n)
     (\<lambda>r s1. r = Inr True \<longrightarrow> run_state (simplefs_journal_start E k) s1 = (Inr False, s1)) s"
  by (rule wp_mono [OF start_sb_spec])
    (auto simp: simplefs_journal_start_def simplefs_journal_start_internal_def gets_def)



lemma shutdown_start:
  assumes "s_shutdown s"
  shows "run_state (simplefs_journal_start_sb E n) s = (Inl EIO, s)"
    "run_state (simplefs_journal_start E n) s = (Inl EIO, s)"
  using assms by (simp_all add: simplefs_journal_start_sb_def simplefs_journal_start_def
      simplefs_journal_start_internal_def gets_def)






lemma set_needs_recovery_spec:
  "wp (simplefs_journal_set_needs_recovery E dirty) (\<lambda>r s'. s_journal s' = s_journal s \<and>
     (r = None \<longrightarrow> s_needs_recovery (sbi s') = of_bool dirty \<and>
        (s_needs_recovery (sbi s) \<noteq> of_bool dirty \<longrightarrow>
           get32 (cache s' 0) sb_off_s_needs_recovery = of_bool dirty))) s"
  by (auto simp: simplefs_journal_set_needs_recovery_def wp_simps get32_put32 split: option.split)

lemma load_norecovery:
  "s_journal_mode (sbi s) \<in> {1, 2} \<Longrightarrow> s_journal s = None \<Longrightarrow>
   wp (simplefs_journal_load E) (\<lambda>r s'. cache s' = cache s \<and> \<not> has_jbd2 (s_journal s')
     \<and> count_list (trace s') (Jbd2_journal_load, x) = count_list (trace s) (Jbd2_journal_load, x)) s"
  by (auto simp: simplefs_journal_load_def simplefs_journal_free_def set_s_journal_def wp_simps
      Let_def has_jbd2_def split: option.split)

lemma load_dirty_marker:
  assumes "\<And>tr. \<not> kask E tr Sb_rdonly" "s_journal s = None"
  shows "wp (simplefs_journal_load E) (\<lambda>r s'. 
     (r = None \<longrightarrow> has_jbd2 (s_journal s') \<longrightarrow> s_needs_recovery (sbi s') = 1 \<and>
        (s_needs_recovery (sbi s) \<noteq> 1 \<longrightarrow> get32 (cache s' 0) sb_off_s_needs_recovery = 1))) s"
  using assms unfolding simplefs_journal_load_def simplefs_journal_free_def set_s_journal_def
  apply (auto simp: wp_simps Let_def has_jbd2_def split: option.splits)
  subgoal by (rule wp_mono [OF set_needs_recovery_spec]) (auto simp: wp_simps split: option.splits)
  subgoal by (rule wp_mono [OF set_needs_recovery_spec]) (auto simp: wp_simps split: option.splits)
  done

lemma load_write_protected:
  assumes "\<And>tr. kask E tr Bdev_read_only" "s_journal s = None" "s_needs_recovery (sbi s) \<noteq> 0"
    "s_journal_present (sbi s) \<noteq> 0" "s_journal_mode (sbi s) = 0"
  shows "wp (simplefs_journal_load E) (\<lambda>r s'. r \<noteq> None \<and> s_journal s' = None \<and> cache s' = cache s) s"
  using assms unfolding simplefs_journal_load_def simplefs_journal_free_def set_s_journal_def
  by (auto simp: wp_simps Let_def has_jbd2_def split: option.splits)

text \<open>
  C20. The recovery marker: a mount that comes up writable with a live journal has the marker set in
  memory and, if it was not set before, in the superblock on disk; a mount in a mode that must not
  touch the log (\<open>nojournal\<close>, \<open>norecovery\<close>) changes no block and never loads the journal;
  a write-protected device whose journal is dirty is refused without changing a block.
\<close>
theorem journal_load_marker:
  assumes "run_state (simplefs_journal_load E) s = (r, s')" "s_journal s = None"
  shows "((\<forall>tr. \<not> kask E tr Sb_rdonly) \<and> r = None \<and> has_jbd2 (s_journal s') \<longrightarrow>
           s_needs_recovery (sbi s') = 1 \<and> (s_needs_recovery (sbi s) \<noteq> 1 \<longrightarrow>
             get32 (cache s' 0) sb_off_s_needs_recovery = 1))
    \<and> (s_journal_mode (sbi s) \<in> {1, 2} \<longrightarrow> cache s' = cache s \<and> \<not> has_jbd2 (s_journal s') \<and>
         (\<forall>x. count_list (trace s') (Jbd2_journal_load, x) = count_list (trace s) (Jbd2_journal_load, x)))
    \<and> ((\<forall>tr. kask E tr Bdev_read_only) \<and> s_needs_recovery (sbi s) \<noteq> 0 \<and> s_journal_present (sbi s) \<noteq> 0
         \<and> s_journal_mode (sbi s) = 0 \<longrightarrow> r \<noteq> None \<and> s_journal s' = None \<and> cache s' = cache s)"
  using wp_run [OF load_dirty_marker assms(1)] wp_run [OF load_norecovery assms(1)]
    wp_run [OF load_write_protected assms(1)] assms(2) by blast

theorem journal_load_marker_witness:
  "let s = kst0\<lparr>sbi := sbi0\<lparr>s_journal_present := 1\<rparr>\<rparr>;
       s' = snd (run_state (simplefs_journal_load env_ok) s)
   in has_jbd2 (s_journal s') \<and> s_needs_recovery (sbi s') = 1
      \<and> get32 (cache s' 0) sb_off_s_needs_recovery = 1"
proof -
  let ?s = "kst0\<lparr>sbi := sbi0\<lparr>s_journal_present := 1\<rparr>\<rparr>"
  let ?run = "run_state (simplefs_journal_load env_ok) ?s"
  have "fst ?run = None \<and> has_jbd2 (s_journal (snd ?run))"
    by (simp add: simplefs_journal_load_def simplefs_journal_set_needs_recovery_def set_s_journal_def
        has_jbd2_def demo_simps gets_def ask_def ext_def set_cache_def modify_def then_if_ok_def
        when_true_def upd_sbi_def Let_def)
  moreover have "s_journal ?s = None" "s_needs_recovery (sbi ?s) \<noteq> 1" "\<forall>tr. \<not> kask env_ok tr Sb_rdonly"
    by (simp_all add: demo_simps)
  ultimately show ?thesis
    using journal_load_marker [OF surjective_pairing, of ?s env_ok] by (simp add: Let_def)
qed

end
