(* ===== verification/SFS_Metabuf.thy ===== *)
theory SFS_Metabuf
  imports SFS_Journal
begin

text \<open>
  Access to metadata blocks through the page cache of the block device, \<open>simplefs_metabuf.c\<close>.
  A mapped folio is the cached image of its block: the functions return the image, and a caller
  that writes through the mapping changes the cache.
\<close>

definition simplefs_read_metadata :: "env \<Rightarrow> u32 \<Rightarrow> (kst, errno + block) state" where
  "simplefs_read_metadata E n = do {
     r \<leftarrow> ext E (Read_mapping_folio n);
     (case r of
        Some e \<Rightarrow> ret (Inl e)
      | None \<Rightarrow> do { b \<leftarrow> gets (\<lambda>s. cache s n); ret (Inr b) })
   }"

definition simplefs_get_folio :: "env \<Rightarrow> u32 \<Rightarrow> (kst, errno + block) state" where
  "simplefs_get_folio E n = do {
     data \<leftarrow> simplefs_read_metadata E n;
     (case data of
        Inl e \<Rightarrow> ret (Inl e)
      | Inr b \<Rightarrow> do {
          p \<leftarrow> simplefs_journal_prepare_current E n;
          if p \<noteq> None then ret (Inl EIO) else ret (Inr b)
        })
   }"

definition simplefs_get_zeroed_folio :: "env \<Rightarrow> u32 \<Rightarrow> (kst, errno + block) state" where
  "simplefs_get_zeroed_folio E n = do {
     r \<leftarrow> simplefs_journal_zero_current E n;
     (case r of
        Some e \<Rightarrow> ret (Inl e)
      | None \<Rightarrow> do {
          data \<leftarrow> simplefs_read_metadata E n;
          (case data of
             Inl e \<Rightarrow> ret (Inl e)
           | Inr b \<Rightarrow> do { set_cache n zero_block; ret (Inr zero_block) })
        })
   }"

lemma read_metadata_jframe [frame_rules]: "keeps jframe (simplefs_read_metadata E n)"
  unfolding simplefs_read_metadata_def by (intro frame_rules)

lemma get_folio_jframe [frame_rules]: "keeps jframe (simplefs_get_folio E n)"
  unfolding simplefs_get_folio_def by (intro frame_rules)

lemma get_zeroed_folio_jframe [frame_rules]: "keeps jframe (simplefs_get_zeroed_folio E n)"
  unfolding simplefs_get_zeroed_folio_def by (intro frame_rules)

lemma read_metadata_leaf [frame_rules]: "keeps leaf (simplefs_read_metadata E n)"
  unfolding simplefs_read_metadata_def by (intro frame_rules)

lemma get_folio_leaf [frame_rules]: "keeps leaf (simplefs_get_folio E n)"
  unfolding simplefs_get_folio_def by (intro frame_rules)

lemma prepare_current_spec:
  "wp (simplefs_journal_prepare_current E n) (\<lambda>r s'. cache s' = cache s \<and> s_journal s' = s_journal s) s"
  by (auto simp: simplefs_journal_prepare_current_def simplefs_current_jbd2_handle_def wp_simps
      split: option.split)

lemma get_folio_spec:
  "wp (simplefs_get_folio E n) (\<lambda>r s'. cache s' = cache s \<and> s_journal s' = s_journal s
     \<and> (\<forall>b. r = Inr b \<longrightarrow> b = cache s n)) s"
  unfolding simplefs_get_folio_def simplefs_read_metadata_def
  by (auto simp: wp_simps intro!: wp_mono [OF prepare_current_spec] split: option.split)

lemma zero_current_spec:
  "wp (simplefs_journal_zero_current E n) (\<lambda>r s'. s_journal s' = s_journal s \<and>
     (cache s' = cache s \<or> cache s' = (cache s)(n := zero_block))) s"
  by (auto simp: simplefs_journal_zero_current_def simplefs_current_jbd2_handle_def wp_simps
      split: option.split)

lemma get_zeroed_folio_spec:
  "wp (simplefs_get_zeroed_folio E n) (\<lambda>r s'. s_journal s' = s_journal s \<and>
     (cache s' = cache s \<or> cache s' = (cache s)(n := zero_block)) \<and>
     (\<forall>b. r = Inr b \<longrightarrow> b = zero_block \<and> cache s' = (cache s)(n := zero_block))) s"
  unfolding simplefs_get_zeroed_folio_def simplefs_read_metadata_def
  by (auto simp: wp_simps intro!: wp_mono [OF zero_current_spec] split: option.split)

end
