(* ===== verification/SFS_Bitmap.thy ===== *)
theory SFS_Bitmap
  imports SFS_Metabuf
begin

text \<open>
  The free-space bitmaps, \<open>simplefs_bitmap.h\<close>, and the delayed discard of freed blocks,
  \<open>simplefs_issue_pending_discards\<close> of \<open>simplefs_super.c\<close>. A set bit is free. Bit
  positions are natural numbers below \<open>nr_blocks\<close> or \<open>nr_inodes\<close>, which are 32-bit; block
  numbers handed to callers and the counters are 32-bit words.
\<close>

section \<open>Journalling the bitmaps and the counters\<close>

definition simplefs_journal_block :: "env \<Rightarrow> u32 \<Rightarrow> block \<Rightarrow> (kst, status) state" where
  "simplefs_journal_block E block_nr data = simplefs_journal_dirty_current E block_nr data"

text \<open>The loop over the bitmap blocks that hold the changed bits.\<close>

fun journal_bitmap_loop :: "env \<Rightarrow> bool \<Rightarrow> nat list \<Rightarrow> (kst, status) state" where
  "journal_bitmap_loop E inode_map [] = ret None"
| "journal_bitmap_loop E inode_map (index # rest) = do {
     sb \<leftarrow> gets sbi;
     r \<leftarrow> (if inode_map
          then simplefs_journal_block E (1 + nr_istore_blocks sb + of_nat index)
                 (bitmap_block (ifree_bitmap sb) index)
          else simplefs_journal_block E (1 + nr_istore_blocks sb + nr_ifree_blocks sb + of_nat index)
                 (bitmap_block (bfree_bitmap sb) index));
     (case r of Some e \<Rightarrow> ret (Some e) | None \<Rightarrow> journal_bitmap_loop E inode_map rest)
   }"

definition simplefs_journal_bitmap :: "env \<Rightarrow> bool \<Rightarrow> u32 \<Rightarrow> u32 \<Rightarrow> (kst, status) state" where
  "simplefs_journal_bitmap E inode_map pos len = do {
     journal \<leftarrow> gets s_journal;
     if journal = None \<or> len = 0 then ret None
     else journal_bitmap_loop E inode_map
            [unat (pos div 32768) ..< Suc (unat ((pos + len - 1) div 32768))]
   }"

definition simplefs_journal_free_counts :: "env \<Rightarrow> (kst, status) state" where
  "simplefs_journal_free_counts E = do {
     journal \<leftarrow> gets s_journal;
     sb \<leftarrow> gets sbi;
     if journal = None then ret None
     else do {
       disk_sb \<leftarrow> simplefs_get_folio E 0;
       (case disk_sb of
          Inl e \<Rightarrow> ret (Some e)
        | Inr b \<Rightarrow> do {
            set_cache 0 (put32 (nr_free_blocks sb)
              (put32 (nr_free_inodes sb) b sb_off_nr_free_inodes) sb_off_nr_free_blocks);
            simplefs_journal_dirty_folio E 0 0
          })
     }
   }"

definition simplefs_persist_bitmap :: "env \<Rightarrow> bool \<Rightarrow> u32 \<Rightarrow> u32 \<Rightarrow> (kst, status) state" where
  "simplefs_persist_bitmap E inode_map pos len = do {
     r \<leftarrow> simplefs_journal_bitmap E inode_map pos len;
     r \<leftarrow> then_if_ok r (simplefs_journal_free_counts E);
     (case r of Some e \<Rightarrow> simplefs_journal_fail e | None \<Rightarrow> ret ());
     ret r
   }"

section \<open>Searching for a run of free bits\<close>

text \<open>
  The body of \<open>for_each_set_bit_from\<close> over the positions still to visit. \<open>prev\<close> is
  compared with \<open>bit - 1\<close>, which wraps at position 0 in the source and is -1 here; both differ
  from every position.
\<close>

fun free_bits_loop :: "bitmap \<Rightarrow> nat \<Rightarrow> nat list \<Rightarrow> int \<Rightarrow> nat \<Rightarrow> nat option" where
  "free_bits_loop freemap len [] prev cnt = None"
| "free_bits_loop freemap len (pos # rest) prev cnt =
     (if \<not> freemap pos then free_bits_loop freemap len rest prev cnt
      else let cnt' = (if prev \<noteq> int pos - 1 then 0 else cnt)
           in if Suc cnt' = len then Some (pos + 1 - len)
              else free_bits_loop freemap len rest (int pos) (Suc cnt'))"

definition get_first_free_bits_from :: "bitmap \<Rightarrow> nat \<Rightarrow> nat \<Rightarrow> nat \<Rightarrow> nat \<times> bitmap" where
  "get_first_free_bits_from freemap sz len start =
     (case free_bits_loop freemap len [start ..< sz] 0 0 of
        Some pos \<Rightarrow> (pos, bm_clear freemap pos len)
      | None \<Rightarrow> (0, freemap))"

definition get_first_free_bits :: "bitmap \<Rightarrow> nat \<Rightarrow> nat \<Rightarrow> nat \<times> bitmap" where
  "get_first_free_bits freemap sz len = get_first_free_bits_from freemap sz len 0"

definition put_free_bits :: "bitmap \<Rightarrow> nat \<Rightarrow> nat \<Rightarrow> nat \<Rightarrow> status \<times> bitmap" where
  "put_free_bits freemap sz i len =
     (if len = 0 \<or> i \<ge> sz \<or> len > sz - i then (Some EINVAL, freemap)
      else (None, bm_set freemap i len))"

text \<open>The reference: the least start from which \<open>len\<close> bits are free, by trying every start.\<close>

definition first_run :: "bitmap \<Rightarrow> nat \<Rightarrow> nat \<Rightarrow> nat \<Rightarrow> nat option" where
  "first_run m sz len start =
     (if len = 0 then None else List.find (\<lambda>r. bm_all m r len) [start ..< Suc sz - len])"

text \<open>The search with the length of the current run in place of \<open>prev\<close> and \<open>count\<close>.\<close>

fun run_scan :: "bitmap \<Rightarrow> nat \<Rightarrow> nat \<Rightarrow> nat \<Rightarrow> nat \<Rightarrow> nat option" where
  "run_scan m len b 0 c = None"
| "run_scan m len b (Suc k) c =
     (if \<not> m b then run_scan m len (Suc b) k 0
      else if Suc c = len then Some (b + 1 - len)
      else run_scan m len (Suc b) k (Suc c))"

lemma free_bits_loop_run_scan:
  "prev < int b \<Longrightarrow> c = (if prev = int b - 1 then cnt else 0) \<Longrightarrow>
   free_bits_loop m len [b ..< b + k] prev cnt = run_scan m len b k c"
proof (induction k arbitrary: b prev cnt c)
  case (Suc k)
  have "[b ..< b + Suc k] = b # [Suc b ..< Suc b + k]"
    by (simp add: upt_conv_Cons)
  then show ?case
    using Suc.prems
      Suc.IH [of prev "Suc b" 0 cnt] Suc.IH [of "int b" "Suc b" "Suc c" "Suc c"]
    by (auto simp: Let_def)
qed simp

lemma free_bits_loop_start: "free_bits_loop m len [b ..< b + k] 0 0 = run_scan m len b k 0"
proof (cases b)
  case 0
  show ?thesis
  proof (cases k)
    case (Suc j)
    have "[0 ..< Suc j] = 0 # [1 ..< 1 + j]" by (simp add: upt_conv_Cons)
    then show ?thesis
      using free_bits_loop_run_scan [of 0 1 1 1 m len j] free_bits_loop_run_scan [of 0 1 0 0 m len j]
      by (simp add: 0 Suc Let_def)
  qed (simp add: 0)
next
  case (Suc n)
  show ?thesis by (rule free_bits_loop_run_scan) (simp_all add: Suc)
qed

lemma bm_all_0 [simp]: "bm_all m i 0"
  by (auto simp: bm_all_iff)

definition is_first :: "bitmap \<Rightarrow> nat \<Rightarrow> nat \<Rightarrow> nat \<Rightarrow> nat option \<Rightarrow> bool" where
  "is_first m len lo hi r = (case r of
      Some r \<Rightarrow> lo \<le> r \<and> r + len \<le> hi \<and> bm_all m r len \<and> (\<forall>q. lo \<le> q \<longrightarrow> q < r \<longrightarrow> \<not> bm_all m q len)
    | None \<Rightarrow> \<forall>q. lo \<le> q \<longrightarrow> q + len \<le> hi \<longrightarrow> \<not> bm_all m q len)"

lemma is_first_skip:
  assumes "is_first m len (Suc b) hi r" "\<And>q. lo \<le> q \<Longrightarrow> q \<le> b \<Longrightarrow> \<not> bm_all m q len" "lo \<le> Suc b"
  shows "is_first m len lo hi r"
proof -
  have split: "lo \<le> q \<and> q \<le> b \<or> Suc b \<le> q" if "lo \<le> q" for q using that by linarith
  show ?thesis using assms split unfolding is_first_def by (cases r) auto
qed

lemma run_scan_first:
  "c < len \<Longrightarrow> c \<le> b \<Longrightarrow> bm_all m (b - c) c \<Longrightarrow> is_first m len (b - c) (b + k) (run_scan m len b k c)"
proof (induction k arbitrary: b c)
  case 0
  then show ?case by (auto simp: is_first_def)
next
  case (Suc k)
  show ?case
  proof (cases "m b")
    case False
    have no: "\<not> bm_all m q len" if "b - c \<le> q" "q \<le> b" for q
    proof -
      have "b < q + len" using that Suc.prems(1,2) by linarith
      then show ?thesis using False that by (auto simp: bm_all_iff)
    qed
    have "is_first m len (Suc b) (b + Suc k) (run_scan m len (Suc b) k 0)"
      using Suc.IH [of 0 "Suc b"] Suc.prems(1) by simp
    then show ?thesis using is_first_skip [OF _ no] False by simp
  next
    case True
    have run: "bm_all m (b - c) (Suc c)"
      using Suc.prems True by (auto simp: bm_all_iff less_Suc_eq)
    show ?thesis
    proof (cases "Suc c = len")
      case True
      then have "b + 1 - len = b - c" by simp
      then show ?thesis using run \<open>m b\<close> True Suc.prems by (auto simp: is_first_def)
    next
      case False
      then show ?thesis using Suc.IH [of "Suc c" "Suc b"] run \<open>m b\<close> Suc.prems by simp
    qed
  qed
qed

lemma find_upt_Some:
  "lo \<le> r \<Longrightarrow> r < hi \<Longrightarrow> P r \<Longrightarrow> (\<And>q. lo \<le> q \<Longrightarrow> q < r \<Longrightarrow> \<not> P q) \<Longrightarrow> List.find P [lo ..< hi] = Some r"
  by (auto simp: find_Some_iff intro!: exI [of _ "r - lo"])

lemma is_first_unique: "is_first m len lo hi r \<Longrightarrow> 0 < len \<Longrightarrow> r = first_run m hi len lo"
  by (cases r) (auto simp: is_first_def first_run_def find_None_iff2 find_upt_Some)

lemma run_scan_zero: "run_scan m 0 b k c = None"
  by (induction m "0 :: nat" b k c rule: run_scan.induct) simp_all

lemma free_bits_loop_first_run: "free_bits_loop m len [start ..< sz] 0 0 = first_run m sz len start"
proof (cases "len = 0 \<or> sz \<le> start")
  case True
  then show ?thesis
    using run_scan_zero free_bits_loop_start [of m 0 start "sz - start"]
    by (cases "sz \<le> start") (auto simp: first_run_def)
next
  case False
  then have "free_bits_loop m len [start ..< sz] 0 0 = run_scan m len start (sz - start) 0"
    using free_bits_loop_start [of m len start "sz - start"] by simp
  moreover have "is_first m len start sz (run_scan m len start (sz - start) 0)"
    using run_scan_first [of 0 len start m "sz - start"] False by simp
  ultimately show ?thesis using is_first_unique False by simp
qed

end
