(* ===== verification/SFS_Alloc.thy ===== *)
theory SFS_Alloc
  imports SFS_Bitmap
begin

text \<open>
  The inode and block allocators of \<open>simplefs_bitmap.h\<close> on top of the bitmap search, the
  delayed discards of \<open>simplefs_super.c\<close>, and the contract of an allocator as a locale that both
  allocators implement: no range is handed out twice while it is live.
\<close>

section \<open>Pending discards\<close>

definition find_next_bit :: "bitmap \<Rightarrow> nat \<Rightarrow> nat \<Rightarrow> nat" where
  "find_next_bit m sz i = (case List.find m [i ..< sz] of Some j \<Rightarrow> j | None \<Rightarrow> sz)"

text \<open>The kernel's \<open>round_up\<close> and \<open>round_down\<close>, written with bit masks as in the kernel.\<close>

definition round_up :: "int \<Rightarrow> int \<Rightarrow> int" where
  "round_up x y = (or (x - 1) (y - 1)) + 1"

definition round_down :: "int \<Rightarrow> int \<Rightarrow> int" where
  "round_down x y = and x (not (y - 1))"

definition discard_gran_blocks :: "int \<Rightarrow> int" where
  "discard_gran_blocks granularity =
     (let g = max (uint (word_of_int granularity :: u32)) 4096 in (g + 4096 - 1) div 4096)"

definition upd_pending :: "(bitmap \<Rightarrow> bitmap) \<Rightarrow> (kst, unit) state" where
  "upd_pending f = upd_sbi (\<lambda>sb. sb\<lparr>discard_pending := map_option f (discard_pending sb)\<rparr>)"

definition pending_of :: "simplefs_sb_info \<Rightarrow> bitmap" where
  "pending_of sb = (case discard_pending sb of Some p \<Rightarrow> p | None \<Rightarrow> \<lambda>_. False)"

text \<open>The end of the run of pending free blocks that starts at \<open>b\<close>.\<close>

definition discard_run_end :: "simplefs_sb_info \<Rightarrow> nat \<Rightarrow> nat \<Rightarrow> nat" where
  "discard_run_end sb n b = find_next_bit (\<lambda>i. \<not> (pending_of sb i \<and> bfree_bitmap sb i)) n (Suc b)"

lemma find_next_bit_cases:
  assumes "i \<le> n"
  shows "i \<le> find_next_bit m n i \<and> find_next_bit m n i \<le> n
    \<and> (find_next_bit m n i < n \<longrightarrow> m (find_next_bit m n i))
    \<and> (\<forall>j. i \<le> j \<longrightarrow> j < find_next_bit m n i \<longrightarrow> \<not> m j)"
proof (cases "List.find m [i ..< n]")
  case None
  then have "find_next_bit m n i = n" by (simp add: find_next_bit_def)
  then show ?thesis using None assms by (auto simp: find_None_iff)
next
  case (Some k)
  then have k: "find_next_bit m n i = k" by (simp add: find_next_bit_def)
  obtain l where l: "l < n - i" "k = i + l" "m k" "\<forall>l'<l. \<not> m (i + l')"
    using Some by (auto simp: find_Some_iff)
  have "\<not> m j" if "i \<le> j" "j < k" for j
    using l(4) [rule_format, of "j - i"] that l(2) by simp
  then show ?thesis using k l by simp
qed

lemma find_next_bit_ge: "i \<le> n \<Longrightarrow> i \<le> find_next_bit m n i"
  using find_next_bit_cases by blast

lemma find_next_bit_hit: "i \<le> n \<Longrightarrow> find_next_bit m n i < n \<Longrightarrow> m (find_next_bit m n i)"
  using find_next_bit_cases by blast

lemma find_next_bit_le: "i \<le> n \<Longrightarrow> find_next_bit m n i \<le> n"
  using find_next_bit_cases by blast

lemma find_next_bit_before: "i \<le> n \<Longrightarrow> i \<le> j \<Longrightarrow> j < find_next_bit m n i \<Longrightarrow> \<not> m j"
  using find_next_bit_cases by blast

lemma find_next_bit_Suc: "i < n \<Longrightarrow> i < find_next_bit m n (Suc i)"
  using find_next_bit_ge [of "Suc i" n m] by simp

function (sequential) discard_loop :: "env \<Rightarrow> nat \<Rightarrow> int \<Rightarrow> nat \<Rightarrow> (kst, status) state" where
  "discard_loop E n gran block =
     (if n \<le> block then ret None
      else do {
        sb \<leftarrow> gets sbi;
        let b = find_next_bit (pending_of sb) n block;
        if n \<le> b then ret None
        else if \<not> bfree_bitmap sb b then do {
          upd_pending (\<lambda>p. p(b := False));
          discard_loop E n gran (Suc b)
        } else do {
          let end_b = discard_run_end sb n b;
          let discard_start = round_up (int b) gran;
          let discard_end = round_down (int end_b) gran;
          if discard_start \<ge> discard_end then discard_loop E n gran end_b
          else do {
            r \<leftarrow> ext E (Sb_issue_discard (word_of_int discard_start)
                           (word_of_int (discard_end - discard_start)));
            (case r of
               Some e \<Rightarrow> ret (Some e)
             | None \<Rightarrow> do {
                 upd_pending (\<lambda>p. bm_clear p (nat discard_start) (nat (discard_end - discard_start)));
                 discard_loop E n gran end_b
               })
          }
        }
      })"
  by pat_completeness auto
termination
  by (relation "measure (\<lambda>(E, n, g, b). n - b)")
    (auto simp: discard_run_end_def not_le less_imp_le
      intro!: diff_less_mono2 le_less_trans [OF find_next_bit_ge lessI]
        le_less_trans [OF find_next_bit_ge find_next_bit_Suc])

declare discard_loop.simps [simp del]

definition simplefs_issue_pending_discards :: "env \<Rightarrow> (kst, status) state" where
  "simplefs_issue_pending_discards E = do {
     sb \<leftarrow> gets sbi;
     if \<not> s_discard sb \<or> discard_pending sb = None then ret None
     else do {
       granularity \<leftarrow> asknum E Bdev_discard_granularity;
       discard_loop E (unat (nr_blocks sb)) (discard_gran_blocks granularity) 0
     }
   }"

section \<open>The inode and block allocators\<close>

definition get_free_inode :: "env \<Rightarrow> (kst, u32) state" where
  "get_free_inode E = do {
     handle \<leftarrow> simplefs_journal_start_sb E 1;
     (case handle of
        Inl e \<Rightarrow> ret 0
      | Inr h \<Rightarrow> do {
          sb \<leftarrow> gets sbi;
          r \<leftarrow> (let (r, m) = get_first_free_bits (ifree_bitmap sb) (unat (nr_inodes sb)) 1 in do {
                upd_sbi (\<lambda>sb. sb\<lparr>ifree_bitmap := m\<rparr>);
                if r \<noteq> 0 then do {
                  upd_sbi (\<lambda>sb. sb\<lparr>nr_free_inodes := nr_free_inodes sb - 1\<rparr>);
                  p \<leftarrow> simplefs_persist_bitmap E True (of_nat r) 1;
                  ret (if p \<noteq> None then 0 else of_nat r)
                } else ret 0
              });
          st \<leftarrow> simplefs_journal_stop E h;
          ret (if st \<noteq> None then 0 else r)
        })
   }"

lemma get_first_free_bits_bound:
  assumes "get_first_free_bits_from m n len search = (r, m')" "r \<noteq> 0"
  shows "search \<le> r \<and> r + len \<le> n \<and> 0 < len \<and> bm_all m r len \<and> m' = bm_clear m r len"
  using assms
  by (auto simp: get_first_free_bits_from_def free_bits_loop_first_run first_run_def find_Some_iff
      split: option.splits if_splits)

text \<open>
  The retry loop of \<open>__simplefs_get_free_blocks\<close>. A candidate that JBD2 still holds is put back
  and the search resumes one bit further, so the loop ends.
\<close>

function get_free_blocks_loop :: "env \<Rightarrow> nat \<Rightarrow> u32 \<Rightarrow> nat \<Rightarrow> (kst, u32) state" where
  "get_free_blocks_loop E n len search = do {
     sb \<leftarrow> gets sbi;
     let (r, m) = get_first_free_bits_from (bfree_bitmap sb) n (unat len) search;
     upd_sbi (\<lambda>sb. sb\<lparr>bfree_bitmap := m\<rparr>);
     if r = 0 then ret 0
     else do {
       prepare_ret \<leftarrow> simplefs_journal_prepare_new_blocks E (of_nat r) len;
       (case prepare_ret of
          Some e \<Rightarrow> do {
            upd_sbi (\<lambda>sb. sb\<lparr>bfree_bitmap := bm_set (bfree_bitmap sb) r (unat len)\<rparr>);
            if e = EAGAIN then get_free_blocks_loop E n len (Suc r) else ret 0
          }
        | None \<Rightarrow> do {
            upd_sbi (\<lambda>sb. sb\<lparr>nr_free_blocks := nr_free_blocks sb - len\<rparr>);
            upd_pending (\<lambda>p. bm_clear p r (unat len));
            p \<leftarrow> simplefs_persist_bitmap E False (of_nat r) len;
            ret (if p \<noteq> None then 0 else of_nat r)
          })
     }
   }"
  by pat_completeness auto
termination
  by (relation "measure (\<lambda>(E, n, len, search). n - search)")
    (auto dest!: get_first_free_bits_bound [OF sym])

declare get_free_blocks_loop.simps [simp del]

definition get_free_blocks :: "env \<Rightarrow> u32 \<Rightarrow> (kst, u32) state" where
  "get_free_blocks E len = do {
     handle \<leftarrow> simplefs_journal_start_sb E 1;
     (case handle of
        Inl e \<Rightarrow> ret 0
      | Inr h \<Rightarrow> do {
          sb \<leftarrow> gets sbi;
          r \<leftarrow> get_free_blocks_loop E (unat (nr_blocks sb)) len 0;
          st \<leftarrow> simplefs_journal_stop E h;
          ret (if st \<noteq> None then 0 else r)
        })
   }"

text \<open>The range check that the three functions on given block numbers share.\<close>

definition bad_range :: "simplefs_sb_info \<Rightarrow> u32 \<Rightarrow> u32 \<Rightarrow> bool" where
  "bad_range sb bno len \<longleftrightarrow> bno = 0 \<or> len = 0 \<or> bno \<ge> nr_blocks sb \<or> len > nr_blocks sb - bno"

definition simplefs_blocks_are_free :: "simplefs_sb_info \<Rightarrow> u32 \<Rightarrow> u32 \<Rightarrow> bool" where
  "simplefs_blocks_are_free sb bno len =
     (if bad_range sb bno len then False else bm_all (bfree_bitmap sb) (unat bno) (unat len))"

definition simplefs_take_exact_blocks :: "env \<Rightarrow> u32 \<Rightarrow> u32 \<Rightarrow> (kst, bool) state" where
  "simplefs_take_exact_blocks E bno len = do {
     sb \<leftarrow> gets sbi;
     if bad_range sb bno len then ret False
     else do {
       handle \<leftarrow> simplefs_journal_start_sb E 1;
       (case handle of
          Inl e \<Rightarrow> ret False
        | Inr h \<Rightarrow> do {
            sb \<leftarrow> gets sbi;
            ok \<leftarrow> (if \<not> bm_all (bfree_bitmap sb) (unat bno) (unat len) then ret False
               else do {
                 upd_sbi (\<lambda>sb. sb\<lparr>bfree_bitmap := bm_clear (bfree_bitmap sb) (unat bno) (unat len)\<rparr>);
                 p \<leftarrow> simplefs_journal_prepare_new_blocks E bno len;
                 if p \<noteq> None then do {
                   upd_sbi (\<lambda>sb. sb\<lparr>bfree_bitmap := bm_set (bfree_bitmap sb) (unat bno) (unat len)\<rparr>);
                   ret False
                 } else do {
                   upd_pending (\<lambda>p. bm_clear p (unat bno) (unat len));
                   upd_sbi (\<lambda>sb. sb\<lparr>nr_free_blocks := nr_free_blocks sb - len\<rparr>);
                   p \<leftarrow> simplefs_persist_bitmap E False bno len;
                   ret (p = None)
                 }
               });
            st \<leftarrow> simplefs_journal_stop E h;
            ret (ok \<and> st = None)
          })
     }
   }"

definition put_inode :: "env \<Rightarrow> u32 \<Rightarrow> (kst, unit) state" where
  "put_inode E ino = do {
     handle \<leftarrow> simplefs_journal_start_sb E 1;
     (case handle of
        Inl e \<Rightarrow> ret ()
      | Inr h \<Rightarrow> do {
          sb \<leftarrow> gets sbi;
          (if ino = 0 \<or> ino \<ge> nr_inodes sb then ret ()
           else if ifree_bitmap sb (unat ino) then ret ()
           else let (e, m) = put_free_bits (ifree_bitmap sb) (unat (nr_inodes sb)) (unat ino) 1 in
             if e \<noteq> None then ret ()
             else do {
               upd_sbi (\<lambda>sb. sb\<lparr>ifree_bitmap := m, nr_free_inodes := nr_free_inodes sb + 1\<rparr>);
               p \<leftarrow> simplefs_persist_bitmap E True ino 1;
               ret ()
             });
          st \<leftarrow> simplefs_journal_stop E h;
          ret ()
        })
   }"

definition put_blocks :: "env \<Rightarrow> u32 \<Rightarrow> u32 \<Rightarrow> (kst, unit) state" where
  "put_blocks E bno len = do {
     handle \<leftarrow> simplefs_journal_start_sb E 1;
     (case handle of
        Inl e \<Rightarrow> ret ()
      | Inr h \<Rightarrow> do {
          sb \<leftarrow> gets sbi;
          (if bad_range sb bno len then ret ()
           else if bno \<le> root_dir_block sb \<and> root_dir_block sb < bno + len then ret ()
           else if \<not> bm_none (bfree_bitmap sb) (unat bno) (unat len) then ret ()
           else let (e, m) = put_free_bits (bfree_bitmap sb) (unat (nr_blocks sb)) (unat bno) (unat len) in
             if e \<noteq> None then ret ()
             else do {
               upd_sbi (\<lambda>sb. sb\<lparr>bfree_bitmap := m, nr_free_blocks := nr_free_blocks sb + len\<rparr>);
               when_true (s_discard sb) (upd_pending (\<lambda>p. bm_set p (unat bno) (unat len)));
               p \<leftarrow> simplefs_persist_bitmap E False bno len;
               ret ()
             });
          st \<leftarrow> simplefs_journal_stop E h;
          journal \<leftarrow> gets s_journal;
          when_true (st = None \<and> s_discard sb \<and> \<not> has_jbd2 journal)
            (do { r \<leftarrow> simplefs_issue_pending_discards E; ret () })
        })
   }"

end
