(* ===== verification/SFS_AllocSpec.thy ===== *)
theory SFS_AllocSpec
  imports SFS_Alloc
begin

text \<open>
  What the allocators promise. \<open>take_sb\<close> and \<open>give_sb\<close> are the abstract effect of taking and
  giving back a range; the operations refine them on every branch and for every behaviour of the
  kernel. \<open>bitmap_ok\<close> is the invariant that ties the bitmaps to the counters. The locale
  \<open>allocator\<close> is the contract that the rest of the file system relies on.
\<close>

section \<open>Frames and reasoning rules\<close>

definition sframe :: "kst \<Rightarrow> kst \<Rightarrow> bool" where
  "sframe s s' \<longleftrightarrow> jframe s s' \<and> s_journal s' = s_journal s"

interpretation sfr: frame sframe
  by unfold_locales (auto simp: sframe_def intro: jframe_trans)

lemmas [frame_rules] = sfr.keeps_return sfr.keeps_gets sfr.keeps_bind sfr.keeps_when sfr.keeps_then

lemma keeps_sframe: "keeps leaf m \<Longrightarrow> keeps jframe m \<Longrightarrow> keeps sframe m"
  by (simp add: keeps_def sframe_def leaf_def)

lemma set_cache_sframe [frame_rules]: "keeps sframe (set_cache n b)"
  by (simp add: keeps_def set_cache_def sframe_def)

lemma journal_fail_jframe [frame_rules]: "keeps jframe (simplefs_journal_fail e)"
  by (auto simp: simplefs_journal_fail_def jframe_def intro!: frame_rules)

lemmas [frame_rules] =
  keeps_sframe [OF ext_leaf ext_jframe]
  keeps_sframe [OF ask_leaf ask_jframe]
  keeps_sframe [OF asknum_leaf asknum_jframe]
  keeps_sframe [OF note_call_leaf note_call_jframe]
  keeps_sframe [OF jbd2_dirty_leaf jbd2_dirty_jframe]
  keeps_sframe [OF prepare_current_leaf prepare_current_jframe]
  keeps_sframe [OF zero_current_leaf zero_current_jframe]
  keeps_sframe [OF prepare_new_leaf prepare_new_jframe]
  keeps_sframe [OF has_current_leaf has_current_jframe]
  keeps_sframe [OF dirty_current_leaf dirty_current_jframe]
  keeps_sframe [OF dirty_folio_leaf dirty_folio_jframe]
  keeps_sframe [OF forget_current_leaf forget_current_jframe]
  keeps_sframe [OF journal_fail_leaf journal_fail_jframe]
  keeps_sframe [OF read_metadata_leaf read_metadata_jframe]
  keeps_sframe [OF get_folio_leaf get_folio_jframe]

lemma get_zeroed_folio_sframe [frame_rules]: "keeps sframe (simplefs_get_zeroed_folio E n)"
  unfolding simplefs_get_zeroed_folio_def by (intro frame_rules)

lemma journal_bitmap_loop_sframe [frame_rules]: "keeps sframe (journal_bitmap_loop E im is)"
proof (induction "is")
  case (Cons i "is")
  show ?case unfolding journal_bitmap_loop.simps simplefs_journal_block_def by (intro frame_rules Cons)
qed (simp, intro frame_rules)

lemma persist_sframe [frame_rules]: "keeps sframe (simplefs_persist_bitmap E im b l)"
  unfolding simplefs_persist_bitmap_def simplefs_journal_bitmap_def simplefs_journal_free_counts_def
  by (intro frame_rules)

lemma wp_return_fun: "wp (ret x) Q = Q x"
  by (rule HOL.ext) (simp add: wp_return)

lemma wp_True: "wp m (\<lambda>_ _. True) s"
  by (simp add: wp_def split_beta)

lemma wp_frame: "keeps R m \<Longrightarrow> (\<And>r s'. R s s' \<Longrightarrow> Q r s') \<Longrightarrow> wp m Q s"
  by (auto simp: keeps_def wp_def split_beta)

text \<open>The frame of a complete operation: the adapter is left as it was found.\<close>

definition aframe :: "kst \<Rightarrow> kst \<Rightarrow> bool" where
  "aframe s s' \<longleftrightarrow> inodes s' = inodes s \<and> s_fs_info s' = s_fs_info s \<and> (s_shutdown s \<longrightarrow> s_shutdown s')
     \<and> (handle_ok s \<longrightarrow> s_journal s' = s_journal s)"

interpretation afr: frame aframe
  by unfold_locales (auto simp: aframe_def handle_ok_def)

lemmas [frame_rules] = afr.keeps_return afr.keeps_gets afr.keeps_bind afr.keeps_when afr.keeps_then

lemma sframe_aframe: "sframe s s' \<Longrightarrow> aframe s s'"
  by (simp add: sframe_def jframe_def aframe_def)

lemma sframe_sbi: "sframe s s' \<Longrightarrow> sbi s' = sbi s"
  by (simp add: sframe_def jframe_def)

lemma aframe_sbi [simp]:
  "aframe s (t\<lparr>sbi := x\<rparr>) = aframe s t" "aframe (s\<lparr>sbi := x\<rparr>) t = aframe s t"
  by (simp_all add: aframe_def handle_ok_def)

lemma upd_sbi_aframe [frame_rules]: "keeps aframe (upd_sbi f)"
  by (simp add: keeps_def upd_sbi_def afr.refl)

text \<open>How a handle relates the state before it was started to the one it is stopped in.\<close>

definition started :: "kst \<Rightarrow> bool \<Rightarrow> kst \<Rightarrow> bool" where
  "started s h s1 \<longleftrightarrow> (if h then \<exists>j. s_journal s = Some j \<and> \<not> j_handle_owner j \<and>
        s_journal s1 = Some (j\<lparr>j_handle_owner := True, j_active_handle := True\<rparr>)
      else s_journal s1 = s_journal s)
    \<and> inodes s1 = inodes s \<and> s_fs_info s1 = s_fs_info s \<and> (s_shutdown s \<longrightarrow> s_shutdown s1)"

definition start_fails :: "env \<Rightarrow> kst \<Rightarrow> bool" where
  "start_fails E s = isl (fst (run_state (simplefs_journal_start_sb E 1) s))"

lemma start_wp:
  assumes "\<And>e s1. sframe s s1 \<Longrightarrow> start_fails E s \<Longrightarrow> Q (Inl e) s1"
    and "\<And>h s1. started s h s1 \<Longrightarrow> sbi s1 = sbi s \<Longrightarrow> cache s1 = cache s \<Longrightarrow> \<not> start_fails E s \<Longrightarrow> Q (Inr h) s1"
  shows "wp (simplefs_journal_start_sb E 1) Q s"
proof -
  obtain r s1 where run: "run_state (simplefs_journal_start_sb E 1) s = (r, s1)" by fastforce
  note spec = wp_run [OF start_sb_spec run] keepsD [OF start_sb_jframe run]
  have fails: "start_fails E s = isl r" by (simp add: start_fails_def run)
  have "Q r s1"
  proof (cases r)
    case (Inl e)
    then show ?thesis using spec fails by (auto simp: sframe_def intro: assms(1))
  next
    case (Inr h)
    then show ?thesis using spec fails
      by (auto simp: started_def jframe_def intro!: assms(2) split: if_splits)
  qed
  then show ?thesis by (simp add: wp_def run)
qed

lemma started_step: "started s h s1 \<Longrightarrow> sframe s1 s2 \<Longrightarrow> started s h s2"
  by (auto simp: started_def sframe_def jframe_def)

lemma started_sbi [simp]: "started s h (t\<lparr>sbi := x\<rparr>) = started s h t"
  by (simp add: started_def)

lemma stop_wp:
  assumes "started s h s2"
    and "\<And>r s3. aframe s s3 \<Longrightarrow> sbi s3 = sbi s2 \<Longrightarrow> cache s3 = cache s2 \<Longrightarrow> (s_shutdown s2 \<longrightarrow> s_shutdown s3) \<Longrightarrow>
      (\<forall>e. r = Some e \<longrightarrow> (Jbd2_journal_stop, Some e) \<in> set (trace s3)) \<Longrightarrow> Q r s3"
  shows "wp (simplefs_journal_stop E h) Q s2"
proof -
  have tr: "wp (simplefs_journal_stop E h) (\<lambda>r s3. \<forall>e. r = Some e \<longrightarrow>
      (Jbd2_journal_stop, Some e) \<in> set (trace s3)) s2"
    by (auto simp: simplefs_journal_stop_def simplefs_journal_mark_shutdown_def set_handle_def wp_simps)
  have st: "aframe s s3" if "jframe s2 s3" "s_journal s3 = (if h then map_option
      (\<lambda>j. j\<lparr>j_handle_owner := False, j_active_handle := False\<rparr>) (s_journal s2) else s_journal s2)" for s3
    using assms(1) that by (auto simp: started_def aframe_def jframe_def handle_ok_def split: if_splits)
  show ?thesis
    by (rule wp_mono [OF wp_conj [OF wp_conj [OF stop_spec tr] stop_jframe [unfolded keeps_wp, rule_format]]])
      (rule assms(2); auto simp: jframe_def intro: st)
qed

lemma persist_wp:
  assumes "\<And>r s'. sframe s s' \<Longrightarrow> (r \<noteq> None \<longrightarrow> s_shutdown s') \<Longrightarrow> Q r s'"
  shows "wp (simplefs_persist_bitmap E im b l) Q s"
proof -
  have "wp (simplefs_persist_bitmap E im b l) (\<lambda>r s'. r \<noteq> None \<longrightarrow> s_shutdown s') s"
    unfolding simplefs_persist_bitmap_def wp_simps
    by (auto intro!: wpI simp: wp_simps simplefs_journal_fail_def split: option.split)
  from wp_conj [OF this persist_sframe [unfolded keeps_wp, rule_format]] show ?thesis
    by (rule wp_mono) (auto intro: assms)
qed

lemma persist_started:
  assumes "started s0 h s"
    and "\<And>r s'. started s0 h s' \<Longrightarrow> sbi s' = sbi s \<Longrightarrow> (r \<noteq> None \<longrightarrow> s_shutdown s') \<Longrightarrow> Q r s'"
  shows "wp (simplefs_persist_bitmap E im b l) Q s"
  by (rule persist_wp) (auto intro: assms(2) started_step [OF assms(1)] dest: sframe_sbi)

section \<open>The abstract effect of taking and giving back blocks\<close>

definition take_sb :: "simplefs_sb_info \<Rightarrow> nat \<Rightarrow> u32 \<Rightarrow> simplefs_sb_info" where
  "take_sb sb q len = sb\<lparr>bfree_bitmap := bm_clear (bfree_bitmap sb) q (unat len),
     nr_free_blocks := nr_free_blocks sb - len,
     discard_pending := map_option (\<lambda>p. bm_clear p q (unat len)) (discard_pending sb)\<rparr>"

definition give_sb :: "simplefs_sb_info \<Rightarrow> nat \<Rightarrow> u32 \<Rightarrow> simplefs_sb_info" where
  "give_sb sb q len = sb\<lparr>bfree_bitmap := bm_set (bfree_bitmap sb) q (unat len),
     nr_free_blocks := nr_free_blocks sb + len,
     discard_pending := (if s_discard sb then map_option (\<lambda>p. bm_set p q (unat len)) (discard_pending sb)
       else discard_pending sb)\<rparr>"

text \<open>An operation that has lost track: the file system is shut down, or a handle failed to stop.\<close>

definition failed :: "kst \<Rightarrow> bool" where
  "failed s \<longleftrightarrow> s_shutdown s \<or> (\<exists>e. (Jbd2_journal_stop, Some e) \<in> set (trace s))"

definition free_run :: "simplefs_sb_info \<Rightarrow> nat \<Rightarrow> u32 \<Rightarrow> bool" where
  "free_run sb q len \<longleftrightarrow> 0 < q \<and> 0 < unat len \<and> q + unat len \<le> unat (nr_blocks sb) \<and>
     bm_all (bfree_bitmap sb) q (unat len)"

definition took :: "kst \<Rightarrow> u32 \<Rightarrow> u32 \<Rightarrow> kst \<Rightarrow> bool" where
  "took s len r s' \<longleftrightarrow> r = 0 \<and> sbi s' = sbi s \<or>
     (\<exists>q. free_run (sbi s) q len \<and> sbi s' = take_sb (sbi s) q len \<and> (r = of_nat q \<or> r = 0 \<and> failed s'))"

lemma get_first_free_bits_none:
  assumes "get_first_free_bits_from m n len search = (0, m')" "\<not> m 0"
  shows "m' = m"
  using assms
  by (auto simp: get_first_free_bits_from_def free_bits_loop_first_run first_run_def find_Some_iff
      bm_all_iff split: option.splits if_splits)

lemma alloc_commit:
  assumes "started s0 h s2" "sbi s2 = (sbi s)\<lparr>bfree_bitmap := bm_clear (bfree_bitmap (sbi s)) q (unat len)\<rparr>"
    and "free_run (sbi s) q len"
  shows "wp (do {
       upd_sbi (\<lambda>sb. sb\<lparr>nr_free_blocks := nr_free_blocks sb - len\<rparr>);
       upd_pending (\<lambda>p. bm_clear p q (unat len));
       p \<leftarrow> simplefs_persist_bitmap E False (of_nat q) len;
       ret (if p \<noteq> None then 0 else of_nat q)
     }) (\<lambda>r s'. started s0 h s' \<and> took s len r s') s2"
  unfolding wp_simps upd_pending_def
proof (rule persist_wp)
  fix r s'
  assume sf: "sframe (s2\<lparr>sbi := (sbi s2)\<lparr>nr_free_blocks := nr_free_blocks (sbi s2) - len\<rparr>,
      sbi := sbi (s2\<lparr>sbi := (sbi s2)\<lparr>nr_free_blocks := nr_free_blocks (sbi s2) - len\<rparr>\<rparr>)
        \<lparr>discard_pending := map_option (\<lambda>p. bm_clear p q (unat len)) (discard_pending
          (sbi (s2\<lparr>sbi := (sbi s2)\<lparr>nr_free_blocks := nr_free_blocks (sbi s2) - len\<rparr>\<rparr>)))\<rparr>\<rparr>) s'"
    and sd: "r \<noteq> None \<longrightarrow> s_shutdown s'"
  have "started s0 h s'" using started_step [OF _ sf] assms(1) by simp
  moreover have "sbi s' = take_sb (sbi s) q len"
    using sframe_sbi [OF sf] by (simp add: take_sb_def assms(2))
  ultimately show "started s0 h s' \<and> took s len (if r \<noteq> None then 0 else of_nat q) s'"
    using assms(3) sd by (auto simp: took_def failed_def)
qed

lemma took_again: "took (s2\<lparr>sbi := sbi s\<rparr>) len r s' = took s len r s'"
  by (simp add: took_def)

lemma get_free_blocks_loop_spec:
  assumes "\<not> bfree_bitmap (sbi s) 0" "n = unat (nr_blocks (sbi s))" "started s0 h s"
  shows "wp (get_free_blocks_loop E n len search) (\<lambda>r s'. started s0 h s' \<and> took s len r s') s"
  using assms
proof (induction E n len search arbitrary: s rule: get_free_blocks_loop.induct)
  case (1 E n len search)
  obtain r m where rm: "get_first_free_bits_from (bfree_bitmap (sbi s)) n (unat len) search = (r, m)"
    by fastforce
  show ?case
  proof (cases "r = 0")
    case True
    then have "m = bfree_bitmap (sbi s)" using get_first_free_bits_none rm 1(2) by blast
    then show ?thesis
      using rm True 1(4)
      by (subst get_free_blocks_loop.simps) (simp add: wp_simps Let_def took_def)
  next
    case False
    note b = get_first_free_bits_bound [OF rm False]
    have run: "free_run (sbi s) r len" using b False 1(3) by (simp add: free_run_def)
    let ?s1 = "s\<lparr>sbi := sbi s\<lparr>bfree_bitmap := m\<rparr>\<rparr>"
    let ?Q = "\<lambda>r s'. started s0 h s' \<and> took s len r s'"
    have commit: "wp (do {
        upd_sbi (\<lambda>sb. sb\<lparr>nr_free_blocks := nr_free_blocks sb - len\<rparr>);
        upd_pending (\<lambda>p. bm_clear p r (unat len));
        p \<leftarrow> simplefs_persist_bitmap E False (of_nat r) len;
        ret (if p \<noteq> None then 0 else of_nat r) }) ?Q s2" if "sframe ?s1 s2" for s2
      using alloc_commit [OF started_step [OF _ that] _ run] sframe_sbi [OF that] b 1(4) by simp
    have retry: "wp (do {
        upd_sbi (\<lambda>sb. sb\<lparr>bfree_bitmap := bm_set (bfree_bitmap sb) r (unat len)\<rparr>);
        if e = EAGAIN then get_free_blocks_loop E n len (Suc r) else ret 0 }) ?Q s2"
      if sf: "sframe ?s1 s2" for s2 e
    proof -
      have st: "started s0 h (s2\<lparr>sbi := sbi s\<rparr>)" using started_step [OF _ sf] 1(4) by simp
      have sb: "s2\<lparr>sbi := (sbi s2)\<lparr>bfree_bitmap := bm_set (bfree_bitmap (sbi s2)) r (unat len)\<rparr>\<rparr>
          = s2\<lparr>sbi := sbi s\<rparr>"
        using b sframe_sbi [OF sf] by (simp add: bm_set_clear)
      have "wp (get_free_blocks_loop E n len (Suc r)) ?Q (s2\<lparr>sbi := sbi s\<rparr>)" if "e = EAGAIN"
        using 1(1) [of "(r, m)" "sbi s" r m e "s2\<lparr>sbi := sbi s\<rparr>"]
          rm False that 1(2,3) st by (simp add: took_again)
      then show ?thesis using st by (simp add: wp_simps sb took_def)
    qed
    show ?thesis
      apply (subst get_free_blocks_loop.simps)
      apply (simp only: wp_bind wp_gets Let_def rm prod.case wp_upd_sbi False if_False)
      apply (rule wp_frame [OF keeps_sframe [OF prepare_new_leaf prepare_new_jframe]])
      apply (simp only: wp_option split: option.split)
      using commit retry by blast
  qed
qed

lemma stop_trace: "wp (simplefs_journal_stop E h) (\<lambda>r s'. set (trace s) \<subseteq> set (trace s')) s"
  by (auto simp: simplefs_journal_stop_def simplefs_journal_mark_shutdown_def set_handle_def wp_simps)

lemma stop_wp':
  assumes "started s h s2"
    and "\<And>r s3. aframe s s3 \<Longrightarrow> sbi s3 = sbi s2 \<Longrightarrow> (s_shutdown s2 \<longrightarrow> s_shutdown s3) \<Longrightarrow>
      set (trace s2) \<subseteq> set (trace s3) \<Longrightarrow>
      (\<forall>e. r = Some e \<longrightarrow> (Jbd2_journal_stop, Some e) \<in> set (trace s3)) \<Longrightarrow> Q r s3"
  shows "wp (simplefs_journal_stop E h) Q s2"
proof -
  have "wp (simplefs_journal_stop E h) (\<lambda>r s3. aframe s s3 \<and> sbi s3 = sbi s2 \<and>
      (s_shutdown s2 \<longrightarrow> s_shutdown s3) \<and>
      (\<forall>e. r = Some e \<longrightarrow> (Jbd2_journal_stop, Some e) \<in> set (trace s3))) s2"
    by (rule stop_wp [OF assms(1)]) simp
  from wp_conj [OF this stop_trace] show ?thesis
    by (rule wp_mono) (auto intro: assms(2))
qed

definition stopped :: "kst \<Rightarrow> kst \<Rightarrow> status \<Rightarrow> kst \<Rightarrow> bool" where
  "stopped s s2 st s3 \<longleftrightarrow> aframe s s3 \<and> sbi s3 = sbi s2 \<and> (s_shutdown s2 \<longrightarrow> s_shutdown s3)
     \<and> set (trace s2) \<subseteq> set (trace s3)
     \<and> (\<forall>e. st = Some e \<longrightarrow> (Jbd2_journal_stop, Some e) \<in> set (trace s3))"

lemma stopped_aframe: "stopped s s2 st s3 \<Longrightarrow> aframe s s3"
  by (simp add: stopped_def)

lemma took_stopped:
  assumes "took s len r s2" "stopped s s2 st s3"
  shows "took s len (if st \<noteq> None then 0 else r) s3"
  using assms unfolding took_def failed_def stopped_def by (cases st) auto

text \<open>The shape that every allocator operation has: a body between a start and a stop.\<close>

lemma bracket_wp:
  assumes "\<And>s1. sframe s s1 \<Longrightarrow> start_fails E s \<Longrightarrow> Q d s1"
    and "\<And>h s1. started s h s1 \<Longrightarrow> sbi s1 = sbi s \<Longrightarrow> \<not> start_fails E s \<Longrightarrow>
      wp (body (sbi s)) (\<lambda>x s2. started s h s2 \<and> P x s2) s1"
    and "\<And>x s2 st s3. P x s2 \<Longrightarrow> stopped s s2 st s3 \<Longrightarrow> wp (k (sbi s) x st) Q s3"
  shows "wp (do {
       handle \<leftarrow> simplefs_journal_start_sb E 1;
       (case handle of
          Inl e \<Rightarrow> ret d
        | Inr h \<Rightarrow> do {
            sb \<leftarrow> gets sbi;
            x \<leftarrow> body sb;
            st \<leftarrow> simplefs_journal_stop E h;
            k sb x st
          })
     }) Q s"
  unfolding wp_bind
proof (rule start_wp)
  fix h s1
  assume st: "started s h s1" and sb: "sbi s1 = sbi s" and sd: "\<not> start_fails E s"
  show "wp (case Inr h of Inl e \<Rightarrow> ret d | Inr h \<Rightarrow> do {
      sb \<leftarrow> gets sbi; x \<leftarrow> body sb; st \<leftarrow> simplefs_journal_stop E h; k sb x st }) Q s1"
    unfolding sum.case wp_bind wp_gets sb
  proof (rule wp_mono [OF assms(2) [OF st sb sd]], elim conjE)
    fix x s2
    assume s2: "started s h s2" and P: "P x s2"
    show "wp (simplefs_journal_stop E h) (\<lambda>st. wp (k (sbi s) x st) Q) s2"
      by (rule stop_wp' [OF s2]) (rule assms(3) [OF P], simp add: stopped_def)
  qed
qed (simp add: wp_simps assms(1))

lemma get_free_blocks_spec:
  assumes "\<not> bfree_bitmap (sbi s) 0"
  shows "wp (get_free_blocks E len) (\<lambda>r s'. aframe s s' \<and> took s len r s') s"
  unfolding get_free_blocks_def
proof (rule bracket_wp [where P = "took s len"])
  fix h s1
  assume st: "started s h s1" and sb: "sbi s1 = sbi s"
  show "wp (get_free_blocks_loop E (unat (nr_blocks (sbi s))) len 0)
      (\<lambda>r s2. started s h s2 \<and> took s len r s2) s1"
    by (rule wp_mono [OF get_free_blocks_loop_spec [OF _ _ st]]) (auto simp: sb took_def assms)
next
  show "aframe s s1 \<and> took s len 0 s1" if "sframe s s1" for s1
    using that by (simp add: took_def sframe_aframe sframe_sbi)
qed (simp only: wp_return, blast intro: stopped_aframe took_stopped)

definition took_exact :: "kst \<Rightarrow> u32 \<Rightarrow> u32 \<Rightarrow> bool \<Rightarrow> kst \<Rightarrow> bool" where
  "took_exact s bno len ok s' \<longleftrightarrow> \<not> ok \<and> sbi s' = sbi s \<or>
     free_run (sbi s) (unat bno) len \<and> sbi s' = take_sb (sbi s) (unat bno) len \<and> (ok \<or> failed s')"

lemma not_bad_range:
  assumes "\<not> bad_range sb bno len"
  shows "0 < unat bno" "0 < unat len" "unat bno + unat len \<le> unat (nr_blocks sb)"
proof -
  show "0 < unat bno" "0 < unat len"
    using assms by (simp_all add: bad_range_def unat_gt_0)
  have "bno \<le> nr_blocks sb" "len \<le> nr_blocks sb - bno"
    using assms by (auto simp: bad_range_def not_le not_less)
  then show "unat bno + unat len \<le> unat (nr_blocks sb)"
    by (simp add: word_le_nat_alt unat_sub_le)
qed

lemma take_exact_spec:
  "wp (simplefs_take_exact_blocks E bno len) (\<lambda>ok s'. aframe s s' \<and> took_exact s bno len ok s') s"
proof (cases "bad_range (sbi s) bno len")
  case True
  then show ?thesis by (simp add: simplefs_take_exact_blocks_def wp_simps took_exact_def afr.refl)
next
  case False
  let ?body = "\<lambda>sb. if \<not> bm_all (bfree_bitmap sb) (unat bno) (unat len) then ret False
     else do {
       upd_sbi (\<lambda>sb. sb\<lparr>bfree_bitmap := bm_clear (bfree_bitmap sb) (unat bno) (unat len)\<rparr>);
       p \<leftarrow> simplefs_journal_prepare_new_blocks E bno len;
       if p \<noteq> None then do {
         upd_sbi (\<lambda>sb. sb\<lparr>bfree_bitmap := bm_set (bfree_bitmap sb) (unat bno) (unat len)\<rparr>);
         ret False
       } else do {
         upd_pending (\<lambda>p. bm_clear p (unat bno) (unat len));
         upd_sbi (\<lambda>sb. sb\<lparr>nr_free_blocks := nr_free_blocks sb - len\<rparr>);
         p \<leftarrow> simplefs_persist_bitmap E False bno len;
         ret (p = None)
       }
     }"
  have body: "wp (?body (sbi s)) (\<lambda>ok s2. started s h s2 \<and> took_exact s bno len ok s2) s1"
    if st: "started s h s1" and sb: "sbi s1 = sbi s" for h s1
  proof (cases "bm_all (bfree_bitmap (sbi s)) (unat bno) (unat len)")
    case all: True
    have run: "free_run (sbi s) (unat bno) len"
      using all not_bad_range [OF False] by (simp add: free_run_def)
    show ?thesis
      apply (simp add: sb all wp_simps del: not_None_eq)
      apply (rule wp_frame [OF keeps_sframe [OF prepare_new_leaf prepare_new_jframe]])
      subgoal premises sf for p s2
      proof (cases p)
        case None
        show ?thesis
          apply (simp add: None wp_simps upd_pending_def)
          apply (rule persist_wp)
          subgoal premises pf for r s'
            using started_step [OF _ pf(1)] started_step [OF _ sf] st sframe_sbi [OF sf]
              sframe_sbi [OF pf(1)] pf(2) run
            by (auto simp: wp_simps took_exact_def take_sb_def failed_def)
          done
      next
        case (Some e)
        show ?thesis
          using started_step [OF _ sf] st sframe_sbi [OF sf] all
          by (simp add: Some wp_simps took_exact_def bm_set_clear)
      qed
      done
  qed (use st sb in \<open>simp add: wp_simps took_exact_def\<close>)
  have stop: "took_exact s bno len (ok \<and> r = None) s3"
    if "took_exact s bno len ok s2" "stopped s s2 r s3" for ok s2 s3 r
    using that unfolding took_exact_def failed_def stopped_def by (cases r) auto
  show ?thesis
    unfolding simplefs_take_exact_blocks_def wp_bind [of "gets sbi"] wp_gets wp_if
    using False
    apply (simp only: if_False)
    apply (rule bracket_wp [where P = "took_exact s bno len"])
      apply (simp add: took_exact_def sframe_aframe sframe_sbi)
     apply (rule body, assumption+)
    apply (simp add: wp_simps stop)
    apply (simp add: stopped_def)
    done
qed

section \<open>Discards only touch free blocks\<close>

definition shrunk :: "simplefs_sb_info \<Rightarrow> simplefs_sb_info \<Rightarrow> bool" where
  "shrunk sb sb' \<longleftrightarrow> (\<exists>p. sb' = sb\<lparr>discard_pending := p\<rparr>)
     \<and> (discard_pending sb' = None \<longleftrightarrow> discard_pending sb = None)
     \<and> (\<forall>i. pending_of sb' i \<longrightarrow> pending_of sb i)"

definition discardable :: "simplefs_sb_info \<Rightarrow> nat \<Rightarrow> bool" where
  "discardable sb i \<longleftrightarrow> i < unat (nr_blocks sb) \<and> bfree_bitmap sb i \<and> pending_of sb i"

definition discard_safe :: "kst \<Rightarrow> kst \<Rightarrow> bool" where
  "discard_safe s s' \<longleftrightarrow> cache s' = cache s \<and> inodes s' = inodes s \<and> s_journal s' = s_journal s
     \<and> s_fs_info s' = s_fs_info s \<and> s_shutdown s' = s_shutdown s \<and> shrunk (sbi s) (sbi s')
     \<and> (\<exists>tr. trace s' = tr @ trace s \<and> (\<forall>st l r. (Sb_issue_discard st l, r) \<in> set tr \<longrightarrow>
          (\<forall>i. unat st \<le> i \<and> i < unat st + unat l \<longrightarrow> discardable (sbi s) i)))"

lemma shrunk_pending:
  "(p = None \<longleftrightarrow> discard_pending sb = None) \<Longrightarrow> (\<And>i. pending_of (sb\<lparr>discard_pending := p\<rparr>) i \<Longrightarrow> pending_of sb i)
     \<Longrightarrow> shrunk sb (sb\<lparr>discard_pending := p\<rparr>)"
  unfolding shrunk_def by (intro conjI exI [of _ p] refl allI impI) simp_all

lemma shrunk_refl: "shrunk sb sb"
  using shrunk_pending [of "discard_pending sb" sb] by simp

lemma shrunk_fields:
  assumes "shrunk sb sb'"
  shows "bfree_bitmap sb' = bfree_bitmap sb" "nr_blocks sb' = nr_blocks sb"
  using assms by (auto simp: shrunk_def)

lemma shrunk_trans:
  assumes "shrunk a b" "shrunk b c"
  shows "shrunk a c"
proof -
  obtain p q where "b = a\<lparr>discard_pending := p\<rparr>" "c = b\<lparr>discard_pending := q\<rparr>"
    using assms unfolding shrunk_def by blast
  then have "c = a\<lparr>discard_pending := q\<rparr>" by simp
  then show ?thesis using assms unfolding shrunk_def by metis
qed

lemma shrunk_discardable: "shrunk sb sb' \<Longrightarrow> discardable sb' i \<Longrightarrow> discardable sb i"
  unfolding discardable_def using shrunk_fields by (metis shrunk_def)

lemma discard_safe_trans:
  assumes "discard_safe s t" "discard_safe t u"
  shows "discard_safe s u"
proof -
  obtain x y where "trace t = x @ trace s" "trace u = y @ trace t"
      "\<And>st l r i. (Sb_issue_discard st l, r) \<in> set x \<Longrightarrow> unat st \<le> i \<Longrightarrow> i < unat st + unat l \<Longrightarrow>
         discardable (sbi s) i"
      "\<And>st l r i. (Sb_issue_discard st l, r) \<in> set y \<Longrightarrow> unat st \<le> i \<Longrightarrow> i < unat st + unat l \<Longrightarrow>
         discardable (sbi t) i"
    using assms unfolding discard_safe_def by blast
  then have "\<exists>tr. trace u = tr @ trace s \<and> (\<forall>st l r. (Sb_issue_discard st l, r) \<in> set tr \<longrightarrow>
          (\<forall>i. unat st \<le> i \<and> i < unat st + unat l \<longrightarrow> discardable (sbi s) i))"
    using assms shrunk_discardable [of "sbi s" "sbi t"]
    by (intro exI [of _ "y @ x"]) (auto simp: discard_safe_def)
  then show ?thesis using assms shrunk_trans unfolding discard_safe_def by auto
qed

lemma discard_safe_pending:
  assumes "\<And>p i. f p i \<Longrightarrow> p i"
  shows "discard_safe s (s\<lparr>sbi := (sbi s)\<lparr>discard_pending := map_option f (discard_pending (sbi s))\<rparr>\<rparr>)"
  using assms by (auto simp: discard_safe_def pending_of_def intro!: shrunk_pending split: option.splits)

lemma round_up_ge: "0 \<le> x \<Longrightarrow> 1 \<le> y \<Longrightarrow> x \<le> round_up x y"
  using or_greater_eq [of "y - 1" "x - 1"] by (simp add: round_up_def)

lemma round_down_le: "0 \<le> x \<Longrightarrow> round_down x y \<le> x"
  by (simp add: round_down_def AND_upper1)

lemma discard_gran_pos: "1 \<le> discard_gran_blocks g"
  by (simp add: discard_gran_blocks_def Let_def)

lemma discard_run:
  assumes "b < n" "pending_of sb b" "bfree_bitmap sb b" "n = unat (nr_blocks sb)"
    and "b \<le> i" "i < discard_run_end sb n b"
  shows "discardable sb i"
proof (cases "i = b")
  case False
  then have "pending_of sb i \<and> bfree_bitmap sb i"
    using find_next_bit_before [of "Suc b" n i] assms unfolding discard_run_end_def by auto
  moreover have "i < n" using find_next_bit_le [of "Suc b" n] assms unfolding discard_run_end_def
    by (metis Suc_leI less_le_trans)
  ultimately show ?thesis using assms by (simp add: discardable_def)
qed (use assms in \<open>simp add: discardable_def\<close>)

lemma unat_word_of_int: "0 \<le> x \<Longrightarrow> x < 2 ^ 64 \<Longrightarrow> unat (word_of_int x :: u64) = nat x"
  by (simp add: unsigned_of_int take_bit_int_eq_self)

lemma discard_safe_issue:
  assumes "b < n" "pending_of (sbi s) b" "bfree_bitmap (sbi s) b" "n = unat (nr_blocks (sbi s))" "1 \<le> g"
    and "ds = round_up (int b) g" "de = round_down (int (discard_run_end (sbi s) n b)) g" "ds < de"
  shows "discard_safe s (s\<lparr>trace := (Sb_issue_discard (word_of_int ds) (word_of_int (de - ds)), r) # trace s\<rparr>)"
proof -
  have ds: "int b \<le> ds" using round_up_ge assms by simp
  have de: "de \<le> int (discard_run_end (sbi s) n b)" using round_down_le assms by simp
  have "discard_run_end (sbi s) n b \<le> n"
    using find_next_bit_le [of "Suc b" n] assms by (simp add: discard_run_end_def)
  then have "de < 4294967296" using de assms(4) unat_lt_u32 [of "nr_blocks (sbi s)"] by linarith
  then have w: "unat (word_of_int ds :: u64) = nat ds" "unat (word_of_int (de - ds) :: u64) = nat (de - ds)"
    using ds assms(8) by (intro unat_word_of_int; simp)+
  have "discardable (sbi s) i" if "nat ds \<le> i" "i < nat ds + nat (de - ds)" for i
    using discard_run [OF assms(1-4), of i] that ds de by simp
  then show ?thesis by (auto simp: discard_safe_def w shrunk_refl simp del: of_int_diff)
qed

lemma discard_safe_sbi: "discard_safe s t \<Longrightarrow> nr_blocks (sbi t) = nr_blocks (sbi s)"
  using shrunk_fields by (auto simp: discard_safe_def)

lemma discard_loop_safe:
  "1 \<le> g \<Longrightarrow> n = unat (nr_blocks (sbi s)) \<Longrightarrow> wp (discard_loop E n g b0) (\<lambda>r s'. discard_safe s s') s"
proof (induction E n g b0 arbitrary: s rule: discard_loop.induct)
  case (1 E n g b0)
  let ?b = "find_next_bit (pending_of (sbi s)) n b0"
  let ?e = "discard_run_end (sbi s) n ?b"
  let ?ds = "round_up (int ?b) g" and ?de = "round_down (int ?e) g"
  have refl: "discard_safe s s" by (simp add: discard_safe_def shrunk_refl)
  show ?case
  proof (cases "n \<le> b0 \<or> n \<le> ?b")
    case True
    then show ?thesis using refl by (subst discard_loop.simps) (auto simp: wp_simps Let_def)
  next
    case False
    then have b: "b0 < n" "?b < n" "pending_of (sbi s) ?b" using find_next_bit_hit [of b0 n "pending_of (sbi s)"] by auto
    have step: "wp (discard_loop E n g b') (\<lambda>r s'. discard_safe s s') t"
      if "discard_safe s t" "wp (discard_loop E n g b') (\<lambda>r s'. discard_safe t s') t" for t b'
      using that by (blast intro: wp_mono discard_safe_trans)
    have clear: "wp (discard_loop E n g (Suc ?b)) (\<lambda>r s'. discard_safe s s')
        (s\<lparr>sbi := (sbi s)\<lparr>discard_pending := map_option (\<lambda>p. p(?b := False)) (discard_pending (sbi s))\<rparr>\<rparr>)"
      if "\<not> bfree_bitmap (sbi s) ?b"
      by (rule step [OF discard_safe_pending 1(1)])
        (use False that 1(4,5) in \<open>auto split: if_splits\<close>)
    have skip: "wp (discard_loop E n g ?e) (\<lambda>r s'. discard_safe s s') s"
      if "bfree_bitmap (sbi s) ?b" "?de \<le> ?ds"
      by (rule step [OF refl 1(2)]) (use False that 1(4,5) in auto)
    have issue: "discard_safe s (s\<lparr>trace := (Sb_issue_discard (word_of_int ?ds) (word_of_int (?de - ?ds)), r) # trace s\<rparr>)"
      if "bfree_bitmap (sbi s) ?b" "?ds < ?de" for r
      by (rule discard_safe_issue [OF b(2,3) that(1) 1(5) 1(4) HOL.refl HOL.refl that(2)])
    have again: "wp (discard_loop E n g ?e) (\<lambda>r s'. discard_safe s s') (t\<lparr>sbi := (sbi s)\<lparr>discard_pending :=
        map_option (\<lambda>p. bm_clear p (nat ?ds) (nat (?de - ?ds))) (discard_pending (sbi s))\<rparr>\<rparr>)"
      if "bfree_bitmap (sbi s) ?b" "?ds < ?de"
        "t = s\<lparr>trace := (Sb_issue_discard (word_of_int ?ds) (word_of_int (?de - ?ds)), None) # trace s\<rparr>" for t
      apply (rule step [OF discard_safe_trans [OF issue [OF that(1,2)]] 1(3)])
      using discard_safe_pending [of "\<lambda>p. bm_clear p (nat ?ds) (nat (?de - ?ds))" t]
            apply (simp add: that(3) bm_clear_def)
      using False that 1(4,5) by auto
    show ?thesis
      apply (subst discard_loop.simps)
      using False apply (simp only: wp_simps Let_def if_False de_Morgan_disj upd_pending_def)
      using clear skip issue again [OF _ _ HOL.refl]
      by (auto simp: not_le simp del: of_int_diff split: option.split)
  qed
qed

lemma issue_discards_safe: "wp (simplefs_issue_pending_discards E) (\<lambda>r s'. discard_safe s s') s"
proof -
  have query: "discard_safe s (s\<lparr>trace := (Bdev_discard_granularity, None) # trace s\<rparr>)"
    by (simp add: discard_safe_def shrunk_refl)
  then have "wp (discard_loop E (unat (nr_blocks (sbi s))) (discard_gran_blocks g) 0)
      (\<lambda>r s'. discard_safe s s') (s\<lparr>trace := (Bdev_discard_granularity, None) # trace s\<rparr>)" for g
    by (intro wp_mono [OF discard_loop_safe] discard_safe_trans [OF query])
      (simp_all add: discard_gran_pos)
  moreover have "discard_safe s s" by (simp add: discard_safe_def shrunk_refl)
  ultimately show ?thesis by (simp add: simplefs_issue_pending_discards_def wp_simps)
qed

lemma discard_safe_aframe: "discard_safe s s' \<Longrightarrow> aframe s s'"
  by (simp add: discard_safe_def aframe_def)

lemma discard_safe_shrunk: "discard_safe s s' \<Longrightarrow> shrunk (sbi s) (sbi s')"
  by (simp add: discard_safe_def)

section \<open>What giving back does\<close>

text \<open>When \<open>put_blocks\<close> accepts a range.\<close>

definition puttable :: "simplefs_sb_info \<Rightarrow> u32 \<Rightarrow> u32 \<Rightarrow> bool" where
  "puttable sb bno len \<longleftrightarrow> \<not> bad_range sb bno len
     \<and> \<not> (bno \<le> root_dir_block sb \<and> root_dir_block sb < bno + len)
     \<and> bm_none (bfree_bitmap sb) (unat bno) (unat len)"

definition gave :: "env \<Rightarrow> kst \<Rightarrow> u32 \<Rightarrow> u32 \<Rightarrow> simplefs_sb_info" where
  "gave E s bno len =
     (if puttable (sbi s) bno len \<and> \<not> start_fails E s then give_sb (sbi s) (unat bno) len else sbi s)"

lemma put_free_bits_ok:
  "\<not> bad_range sb bno len \<Longrightarrow>
   put_free_bits m (unat (nr_blocks sb)) (unat bno) (unat len) = (None, bm_set m (unat bno) (unat len))"
  using not_bad_range [of sb bno len] by (auto simp: put_free_bits_def)

lemma put_blocks_spec:
  "wp (put_blocks E bno len) (\<lambda>_ s'. aframe s s' \<and> shrunk (gave E s bno len) (sbi s')) s"
  unfolding put_blocks_def
proof (rule bracket_wp [where P = "\<lambda>_ s2. sbi s2 = gave E s bno len"])
  fix h s1
  assume st: "started s h s1" and sb: "sbi s1 = sbi s" and ok: "\<not> start_fails E s"
  show "wp (if bad_range (sbi s) bno len then ret ()
       else if bno \<le> root_dir_block (sbi s) \<and> root_dir_block (sbi s) < bno + len then ret ()
       else if \<not> bm_none (bfree_bitmap (sbi s)) (unat bno) (unat len) then ret ()
       else let (e, m) = put_free_bits (bfree_bitmap (sbi s)) (unat (nr_blocks (sbi s))) (unat bno) (unat len) in
         if e \<noteq> None then ret ()
         else do {
           upd_sbi (\<lambda>sb. sb\<lparr>bfree_bitmap := m, nr_free_blocks := nr_free_blocks sb + len\<rparr>);
           when_true (s_discard (sbi s)) (upd_pending (\<lambda>p. bm_set p (unat bno) (unat len)));
           p \<leftarrow> simplefs_persist_bitmap E False bno len;
           ret () })
     (\<lambda>_ s2. started s h s2 \<and> sbi s2 = gave E s bno len) s1"
  proof (cases "puttable (sbi s) bno len")
    case True
    then show ?thesis
      apply (simp only: puttable_def if_False not_not simp_thms put_free_bits_ok Let_def prod.case)
      apply (simp add: wp_simps upd_pending_def)
      apply (intro conjI impI; rule persist_started)
      using st ok True by (auto simp: wp_simps gave_def give_sb_def sb)
  next
    case False
    then show ?thesis using st sb by (auto simp: puttable_def gave_def wp_simps)
  qed
next
  show "aframe s s1 \<and> shrunk (gave E s bno len) (sbi s1)" if "sframe s s1" "start_fails E s" for s1
    using that by (simp add: gave_def sframe_aframe sframe_sbi shrunk_refl)
next
  fix s2 st s3
  assume P: "sbi s2 = gave E s bno len" and stopped: "stopped s s2 st s3"
  have "wp (simplefs_issue_pending_discards E) (\<lambda>_ s'. aframe s s' \<and> shrunk (gave E s bno len) (sbi s')) s3"
    using P stopped
    by (intro wp_mono [OF issue_discards_safe])
      (auto simp: stopped_def dest: discard_safe_aframe discard_safe_shrunk intro: afr.trans)
  then show "wp (do {
      journal \<leftarrow> gets s_journal;
      when_true (st = None \<and> s_discard (sbi s) \<and> \<not> has_jbd2 journal)
        (do { r \<leftarrow> simplefs_issue_pending_discards E; ret () }) })
     (\<lambda>_ s'. aframe s s' \<and> shrunk (gave E s bno len) (sbi s')) s3"
    using P stopped by (simp add: wp_simps wp_return_fun stopped_def shrunk_refl)
qed

section \<open>The inode allocator\<close>

definition take_ino :: "simplefs_sb_info \<Rightarrow> nat \<Rightarrow> simplefs_sb_info" where
  "take_ino sb q = sb\<lparr>ifree_bitmap := bm_clear (ifree_bitmap sb) q 1, nr_free_inodes := nr_free_inodes sb - 1\<rparr>"

definition give_ino :: "simplefs_sb_info \<Rightarrow> nat \<Rightarrow> simplefs_sb_info" where
  "give_ino sb q = sb\<lparr>ifree_bitmap := bm_set (ifree_bitmap sb) q 1, nr_free_inodes := nr_free_inodes sb + 1\<rparr>"

definition took_ino :: "kst \<Rightarrow> u32 \<Rightarrow> kst \<Rightarrow> bool" where
  "took_ino s r s' \<longleftrightarrow> r = 0 \<and> sbi s' = sbi s \<or>
     (\<exists>q. 0 < q \<and> q < unat (nr_inodes (sbi s)) \<and> ifree_bitmap (sbi s) q \<and> sbi s' = take_ino (sbi s) q
       \<and> (r = of_nat q \<or> r = 0 \<and> failed s'))"

lemma get_free_inode_spec:
  assumes "\<not> ifree_bitmap (sbi s) 0"
  shows "wp (get_free_inode E) (\<lambda>r s'. aframe s s' \<and> took_ino s r s') s"
proof -
  obtain q m where qm: "get_first_free_bits (ifree_bitmap (sbi s)) (unat (nr_inodes (sbi s))) 1 = (q, m)"
    by fastforce
  let ?body = "\<lambda>sb. let (r, m) = get_first_free_bits (ifree_bitmap sb) (unat (nr_inodes sb)) 1 in do {
       upd_sbi (\<lambda>sb. sb\<lparr>ifree_bitmap := m\<rparr>);
       if r \<noteq> 0 then do {
         upd_sbi (\<lambda>sb. sb\<lparr>nr_free_inodes := nr_free_inodes sb - 1\<rparr>);
         p \<leftarrow> simplefs_persist_bitmap E True (of_nat r) 1;
         ret (if p \<noteq> None then 0 else of_nat r)
       } else ret 0 }"
  show ?thesis unfolding get_free_inode_def
  proof (rule bracket_wp [where P = "took_ino s"])
    fix h s1
    assume st: "started s h s1" and sb: "sbi s1 = sbi s"
    show "wp (?body (sbi s)) (\<lambda>r s2. started s h s2 \<and> took_ino s r s2) s1"
    proof (cases "q = 0")
      case True
      then have "m = ifree_bitmap (sbi s)"
        using get_first_free_bits_none qm assms unfolding get_first_free_bits_def by blast
      then show ?thesis using qm True st sb by (simp add: wp_simps Let_def took_ino_def)
    next
      case False
      note b = get_first_free_bits_bound [OF qm [unfolded get_first_free_bits_def] False]
      have "q < unat (nr_inodes (sbi s))" "ifree_bitmap (sbi s) q" using b by (auto simp: bm_all_iff)
      then have "took_ino s (of_nat q) s2 \<and> (s_shutdown s2 \<longrightarrow> took_ino s 0 s2)"
        if "sbi s2 = take_ino (sbi s) q" for s2
        using that False by (auto simp: took_ino_def failed_def)
      then show ?thesis
        using b
        apply (simp only: qm Let_def prod.case wp_simps False if_True not_False_eq_True)
        apply (rule persist_started)
        using st by (auto simp: wp_simps take_ino_def sb)
    qed
  next
    show "aframe s s1 \<and> took_ino s 0 s1" if "sframe s s1" for s1
      using that by (simp add: took_ino_def sframe_aframe sframe_sbi)
  next
    show "wp (ret (if st \<noteq> None then 0 else x)) (\<lambda>r s'. aframe s s' \<and> took_ino s r s') s3"
      if "took_ino s x s2" "stopped s s2 st s3" for x s2 st s3
      using that unfolding took_ino_def failed_def stopped_def by (cases st) (auto simp: wp_simps)
  qed
qed

definition ino_puttable :: "simplefs_sb_info \<Rightarrow> u32 \<Rightarrow> bool" where
  "ino_puttable sb ino \<longleftrightarrow> ino \<noteq> 0 \<and> ino < nr_inodes sb \<and> \<not> ifree_bitmap sb (unat ino)"

definition gave_ino :: "env \<Rightarrow> kst \<Rightarrow> u32 \<Rightarrow> simplefs_sb_info" where
  "gave_ino E s ino =
     (if ino_puttable (sbi s) ino \<and> \<not> start_fails E s then give_ino (sbi s) (unat ino) else sbi s)"

lemma put_inode_spec: "wp (put_inode E ino) (\<lambda>_ s'. aframe s s' \<and> sbi s' = gave_ino E s ino) s"
  unfolding put_inode_def
proof (rule bracket_wp [where P = "\<lambda>_ s2. sbi s2 = gave_ino E s ino"])
  fix h s1
  assume st: "started s h s1" and sb: "sbi s1 = sbi s" and ok: "\<not> start_fails E s"
  show "wp (if ino = 0 \<or> ino \<ge> nr_inodes (sbi s) then ret ()
       else if ifree_bitmap (sbi s) (unat ino) then ret ()
       else let (e, m) = put_free_bits (ifree_bitmap (sbi s)) (unat (nr_inodes (sbi s))) (unat ino) 1 in
         if e \<noteq> None then ret ()
         else do {
           upd_sbi (\<lambda>sb. sb\<lparr>ifree_bitmap := m, nr_free_inodes := nr_free_inodes sb + 1\<rparr>);
           p \<leftarrow> simplefs_persist_bitmap E True ino 1;
           ret () })
     (\<lambda>_ s2. started s h s2 \<and> sbi s2 = gave_ino E s ino) s1"
  proof (cases "ino_puttable (sbi s) ino")
    case True
    then have "put_free_bits (ifree_bitmap (sbi s)) (unat (nr_inodes (sbi s))) (unat ino) 1
        = (None, bm_set (ifree_bitmap (sbi s)) (unat ino) 1)"
      by (auto simp: put_free_bits_def ino_puttable_def word_less_nat_alt)
    then show ?thesis using True st ok
      by (auto simp: ino_puttable_def wp_simps Let_def gave_ino_def give_ino_def sb not_le
          intro!: persist_started)
  next
    case False
    then show ?thesis using st sb by (auto simp: ino_puttable_def gave_ino_def wp_simps not_le)
  qed
next
  show "aframe s s1 \<and> sbi s1 = gave_ino E s ino" if "sframe s s1" "start_fails E s" for s1
    using that by (simp add: gave_ino_def sframe_aframe sframe_sbi)
qed (simp add: wp_simps stopped_def)

end
