(* ===== verification/SFS_AllocProps.thy ===== *)
theory SFS_AllocProps
  imports SFS_AllocSpec
begin

text \<open>
  The properties of the allocators: the invariant that ties bitmaps, counters and pending discards
  together over any sequence of operations and any kernel behaviour; the contract \<open>allocator\<close>,
  interpreted for blocks and for inodes; and what each operation does on each branch.
\<close>

section \<open>The invariant\<close>

definition bitmap_ok :: "simplefs_sb_info \<Rightarrow> bool" where
  "bitmap_ok sb \<longleftrightarrow>
     unat (nr_free_blocks sb) = bm_weight (bfree_bitmap sb) (unat (nr_blocks sb)) \<and>
     unat (nr_free_inodes sb) = bm_weight (ifree_bitmap sb) (unat (nr_inodes sb)) \<and>
     \<not> bfree_bitmap sb 0 \<and> \<not> ifree_bitmap sb 0 \<and> \<not> bfree_bitmap sb (unat (root_dir_block sb)) \<and>
     (\<forall>p i. discard_pending sb = Some p \<longrightarrow> p i \<longrightarrow> bfree_bitmap sb i)"

lemma unat_add_below:
  fixes a b c :: u32
  assumes "unat a + unat b \<le> unat c"
  shows "unat (a + b) = unat a + unat b"
proof -
  have "unat a + unat b < 4294967296" by (rule le_less_trans [OF assms unat_lt_u32])
  then show ?thesis by (subst unat_add_no_wrap) simp_all
qed

lemma bm_one: "bm_all m q (Suc 0) = m q" "bm_none m q (Suc 0) = (\<not> m q)"
  by (auto simp: bm_all_iff bm_none_iff less_Suc_eq_le dest: le_antisym)

lemma sub_weight:
  fixes c len :: u32
  assumes "unat c = bm_weight m n" "bm_all m q (unat len)" "q + unat len \<le> n"
  shows "unat (c - len) = bm_weight (bm_clear m q (unat len)) n"
proof -
  have w: "bm_weight (bm_clear m q (unat len)) n + unat len = unat c"
    using bm_weight_clear [OF assms(2,3)] assms(1) by simp
  then have "len \<le> c" by (simp add: word_le_nat_alt)
  then show ?thesis using w by (simp add: unat_sub_le)
qed

lemma add_weight:
  fixes c len nr :: u32
  assumes "unat c = bm_weight m (unat nr)" "bm_none m q (unat len)" "q + unat len \<le> unat nr"
  shows "unat (c + len) = bm_weight (bm_set m q (unat len)) (unat nr)"
proof -
  have w: "bm_weight (bm_set m q (unat len)) (unat nr) = unat c + unat len"
    using bm_weight_set [OF assms(2,3)] assms(1) by simp
  moreover have "bm_weight (bm_set m q (unat len)) (unat nr) < 4294967296"
    by (rule le_less_trans [OF bm_weight_le unat_lt_u32])
  ultimately show ?thesis by (subst unat_add_no_wrap) simp_all
qed

lemma root_dir_block_upd [simp]:
  "root_dir_block (sb\<lparr>bfree_bitmap := a\<rparr>) = root_dir_block sb"
  "root_dir_block (sb\<lparr>ifree_bitmap := a\<rparr>) = root_dir_block sb"
  "root_dir_block (sb\<lparr>nr_free_blocks := c\<rparr>) = root_dir_block sb"
  "root_dir_block (sb\<lparr>nr_free_inodes := c\<rparr>) = root_dir_block sb"
  "root_dir_block (sb\<lparr>discard_pending := d\<rparr>) = root_dir_block sb"
  by (simp_all add: root_dir_block_def)

lemma bitmap_ok_take: "bitmap_ok sb \<Longrightarrow> free_run sb q len \<Longrightarrow> bitmap_ok (take_sb sb q len)"
  using sub_weight [of "nr_free_blocks sb" "bfree_bitmap sb" "unat (nr_blocks sb)" q len]
  by (auto simp: bitmap_ok_def take_sb_def free_run_def) (auto simp: bm_clear_def split: if_splits)

lemma puttable_root:
  assumes "puttable sb bno len"
  shows "\<not> (unat bno \<le> unat (root_dir_block sb) \<and> unat (root_dir_block sb) < unat bno + unat len)"
proof -
  have "unat bno + unat len \<le> unat (nr_blocks sb)"
    using assms not_bad_range by (simp add: puttable_def)
  then have "unat (bno + len) = unat bno + unat len" by (rule unat_add_below)
  then show ?thesis using assms by (simp add: puttable_def word_le_nat_alt word_less_nat_alt)
qed

lemma bitmap_ok_give:
  assumes "bitmap_ok sb" "puttable sb bno len"
  shows "bitmap_ok (give_sb sb (unat bno) len)"
proof -
  have "unat (nr_free_blocks sb + len) = bm_weight (bm_set (bfree_bitmap sb) (unat bno) (unat len)) (unat (nr_blocks sb))"
    using assms not_bad_range by (intro add_weight) (auto simp: bitmap_ok_def puttable_def)
  moreover have "\<not> bm_set (bfree_bitmap sb) (unat bno) (unat len) (unat (root_dir_block sb))"
    using puttable_root [OF assms(2)] assms(1) by (auto simp: bm_set_def bitmap_ok_def)
  moreover have "\<not> bm_set (bfree_bitmap sb) (unat bno) (unat len) 0"
    using assms not_bad_range(1) [of sb bno len] by (auto simp: bm_set_def bitmap_ok_def puttable_def)
  ultimately show ?thesis
    using assms(1) by (auto simp: bitmap_ok_def give_sb_def) (auto simp: bm_set_def)
qed

lemma bitmap_ok_shrunk:
  assumes "bitmap_ok sb" "shrunk sb sb'"
  shows "bitmap_ok sb'"
proof -
  obtain p where p: "sb' = sb\<lparr>discard_pending := p\<rparr>" using assms(2) unfolding shrunk_def by blast
  have "bfree_bitmap sb i" if "p = Some p'" "p' i" for p' i
  proof -
    have "pending_of sb i" using assms(2) that p unfolding shrunk_def by (simp add: pending_of_def)
    then show ?thesis using assms(1) by (auto simp: pending_of_def bitmap_ok_def split: option.splits)
  qed
  then show ?thesis using assms(1) p by (simp add: bitmap_ok_def)
qed

lemma bitmap_ok_take_ino:
  assumes "bitmap_ok sb" "q < unat (nr_inodes sb)" "ifree_bitmap sb q"
  shows "bitmap_ok (take_ino sb q)"
  using assms sub_weight [of "nr_free_inodes sb" "ifree_bitmap sb" "unat (nr_inodes sb)" q 1]
  by (simp add: bitmap_ok_def take_ino_def bm_one) (simp add: bm_clear_def)

lemma bitmap_ok_give_ino:
  assumes "bitmap_ok sb" "ino_puttable sb ino"
  shows "bitmap_ok (give_ino sb (unat ino))"
  using assms add_weight [of "nr_free_inodes sb" "ifree_bitmap sb" "nr_inodes sb" "unat ino" 1]
  by (simp add: bitmap_ok_def give_ino_def ino_puttable_def bm_one word_less_nat_alt)
    (simp add: bm_set_def unat_eq_zero)

section \<open>Sequences of operations\<close>

datatype alloc_op =
    Get_inode
  | Put_inode u32
  | Get_blocks u32
  | Take_blocks u32 u32
  | Put_blocks u32 u32
  | Discards

text \<open>One call of an allocator entry point, its result dropped.\<close>

definition dropping :: "(kst, 'a) state \<Rightarrow> kst \<Rightarrow> kst" where
  "dropping m s = snd (run_state m s)"

fun run_op :: "env \<Rightarrow> alloc_op \<Rightarrow> kst \<Rightarrow> kst" where
  "run_op E Get_inode = dropping (get_free_inode E)"
| "run_op E (Put_inode ino) = dropping (put_inode E ino)"
| "run_op E (Get_blocks len) = dropping (get_free_blocks E len)"
| "run_op E (Take_blocks bno len) = dropping (simplefs_take_exact_blocks E bno len)"
| "run_op E (Put_blocks bno len) = dropping (put_blocks E bno len)"
| "run_op E Discards = dropping (simplefs_issue_pending_discards E)"

lemma dropping_wp: "wp m (\<lambda>_. P) s \<Longrightarrow> P (dropping m s)"
  by (simp add: dropping_def wp_def split_beta)

lemma took_ok: "took s len r s' \<Longrightarrow> bitmap_ok (sbi s) \<Longrightarrow> bitmap_ok (sbi s')"
  by (auto simp: took_def intro: bitmap_ok_take)

lemma took_ino_ok: "took_ino s r s' \<Longrightarrow> bitmap_ok (sbi s) \<Longrightarrow> bitmap_ok (sbi s')"
  by (auto simp: took_ino_def intro: bitmap_ok_take_ino)

lemma took_exact_ok: "took_exact s bno len ok s' \<Longrightarrow> bitmap_ok (sbi s) \<Longrightarrow> bitmap_ok (sbi s')"
  by (auto simp: took_exact_def intro: bitmap_ok_take)

lemma gave_ok: "bitmap_ok (sbi s) \<Longrightarrow> bitmap_ok (gave E s bno len)"
  by (simp add: gave_def bitmap_ok_give)

lemma gave_ino_ok: "bitmap_ok (sbi s) \<Longrightarrow> bitmap_ok (gave_ino E s ino)"
  by (simp add: gave_ino_def bitmap_ok_give_ino)

lemma bitmap_ok_zero: "bitmap_ok sb \<Longrightarrow> \<not> bfree_bitmap sb 0" "bitmap_ok sb \<Longrightarrow> \<not> ifree_bitmap sb 0"
  by (simp_all add: bitmap_ok_def)

lemma run_op_ok:
  assumes "bitmap_ok (sbi s)"
  shows "bitmap_ok (sbi (run_op E a s)) \<and> aframe s (run_op E a s)"
proof (cases a)
  case Get_inode
  show ?thesis unfolding Get_inode run_op.simps
    by (rule dropping_wp, rule wp_mono [OF get_free_inode_spec])
      (use assms in \<open>auto simp: bitmap_ok_zero intro: took_ino_ok\<close>)
next
  case (Put_inode ino)
  show ?thesis unfolding Put_inode run_op.simps
    by (rule dropping_wp, rule wp_mono [OF put_inode_spec]) (simp add: gave_ino_ok assms)
next
  case (Get_blocks len)
  show ?thesis unfolding Get_blocks run_op.simps
    by (rule dropping_wp, rule wp_mono [OF get_free_blocks_spec])
      (use assms in \<open>auto simp: bitmap_ok_zero intro: took_ok\<close>)
next
  case (Take_blocks bno len)
  show ?thesis unfolding Take_blocks run_op.simps
    by (rule dropping_wp, rule wp_mono [OF take_exact_spec]) (blast intro: took_exact_ok assms)
next
  case (Put_blocks bno len)
  show ?thesis unfolding Put_blocks run_op.simps
    by (rule dropping_wp, rule wp_mono [OF put_blocks_spec])
      (blast intro: bitmap_ok_shrunk gave_ok assms)
next
  case Discards
  show ?thesis unfolding Discards run_op.simps
    by (rule dropping_wp, rule wp_mono [OF issue_discards_safe])
      (blast intro: bitmap_ok_shrunk assms dest: discard_safe_shrunk discard_safe_aframe)
qed

lemma run_ops_ok:
  "bitmap_ok (sbi s) \<Longrightarrow> bitmap_ok (sbi (fold (run_op E) ops s)) \<and> aframe s (fold (run_op E) ops s)"
proof (induction ops arbitrary: s)
  case (Cons a ops)
  note step = run_op_ok [OF Cons.prems, of E a]
  show ?case using Cons.IH [OF conjunct1 [OF step]] afr.trans [OF conjunct2 [OF step]] by simp
qed (simp add: afr.refl)

section \<open>The contract of an allocator\<close>

text \<open>
  A client of an allocator requests ranges and frees what it holds. \<open>client\<close> runs such a
  client; a range is a first number and a request, whose width the allocator knows.
\<close>

datatype 'q client_op = Request 'q | Release nat

fun client :: "('q \<Rightarrow> ('s, u32) state) \<Rightarrow> (u32 \<Rightarrow> 'q \<Rightarrow> ('s, unit) state) \<Rightarrow> 'q client_op list
    \<Rightarrow> (u32 \<times> 'q) list \<times> 's \<Rightarrow> (u32 \<times> 'q) list \<times> 's" where
  "client alloc dealloc [] (live, s) = (live, s)"
| "client alloc dealloc (Request q # ops) (live, s) =
     (let (r, s') = run_state (alloc q) s
      in client alloc dealloc ops (if r = 0 then live else (r, q) # live, s'))"
| "client alloc dealloc (Release i # ops) (live, s) =
     (if i < length live
      then client alloc dealloc ops (take i live @ drop (Suc i) live,
             snd (run_state (dealloc (fst (live ! i)) (snd (live ! i))) s))
      else client alloc dealloc ops (live, s))"

definition span :: "('q \<Rightarrow> nat) \<Rightarrow> u32 \<times> 'q \<Rightarrow> nat set" where
  "span width x = {unat (fst x) ..< unat (fst x) + width (snd x)}"

definition apart :: "('q \<Rightarrow> nat) \<Rightarrow> nat set \<Rightarrow> (u32 \<times> 'q) list \<Rightarrow> bool" where
  "apart width free_set live \<longleftrightarrow>
     sorted_wrt (\<lambda>x y. span width x \<inter> span width y = {}) live \<and> (\<forall>x\<in>set live. span width x \<inter> free_set = {})"

locale allocator =
  fixes free_set :: "'s \<Rightarrow> nat set"
    and inv :: "'s \<Rightarrow> bool"
    and width :: "'q \<Rightarrow> nat"
    and alloc :: "'q \<Rightarrow> ('s, u32) state"
    and dealloc :: "u32 \<Rightarrow> 'q \<Rightarrow> ('s, unit) state"
  assumes alloc_law: "inv s \<Longrightarrow> run_state (alloc q) s = (r, s') \<Longrightarrow> inv s' \<and>
      (r = 0 \<and> free_set s' \<subseteq> free_set s \<or>
       r \<noteq> 0 \<and> span width (r, q) \<subseteq> free_set s \<and> free_set s' = free_set s - span width (r, q))"
    and dealloc_law: "inv s \<Longrightarrow> run_state (dealloc r q) s = (u, s') \<Longrightarrow> inv s' \<and>
      free_set s' \<subseteq> free_set s \<union> span width (r, q)"
begin

lemma alloc_apart:
  assumes "inv s" "apart width (free_set s) live" "run_state (alloc q) s = (r, s')"
  shows "apart width (free_set s') (if r = 0 then live else (r, q) # live)"
  using alloc_law [OF assms(1,3)] assms(2) unfolding apart_def by auto

lemma sorted_wrt_drop_nth:
  assumes "sorted_wrt P xs" "i < length xs"
  shows "sorted_wrt P (take i xs @ drop (Suc i) xs)
    \<and> (\<forall>x\<in>set (take i xs). P x (xs ! i)) \<and> (\<forall>x\<in>set (drop (Suc i) xs). P (xs ! i) x)"
proof -
  have "sorted_wrt P (take i xs @ xs ! i # drop (Suc i) xs)"
    using assms by (simp flip: id_take_nth_drop)
  then show ?thesis by (simp add: sorted_wrt_append)
qed

lemma dealloc_apart:
  assumes "inv s" "apart width (free_set s) live" "i < length live"
    and "run_state (dealloc (fst (live ! i)) (snd (live ! i))) s = (u, s')"
  shows "apart width (free_set s') (take i live @ drop (Suc i) live)"
proof -
  have sub: "free_set s' \<subseteq> free_set s \<union> span width (live ! i)"
    using dealloc_law [OF assms(1,4)] by simp
  note parts = sorted_wrt_drop_nth [OF _ assms(3)]
  have away: "\<forall>x\<in>set (take i live @ drop (Suc i) live). span width x \<inter> span width (live ! i) = {}"
    using parts assms(2) unfolding apart_def by auto
  have "\<forall>x\<in>set live. span width x \<inter> free_set s = {}" using assms(2) by (simp add: apart_def)
  then have "\<forall>x\<in>set (take i live @ drop (Suc i) live). span width x \<inter> free_set s = {}"
    by (auto dest: in_set_takeD in_set_dropD)
  then show ?thesis using assms(2) sub away parts unfolding apart_def by blast
qed

lemma client_apart:
  "inv s \<Longrightarrow> apart width (free_set s) live \<Longrightarrow> client alloc dealloc ops (live, s) = (live', s') \<Longrightarrow>
   inv s' \<and> apart width (free_set s') live'"
proof (induction ops arbitrary: live s)
  case (Cons a ops)
  show ?case
  proof (cases a)
    case (Request q)
    obtain r t where run: "run_state (alloc q) s = (r, t)" by fastforce
    have "client alloc dealloc ops (if r = 0 then live else (r, q) # live, t) = (live', s')"
      using Cons.prems(3) by (simp add: Request run)
    then show ?thesis
      using Cons.IH alloc_law [OF Cons.prems(1) run] alloc_apart [OF Cons.prems(1,2) run] by blast
  next
    case (Release i)
    obtain u t where run: "run_state (dealloc (fst (live ! i)) (snd (live ! i))) s = (u, t)"
      by (rule prod.exhaust)
    show ?thesis
    proof (cases "i < length live")
      case True
      then have "client alloc dealloc ops (take i live @ drop (Suc i) live, t) = (live', s')"
        using Cons.prems(3) by (simp add: Release run)
      then show ?thesis
        using Cons.IH dealloc_law [OF Cons.prems(1) run] dealloc_apart [OF Cons.prems(1,2) True run] by blast
    qed (use Cons Release in simp)
  qed
qed simp

end

definition free_blocks :: "kst \<Rightarrow> nat set" where
  "free_blocks s = {i. i < unat (nr_blocks (sbi s)) \<and> bfree_bitmap (sbi s) i}"

definition free_inodes :: "kst \<Rightarrow> nat set" where
  "free_inodes s = {i. i < unat (nr_inodes (sbi s)) \<and> ifree_bitmap (sbi s) i}"

definition state_ok :: "kst \<Rightarrow> bool" where
  "state_ok s = bitmap_ok (sbi s)"

lemma free_blocks_take:
  "sbi s' = take_sb (sbi s) q len \<Longrightarrow> free_blocks s' = free_blocks s - {q ..< q + unat len}"
  by (auto simp: free_blocks_def take_sb_def bm_clear_def)

lemma free_blocks_give: "sbi s' = gave E s bno len \<Longrightarrow>
   free_blocks s' = (if puttable (sbi s) bno len \<and> \<not> start_fails E s
     then free_blocks s \<union> {unat bno ..< unat bno + unat len} else free_blocks s)"
  using not_bad_range(3) [of "sbi s" bno len]
  by (auto simp: free_blocks_def gave_def give_sb_def bm_set_def puttable_def)

lemma free_blocks_shrunk: "shrunk sb (sbi s') \<Longrightarrow> sbi s = sb \<Longrightarrow> free_blocks s' = free_blocks s"
  using shrunk_fields [of sb "sbi s'"] by (simp add: free_blocks_def)

lemma free_run_unat:
  assumes "free_run sb q len"
  shows "unat (of_nat q :: u32) = q" "(of_nat q :: u32) \<noteq> 0"
proof -
  have "q < 4294967296"
    using assms unat_lt_u32 [of "nr_blocks sb"] unfolding free_run_def by linarith
  then show u: "unat (of_nat q :: u32) = q" by (simp add: unat_of_nat_u32)
  show "(of_nat q :: u32) \<noteq> 0" using u assms by (auto simp: free_run_def)
qed

lemma free_run_free: "free_run (sbi s) q len \<Longrightarrow> {q ..< q + unat len} \<subseteq> free_blocks s"
  by (auto simp: free_run_def free_blocks_def bm_all_iff)

lemma took_free:
  assumes "took s q r s'"
  shows "r = 0 \<and> free_blocks s' \<subseteq> free_blocks s \<or>
    r \<noteq> 0 \<and> span unat (r, q) \<subseteq> free_blocks s \<and> free_blocks s' = free_blocks s - span unat (r, q)"
proof (cases "r = 0")
  case True
  then show ?thesis using assms free_blocks_take
    by (auto simp: took_def free_blocks_def take_sb_def bm_clear_def)
next
  case False
  then obtain b where run: "free_run (sbi s) b q" and sb: "sbi s' = take_sb (sbi s) b q" and r: "r = of_nat b"
    using assms unfolding took_def by blast
  show ?thesis using False free_blocks_take [OF sb] free_run_free [OF run]
    by (simp add: span_def r free_run_unat [OF run])
qed

interpretation blk: allocator free_blocks state_ok unat "get_free_blocks E" "put_blocks E" for E
proof
  fix s q r s'
  assume inv: "state_ok s" and run: "run_state (get_free_blocks E q) s = (r, s')"
  have "took s q r s'"
    using wp_run [OF get_free_blocks_spec run] inv by (simp add: state_ok_def bitmap_ok_zero)
  then show "state_ok s' \<and> (r = 0 \<and> free_blocks s' \<subseteq> free_blocks s \<or>
      r \<noteq> 0 \<and> span unat (r, q) \<subseteq> free_blocks s \<and> free_blocks s' = free_blocks s - span unat (r, q))"
    using took_free took_ok inv by (simp add: state_ok_def)
next
  fix s r q u s'
  assume inv: "state_ok s" and run: "run_state (put_blocks E r q) s = (u, s')"
  have sh: "shrunk (gave E s r q) (sbi s')" using wp_run [OF put_blocks_spec run] by blast
  have "free_blocks s' = free_blocks (s\<lparr>sbi := gave E s r q\<rparr>)"
    by (rule free_blocks_shrunk [OF sh]) simp
  then have "free_blocks s' \<subseteq> free_blocks s \<union> span unat (r, q)"
    using free_blocks_give [of "s\<lparr>sbi := gave E s r q\<rparr>" E s r q] by (auto simp: span_def split: if_splits)
  then show "state_ok s' \<and> free_blocks s' \<subseteq> free_blocks s \<union> span unat (r, q)"
    using bitmap_ok_shrunk [OF gave_ok sh] inv by (simp add: state_ok_def)
qed

lemma take_ino_unat:
  assumes "0 < q" "q < unat (nr_inodes sb)"
  shows "unat (of_nat q :: u32) = q" "(of_nat q :: u32) \<noteq> 0"
proof -
  have "q < 4294967296" using assms(2) unat_lt_u32 [of "nr_inodes sb"] by linarith
  then show u: "unat (of_nat q :: u32) = q" by (simp add: unat_of_nat_u32)
  show "(of_nat q :: u32) \<noteq> 0" using u assms(1) by auto
qed

lemma free_inodes_take: "sbi s' = take_ino (sbi s) q \<Longrightarrow> free_inodes s' = free_inodes s - {q ..< Suc q}"
  by (auto simp: free_inodes_def take_ino_def bm_clear_def)

lemma took_ino_free:
  fixes q :: unit
  assumes "took_ino s r s'"
  shows "r = 0 \<and> free_inodes s' \<subseteq> free_inodes s \<or>
    r \<noteq> 0 \<and> span (\<lambda>_. 1) (r, q) \<subseteq> free_inodes s \<and> free_inodes s' = free_inodes s - span (\<lambda>_. 1) (r, q)"
proof (cases "r = 0")
  case True
  have "sbi s' = sbi s \<Longrightarrow> free_inodes s' = free_inodes s" by (simp add: free_inodes_def)
  then show ?thesis using assms True free_inodes_take unfolding took_ino_def by auto
next
  case False
  then obtain b where b: "0 < b" "b < unat (nr_inodes (sbi s))" "ifree_bitmap (sbi s) b"
      and sb: "sbi s' = take_ino (sbi s) b" and r: "r = of_nat b"
    using assms unfolding took_ino_def by blast
  have "b \<in> free_inodes s" using b by (simp add: free_inodes_def)
  then show ?thesis using False free_inodes_take [OF sb]
    by (simp add: span_def r take_ino_unat [OF b(1,2)])
qed

interpretation ino: allocator free_inodes state_ok "\<lambda>_ :: unit. 1" "\<lambda>_. get_free_inode E" "\<lambda>r _. put_inode E r" for E
proof
  fix s and q :: unit and r s'
  assume inv: "state_ok s" and run: "run_state (get_free_inode E) s = (r, s')"
  have took: "took_ino s r s'"
    using wp_run [OF get_free_inode_spec run] inv by (simp add: state_ok_def bitmap_ok_zero)
  have "state_ok s'" using took inv took_ino_ok by (simp add: state_ok_def)
  then show "state_ok s' \<and> (r = 0 \<and> free_inodes s' \<subseteq> free_inodes s \<or>
      r \<noteq> 0 \<and> span (\<lambda>_. 1) (r, q) \<subseteq> free_inodes s \<and> free_inodes s' = free_inodes s - span (\<lambda>_. 1) (r, q))"
    using took_ino_free [OF took] by blast
next
  fix s r and q :: unit and u s'
  assume inv: "state_ok s" and run: "run_state (put_inode E r) s = (u, s')"
  have "sbi s' = gave_ino E s r" using wp_run [OF put_inode_spec run] by blast
  then show "state_ok s' \<and> free_inodes s' \<subseteq> free_inodes s \<union> span (\<lambda>_. 1) (r, q)"
    using inv gave_ino_ok [of s E r]
    by (auto simp: state_ok_def span_def free_inodes_def gave_ino_def give_ino_def bm_set_def split: if_splits)
qed

section \<open>Properties of the allocators\<close>

text \<open>
  C10. Over any sequence of allocator calls (inodes and blocks taken and given back, exact blocks
  taken, discards issued), with any arguments and however the kernel answers or fails in between, the
  free counters stay equal to the number of free bits, block 0, inode 0 and the block of the root
  directory are never free, every pending discard is for a free block, and the journal handle is left
  as it was found.
\<close>
theorem alloc_sequence_invariant:
  assumes "bitmap_ok (sbi s)" "handle_ok s"
  shows "bitmap_ok (sbi (fold (run_op E) ops s)) \<and> s_journal (fold (run_op E) ops s) = s_journal s"
  using run_ops_ok [OF assms(1), of E ops] assms(2) by (simp add: aframe_def)

lemma bitmap_ok_sbi0: "bitmap_ok sbi0"
proof -
  have b: "filter (\<lambda>i. 5 \<le> i) [0..<40] = [5..<40]" and i: "filter ((<) 0) [0..<39 :: nat] = [1..<39]"
    by (simp_all add: upt_rec)
  show ?thesis unfolding bitmap_ok_def by (simp add: sbi0_def bm_weight_def b i root_dir_block_def)
qed

theorem alloc_sequence_invariant_witness:
  "bitmap_ok (sbi (fold (run_op env_ok) [Get_blocks 4, Get_inode, Put_blocks 5 2, Take_blocks 20 3,
     Put_inode 1, Put_blocks 5 2, Discards] kst1))"
  by (rule conjunct1 [OF alloc_sequence_invariant])
    (simp_all add: kst1_def kst0_def handle_ok_def bitmap_ok_sbi0)

text \<open>
  C11. No block is handed out twice: a client that requests ranges from \<open>get_free_blocks\<close> and
  returns ranges it holds with \<open>put_blocks\<close>, in any order and under any failures, always holds
  ranges that are pairwise disjoint and disjoint from the free blocks.
\<close>
theorem blocks_never_shared:
  assumes "bitmap_ok (sbi s)" "client (get_free_blocks E) (put_blocks E) ops ([], s) = (live, s')"
  shows "apart unat (free_blocks s') live"
proof -
  have "apart (unat :: u32 \<Rightarrow> nat) (free_blocks s) []" by (simp add: apart_def)
  then show ?thesis using blk.client_apart [OF _ _ assms(2)] assms(1) by (simp add: state_ok_def)
qed

theorem blocks_never_shared_witness:
  "\<exists>live s'. client (get_free_blocks env_ok) (put_blocks env_ok) [Request 3, Request 2, Release 1, Request 4]
     ([], kst0) = (live, s') \<and> apart unat (free_blocks s') live"
  using blocks_never_shared [of kst0 env_ok "[Request 3, Request 2, Release 1, Request 4]"] bitmap_ok_sbi0
  by (cases "client (get_free_blocks env_ok) (put_blocks env_ok) [Request 3, Request 2, Release 1, Request 4]
     ([], kst0)") (auto simp: kst0_def)

text \<open>
  C21. The same for inode numbers: \<open>get_free_inode\<close> never returns a number that is still held.
\<close>
theorem inodes_never_shared:
  assumes "bitmap_ok (sbi s)"
    and "client (\<lambda>_ :: unit. get_free_inode E) (\<lambda>r _. put_inode E r) ops ([], s) = (live, s')"
  shows "distinct (map (unat \<circ> fst) live) \<and> (\<forall>x\<in>set live. unat (fst x) \<notin> free_inodes s')"
proof -
  have "apart (\<lambda>_ :: unit. 1) (free_inodes s) []" by (simp add: apart_def)
  then have "apart (\<lambda>_ :: unit. 1) (free_inodes s') live"
    using ino.client_apart [OF _ _ assms(2)] assms(1) by (simp add: state_ok_def)
  then show ?thesis
    by (auto simp: apart_def span_def distinct_map_filter distinct_conv_nth sorted_wrt_iff_nth_less
        linorder_neq_iff)
qed

theorem inodes_never_shared_witness:
  "\<exists>live s'. client (\<lambda>_ :: unit. get_free_inode env_ok) (\<lambda>r _. put_inode env_ok r)
       [Request (), Request (), Release 0, Request ()] ([], kst0) = (live, s')
     \<and> distinct (map (unat \<circ> fst) live)"
  using inodes_never_shared [of kst0 env_ok "[Request (), Request (), Release 0, Request ()]"] bitmap_ok_sbi0
  by (cases "client (\<lambda>_ :: unit. get_free_inode env_ok) (\<lambda>r _. put_inode env_ok r)
       [Request (), Request (), Release 0, Request ()] ([], kst0)") (auto simp: kst0_def)

text \<open>
  C22. The one-pass search with a run counter, \<open>get_first_free_bits_from\<close>, returns the same start
  as trying every start in turn: the first run of \<open>len\<close> free bits from \<open>start\<close> on that fits
  below \<open>size\<close>, or 0 when there is none; it clears exactly that run.
\<close>
theorem first_free_bits_is_first_fit:
  "get_first_free_bits_from m sz len start =
     (case first_run m sz len start of Some q \<Rightarrow> (q, bm_clear m q len) | None \<Rightarrow> (0, m))"
  by (simp add: get_first_free_bits_from_def free_bits_loop_first_run)

text \<open>
  C12. What \<open>get_free_blocks\<close> has done when it returns. A non-zero result is the start of a run of
  free blocks inside the device, the whole run is now used, cancelled from the pending discards and
  subtracted from the counter, and nothing else of the superblock changed. A zero result left the
  superblock unchanged, unless the file system has been shut down or a handle failed to stop.
\<close>
theorem get_free_blocks_effect:
  assumes "\<not> bfree_bitmap (sbi s) 0" "run_state (get_free_blocks E len) s = (r, s')"
  shows "(r \<noteq> 0 \<longrightarrow> free_run (sbi s) (unat r) len \<and> sbi s' = take_sb (sbi s) (unat r) len)
    \<and> (r = 0 \<longrightarrow> sbi s' = sbi s \<or> failed s')"
  using wp_run [OF get_free_blocks_spec assms(2)] assms(1) free_run_unat by (auto simp: took_def)

theorem get_free_blocks_effect_witness:
  "let (r, s') = run_state (get_free_blocks env_ok 4) kst1 in
     r \<noteq> 0 \<longrightarrow> sbi s' = take_sb sbi0 (unat r) 4"
  using get_free_blocks_effect [of kst1 env_ok 4, OF _ surjective_pairing]
  by (simp add: kst1_def kst0_def sbi0_def split_beta)

lemma no_journal_start: "s_journal s = None \<Longrightarrow> \<not> s_shutdown s \<Longrightarrow>
   run_state (simplefs_journal_start_sb E n) s = (Inr False, s)"
  by (simp add: simplefs_journal_start_sb_def has_jbd2_def gets_def)

lemma no_journal_persist: "s_journal s = None \<Longrightarrow> run_state (simplefs_persist_bitmap E im b l) s = (None, s)"
  by (simp add: simplefs_persist_bitmap_def simplefs_journal_bitmap_def simplefs_journal_free_counts_def
      gets_def then_if_ok_def)

lemma no_journal_prepare: "s_journal s = None \<Longrightarrow>
   run_state (simplefs_journal_prepare_new_blocks E b l) s = (None, s)"
  by (simp add: simplefs_journal_prepare_new_blocks_def gets_def)

lemma no_journal_stop: "run_state (simplefs_journal_stop E False) s = (None, s)"
  by (simp add: simplefs_journal_stop_def)

lemmas no_journal = no_journal_start no_journal_persist no_journal_prepare no_journal_stop

lemma no_journal_get:
  assumes "s_journal s = None" "\<not> s_shutdown s" "\<not> bfree_bitmap (sbi s) 0"
  shows "run_state (get_free_blocks E len) s =
     (case first_run (bfree_bitmap (sbi s)) (unat (nr_blocks (sbi s))) (unat len) 0 of
        Some q \<Rightarrow> (of_nat q, s\<lparr>sbi := take_sb (sbi s) q len\<rparr>)
      | None \<Rightarrow> (0, s))"
proof -
  let ?m = "bfree_bitmap (sbi s)" and ?n = "unat (nr_blocks (sbi s))"
  show ?thesis
  proof (cases "first_run ?m ?n (unat len) 0")
    case None
    then show ?thesis using assms
      by (simp add: get_free_blocks_def no_journal gets_def upd_sbi_def modify_def
          get_free_blocks_loop.simps [of E ?n len 0] get_first_free_bits_from_def free_bits_loop_first_run)
  next
    case (Some q)
    then have "q \<noteq> 0" using assms(3)
      by (auto simp: first_run_def find_Some_iff bm_all_iff split: if_splits)
    then show ?thesis using assms Some
      by (simp add: get_free_blocks_def no_journal gets_def upd_sbi_def modify_def upd_pending_def
          get_free_blocks_loop.simps [of E ?n len 0] get_first_free_bits_from_def free_bits_loop_first_run take_sb_def)
  qed
qed

lemma puttable_taken:
  assumes "bitmap_ok sb" "free_run sb q len"
  shows "puttable (take_sb sb q len) (of_nat q) len"
proof -
  note u = free_run_unat [OF assms(2)]
  have n: "nr_blocks (take_sb sb q len) = nr_blocks sb" "root_dir_block (take_sb sb q len) = root_dir_block sb"
    by (simp_all add: take_sb_def)
  have q: "q + unat len \<le> unat (nr_blocks sb)" "0 < unat len" using assms(2) by (simp_all add: free_run_def)
  then have "of_nat q < nr_blocks sb" "len \<le> nr_blocks sb - of_nat q" "len \<noteq> 0"
    using u by (auto simp: word_less_nat_alt word_le_nat_alt unat_sub)
  then have range: "\<not> bad_range (take_sb sb q len) (of_nat q) len"
    using u by (auto simp: bad_range_def n)
  have "unat (of_nat q + len) = q + unat len"
    using unat_add_below [of "of_nat q" len "nr_blocks sb"] q u by simp
  moreover have "\<not> (q \<le> unat (root_dir_block sb) \<and> unat (root_dir_block sb) < q + unat len)"
    using assms by (auto simp: bitmap_ok_def free_run_def bm_all_iff)
  ultimately show ?thesis using range u
    by (auto simp: puttable_def n word_le_nat_alt word_less_nat_alt take_sb_def bm_none_iff bm_clear_def)
qed

lemma no_journal_put:
  assumes "s_journal s = None" "\<not> s_shutdown s" "puttable (sbi s) bno len" "\<not> s_discard (sbi s)"
  shows "run_state (put_blocks E bno len) s = ((), s\<lparr>sbi := give_sb (sbi s) (unat bno) len\<rparr>)"
  using assms
  by (auto simp: put_blocks_def no_journal gets_def puttable_def put_free_bits_ok when_true_def
      upd_sbi_def modify_def give_sb_def)



text \<open>
  C14. Giving blocks back: a range that is empty, starts at 0, leaves the device, contains the block
  of the root directory or contains a block that is already free is refused and neither a bit nor the
  counter changes; any other range becomes free, and the counter grows by its length, whenever the
  journal lets the operation start.
\<close>
theorem put_blocks_effect:
  assumes "run_state (put_blocks E bno len) s = (u, s')"
  shows "(bad_range (sbi s) bno len \<or> bno \<le> root_dir_block (sbi s) \<and> root_dir_block (sbi s) < bno + len
        \<or> \<not> bm_none (bfree_bitmap (sbi s)) (unat bno) (unat len) \<longrightarrow>
        bfree_bitmap (sbi s') = bfree_bitmap (sbi s) \<and> nr_free_blocks (sbi s') = nr_free_blocks (sbi s))
    \<and> (puttable (sbi s) bno len \<and> \<not> start_fails E s \<longrightarrow>
        bfree_bitmap (sbi s') = bm_set (bfree_bitmap (sbi s)) (unat bno) (unat len)
        \<and> nr_free_blocks (sbi s') = nr_free_blocks (sbi s) + len)"
proof -
  have "shrunk (gave E s bno len) (sbi s')" using wp_run [OF put_blocks_spec assms] by blast
  then obtain p where "sbi s' = (gave E s bno len)\<lparr>discard_pending := p\<rparr>" unfolding shrunk_def by blast
  then show ?thesis by (auto simp: gave_def give_sb_def puttable_def)
qed

theorem put_blocks_effect_witness:
  "bfree_bitmap (sbi (snd (run_state (put_blocks env_ok 7 2) kst0))) = bfree_bitmap sbi0
   \<and> bfree_bitmap (sbi (snd (run_state (put_blocks env_ok 4 1) kst0))) = bfree_bitmap sbi0"
  using put_blocks_effect [where E = env_ok and bno = 7 and len = 2 and s = kst0, OF surjective_pairing]
    put_blocks_effect [where E = env_ok and bno = 4 and len = 1 and s = kst0, OF surjective_pairing]
  by (simp add: kst0_def sbi0_def bm_none_def root_dir_block_def)

text \<open>
  C16. Online discard is safe: every block in every discard that
  \<open>simplefs_issue_pending_discards\<close> sends to the device is inside the device, free, and was
  pending, whatever the discard granularity of the device is; no bitmap bit other than pending ones
  and no cached block changes.
\<close>
theorem discards_hit_free_blocks_only:
  assumes "run_state (simplefs_issue_pending_discards E) s = (r, s')"
  shows "\<exists>tr. trace s' = tr @ trace s \<and> cache s' = cache s \<and> bfree_bitmap (sbi s') = bfree_bitmap (sbi s) \<and>
    (\<forall>st l res i. (Sb_issue_discard st l, res) \<in> set tr \<and> unat st \<le> i \<and> i < unat st + unat l \<longrightarrow>
       i < unat (nr_blocks (sbi s)) \<and> bfree_bitmap (sbi s) i \<and> pending_of (sbi s) i)"
  using wp_run [OF issue_discards_safe assms] shrunk_fields(1)
  unfolding discard_safe_def discardable_def by blast

definition kst_discard :: kst where
  "kst_discard = kst0\<lparr>sbi := sbi0\<lparr>s_discard := True, discard_pending := Some (\<lambda>i. i = 6 \<or> i = 7)\<rparr>\<rparr>"

theorem discards_hit_free_blocks_only_witness:
  "(Sb_issue_discard 6 2, None) \<in> set (trace (snd (run_state (simplefs_issue_pending_discards env_ok) kst_discard)))
   \<and> bfree_bitmap sbi0 6 \<and> bfree_bitmap sbi0 7"
proof -
  have "trace kst_discard = []" "bfree_bitmap (sbi kst_discard) = bfree_bitmap sbi0"
    by (simp_all add: kst_discard_def kst0_def)
  moreover have "(Sb_issue_discard 6 2, None)
      \<in> set (trace (snd (run_state (simplefs_issue_pending_discards env_ok) kst_discard)))"
    by code_simp
  moreover have "unat (6 :: u64) \<le> 6" "6 < unat (6 :: u64) + unat (2 :: u64)"
      "unat (6 :: u64) \<le> 7" "7 < unat (6 :: u64) + unat (2 :: u64)"
    by simp_all
  ultimately show ?thesis
    using discards_hit_free_blocks_only [where E = env_ok and s = kst_discard, OF surjective_pairing] by fastforce
qed

section \<open>What a successful operation has journalled\<close>

definition bmap_block :: "simplefs_sb_info \<Rightarrow> bool \<Rightarrow> nat \<Rightarrow> u32" where
  "bmap_block sb im i = 1 + nr_istore_blocks sb + (if im then 0 else nr_ifree_blocks sb) + of_nat i"

definition bmap_image :: "simplefs_sb_info \<Rightarrow> bool \<Rightarrow> nat \<Rightarrow> block" where
  "bmap_image sb im i = bitmap_block (if im then ifree_bitmap sb else bfree_bitmap sb) i"

lemma journal_bitmap_loop_image:
  assumes "has_jbd2 (s_journal s)" "inj_on (bmap_block (sbi s) im) (set is)" "distinct is"
  shows "wp (journal_bitmap_loop E im is) (\<lambda>r s'. r = None \<longrightarrow>
     (\<forall>i\<in>set is. cache s' (bmap_block (sbi s) im i) = bmap_image (sbi s) im i) \<and>
     (\<forall>b. b \<notin> bmap_block (sbi s) im ` set is \<longrightarrow> cache s' b = cache s b)) s"
  using assms
proof (induction "is" arbitrary: s)
  case (Cons i "is")
  let ?B = "bmap_block (sbi s) im"
  have eq: "journal_bitmap_loop E im (i # is) = do {
      sb \<leftarrow> gets sbi;
      r \<leftarrow> simplefs_journal_dirty_current E (bmap_block sb im i) (bmap_image sb im i);
      (case r of Some e \<Rightarrow> ret (Some e) | None \<Rightarrow> journal_bitmap_loop E im is) }"
    by (cases im) (simp_all add: bmap_block_def bmap_image_def simplefs_journal_block_def cong: option.case_cong)
  have step: "wp (case r of Some e \<Rightarrow> ret (Some e) | None \<Rightarrow> journal_bitmap_loop E im is) (\<lambda>r s'. r = None \<longrightarrow>
      (\<forall>j\<in>set (i # is). cache s' (?B j) = bmap_image (sbi s) im j) \<and>
      (\<forall>b. b \<notin> ?B ` set (i # is) \<longrightarrow> cache s' b = cache s b)) s1"
    if "sframe s s1" "cache s1 = (cache s)(?B i := bmap_image (sbi s) im i) \<or> (r \<noteq> None \<and> cache s1 = cache s)"
    for r s1
  proof (cases r)
    case None
    then have c: "cache s1 = (cache s)(?B i := bmap_image (sbi s) im i)" using that(2) by simp
    have sb: "sbi s1 = sbi s" "has_jbd2 (s_journal s1)" using that(1) Cons.prems(1) by (simp_all add: sframe_def jframe_def)
    have i: "?B i \<notin> ?B ` set is" using Cons.prems(2,3) by (auto simp: inj_on_def)
    show ?thesis unfolding None option.case
      by (rule wp_mono [OF Cons.IH])
        (use Cons.prems sb i c in \<open>auto simp: inj_on_def\<close>)
  qed (simp add: wp_simps)
  show ?case unfolding eq wp_bind wp_gets
    by (rule wp_mono [OF wp_conj [OF dirty_current_spec
          keeps_sframe [OF dirty_current_leaf dirty_current_jframe, unfolded keeps_wp, rule_format]]])
      (rule step; use Cons.prems(1) in auto)
qed (simp add: wp_simps)

lemma free_counts_image:
  assumes "s_journal s \<noteq> None"
  shows "wp (simplefs_journal_free_counts E) (\<lambda>r s'. r = None \<longrightarrow>
     get32 (cache s' 0) sb_off_nr_free_blocks = nr_free_blocks (sbi s) \<and>
     get32 (cache s' 0) sb_off_nr_free_inodes = nr_free_inodes (sbi s) \<and>
     (\<forall>b. b \<noteq> 0 \<longrightarrow> cache s' b = cache s b)) s"
proof -
  have off: "get32 (put32 v (put32 w b sb_off_nr_free_inodes) sb_off_nr_free_blocks) sb_off_nr_free_inodes = w"
    for v w b
    by (simp add: sb_offsets get32_put32 le32.get_put_other)
  show ?thesis
    unfolding simplefs_journal_free_counts_def wp_bind wp_gets
    using assms
    apply (simp only: if_False wp_bind)
    apply (rule wp_mono [OF get_folio_spec])
    subgoal for r s1
      by (cases r) (auto simp: wp_simps get32_put32 off intro!: wp_mono [OF dirty_folio_spec])
    done
qed

lemma persist_image:
  assumes "has_jbd2 (s_journal s)" "len \<noteq> 0" "run_state (simplefs_persist_bitmap E im b len) s = (None, s')"
    and "is = [unat (b div 32768) ..< Suc (unat ((b + len - 1) div 32768))]"
    and "inj_on (bmap_block (sbi s) im) (set is)" "0 \<notin> bmap_block (sbi s) im ` set is"
  shows "(\<forall>i\<in>set is. cache s' (bmap_block (sbi s) im i) = bmap_image (sbi s) im i)
    \<and> get32 (cache s' 0) sb_off_nr_free_blocks = nr_free_blocks (sbi s)
    \<and> get32 (cache s' 0) sb_off_nr_free_inodes = nr_free_inodes (sbi s)"
proof -
  have j: "s_journal s \<noteq> None" using assms(1) by (cases "s_journal s") (simp_all add: has_jbd2_def)
  let ?Q = "\<lambda>s'. (\<forall>i\<in>set is. cache s' (bmap_block (sbi s) im i) = bmap_image (sbi s) im i)
    \<and> get32 (cache s' 0) sb_off_nr_free_blocks = nr_free_blocks (sbi s)
    \<and> get32 (cache s' 0) sb_off_nr_free_inodes = nr_free_inodes (sbi s)"
  have counts: "wp (simplefs_journal_free_counts E) (\<lambda>r s'. r = None \<longrightarrow> ?Q s') s1"
    if "sframe s s1" "\<forall>i\<in>set is. cache s1 (bmap_block (sbi s) im i) = bmap_image (sbi s) im i" for s1
  proof -
    have sb: "sbi s1 = sbi s" "s_journal s1 = s_journal s" using that(1) by (simp_all add: sframe_def jframe_def)
    have nz: "bmap_block (sbi s) im i \<noteq> 0" if "i \<in> set is" for i
      using assms(6) that by (metis image_eqI)
    show ?thesis
      by (rule wp_mono [OF free_counts_image]) (use that(2) nz j sb in auto)
  qed
  have loop: "wp (simplefs_journal_bitmap E im b len) (\<lambda>r s1. sframe s s1 \<and>
      (r = None \<longrightarrow> (\<forall>i\<in>set is. cache s1 (bmap_block (sbi s) im i) = bmap_image (sbi s) im i))) s"
    unfolding simplefs_journal_bitmap_def wp_bind wp_gets
    using j assms(2)
    apply (simp only: if_False simp_thms assms(4) [symmetric])
    by (rule wp_mono [OF wp_conj [OF journal_bitmap_loop_image [OF assms(1,5)]
          journal_bitmap_loop_sframe [unfolded keeps_wp, rule_format]]]) (auto simp: assms(4))
  have "wp (simplefs_persist_bitmap E im b len) (\<lambda>r s'. r = None \<longrightarrow> ?Q s') s"
    unfolding simplefs_persist_bitmap_def wp_bind
    apply (rule wp_mono [OF loop])
    subgoal for r s1
      by (cases r) (auto simp: wp_simps wp_return_fun wp_True intro!: wp_mono [OF counts] split: option.split)
    done
  then show ?thesis by (rule wp_run [OF _ assms(3), THEN mp]) simp
qed

lemma bmap_block_small:
  assumes "unat (nr_istore_blocks sb) + unat (nr_ifree_blocks sb) + 131073 < 4294967296" "i \<le> 131071"
  shows "unat (bmap_block sb im i) = 1 + unat (nr_istore_blocks sb) + (if im then 0 else unat (nr_ifree_blocks sb)) + i"
proof -
  let ?n = "1 + unat (nr_istore_blocks sb) + (if im then 0 else unat (nr_ifree_blocks sb)) + i"
  have "bmap_block sb im i = of_nat ?n" by (simp add: bmap_block_def)
  moreover have "?n < 2 ^ 32" using assms by simp
  ultimately show ?thesis using unat_of_nat_u32 by presburger
qed



end
