(* ===== verification/SFS_Footprint.thy ===== *)
theory SFS_Footprint
  imports SFS_AllocProps "HOL-Library.Sublist"
begin

text \<open>
  What the allocators and the journal adapter leave alone beyond the allocation state: the trace only
  grows, the geometry is constant, the shutdown flag is never cleared, and no block from
  \<open>root_dir_block\<close> on changes its image. The file system code above the allocators owns those
  blocks, so this frame is what lets its images survive an allocation or a free.
\<close>

definition geometry :: "simplefs_sb_info \<Rightarrow> u32 \<times> u32 \<times> u32 \<times> u32 \<times> u32" where
  "geometry sb = (nr_blocks sb, nr_inodes sb, nr_istore_blocks sb, nr_ifree_blocks sb, nr_bfree_blocks sb)"

text \<open>The bitmap blocks cover all blocks and inodes and lie before \<open>root_dir_block\<close>.\<close>

definition geom_ok :: "simplefs_sb_info \<Rightarrow> bool" where
  "geom_ok sb \<longleftrightarrow>
     1 + unat (nr_istore_blocks sb) + unat (nr_ifree_blocks sb) + unat (nr_bfree_blocks sb) < 2 ^ 32 \<and>
     unat (nr_blocks sb) \<le> 32768 * unat (nr_bfree_blocks sb) \<and>
     unat (nr_inodes sb) \<le> 32768 * unat (nr_ifree_blocks sb)"

text \<open>
  \<open>grows\<close> holds of all code of the file system; \<open>oframe\<close> of code that leaves the images from
  \<open>root_dir_block\<close> on alone.
\<close>

definition grows :: "kst \<Rightarrow> kst \<Rightarrow> bool" where
  "grows s s' \<longleftrightarrow> geometry (sbi s') = geometry (sbi s) \<and> suffix (trace s) (trace s')
     \<and> (s_shutdown s \<longrightarrow> s_shutdown s')
     \<and> map_option j_jbd2 (s_journal s') = map_option j_jbd2 (s_journal s)"

definition oframe :: "kst \<Rightarrow> kst \<Rightarrow> bool" where
  "oframe s s' \<longleftrightarrow> geometry (sbi s') = geometry (sbi s) \<and> suffix (trace s) (trace s')
     \<and> (s_shutdown s \<longrightarrow> s_shutdown s')
     \<and> map_option j_jbd2 (s_journal s') = map_option j_jbd2 (s_journal s)
     \<and> (geom_ok (sbi s) \<longrightarrow> (\<forall>n. root_dir_block (sbi s) \<le> n \<longrightarrow> cache s' n = cache s n))"

lemma geometry_root: "geometry a = geometry b \<Longrightarrow> root_dir_block a = root_dir_block b"
  by (simp add: geometry_def root_dir_block_def)

lemma geometry_ok: "geometry a = geometry b \<Longrightarrow> geom_ok a = geom_ok b"
  by (simp add: geometry_def geom_ok_def)

lemma geometry_upd [simp]:
  "geometry (sb\<lparr>bfree_bitmap := a\<rparr>) = geometry sb" "geometry (sb\<lparr>ifree_bitmap := a\<rparr>) = geometry sb"
  "geometry (sb\<lparr>nr_free_blocks := c\<rparr>) = geometry sb" "geometry (sb\<lparr>nr_free_inodes := c\<rparr>) = geometry sb"
  "geometry (sb\<lparr>discard_pending := d\<rparr>) = geometry sb"
  by (simp_all add: geometry_def)

lemma oframe_trans: "oframe s t \<Longrightarrow> oframe t u \<Longrightarrow> oframe s u"
  unfolding oframe_def
  using geometry_root [of "sbi t" "sbi s"] geometry_ok [of "sbi t" "sbi s"]
  by (auto intro: suffix_order.trans)

lemma grows_refl: "grows s s"
  by (simp add: grows_def)

lemma grows_trans: "grows s t \<Longrightarrow> grows t u \<Longrightarrow> grows s u"
  unfolding grows_def by (auto intro: suffix_order.trans)

lemma oframe_grows: "oframe s s' \<Longrightarrow> grows s s'"
  by (simp add: oframe_def grows_def)

lemma oframe_cache: "oframe s s' \<Longrightarrow> geom_ok (sbi s) \<Longrightarrow> root_dir_block (sbi s) \<le> n \<Longrightarrow> cache s' n = cache s n"
  by (simp add: oframe_def)

interpretation gfr: frame grows
  by unfold_locales (fact grows_refl, erule grows_trans)

lemmas [frame_rules] = gfr.keeps_return gfr.keeps_gets gfr.keeps_bind gfr.keeps_when gfr.keeps_then

lemma keeps_grows: "keeps oframe m \<Longrightarrow> keeps grows m"
  by (simp add: keeps_def oframe_grows)

lemma set_cache_grows [frame_rules]: "keeps grows (set_cache n b)"
  by (simp add: keeps_def set_cache_def grows_def)

lemma upd_inode_grows [frame_rules]: "keeps grows (upd_inode n f)"
  by (simp add: keeps_def upd_inode_def grows_def)

lemma oframe_refl: "oframe s s"
  by (simp add: oframe_def)

interpretation ofr: frame oframe
  by unfold_locales (fact oframe_refl, erule oframe_trans)

lemmas [frame_rules] = ofr.keeps_return ofr.keeps_gets ofr.keeps_bind ofr.keeps_when ofr.keeps_then

lemma ext_oframe [frame_rules]: "keeps oframe (ext E c)"
  by (simp add: keeps_def ext_def Let_def oframe_def suffix_ConsI)

lemma ask_oframe [frame_rules]: "keeps oframe (ask E c)"
  by (simp add: keeps_def ask_def oframe_def suffix_ConsI)

lemma asknum_oframe [frame_rules]: "keeps oframe (asknum E c)"
  by (simp add: keeps_def asknum_def oframe_def suffix_ConsI)

lemma note_call_oframe [frame_rules]: "keeps oframe (note_call c)"
  by (simp add: keeps_def note_call_def oframe_def suffix_ConsI)

lemma set_handle_oframe [frame_rules]: "keeps oframe (set_handle b)"
  by (auto simp: keeps_def set_handle_def oframe_def option.map_comp comp_def intro!: option.map_cong)

lemma upd_sbi_oframe: "(\<And>sb. geometry (f sb) = geometry sb) \<Longrightarrow> keeps oframe (upd_sbi f)"
  by (simp add: keeps_def upd_sbi_def oframe_def)

lemma upd_pending_oframe [frame_rules]: "keeps oframe (upd_pending f)"
  unfolding upd_pending_def by (rule upd_sbi_oframe) simp

lemma mark_shutdown_oframe [frame_rules]: "keeps oframe (simplefs_journal_mark_shutdown j)"
  unfolding simplefs_journal_mark_shutdown_def by (intro frame_rules) (simp add: oframe_def)

lemma current_handle_oframe [frame_rules]: "keeps oframe (simplefs_current_jbd2_handle E j)"
  unfolding simplefs_current_jbd2_handle_def by (intro frame_rules)

lemma journal_fail_oframe [frame_rules]: "keeps oframe (simplefs_journal_fail e)"
  unfolding simplefs_journal_fail_def by (intro frame_rules) (simp add: oframe_def)

lemma start_internal_oframe [frame_rules]: "keeps oframe (simplefs_journal_start_internal E n)"
  unfolding simplefs_journal_start_internal_def by (intro frame_rules)

lemma start_oframe [frame_rules]: "keeps oframe (simplefs_journal_start E n)"
  unfolding simplefs_journal_start_def by (intro frame_rules)

lemma start_sb_oframe [frame_rules]: "keeps oframe (simplefs_journal_start_sb E n)"
  unfolding simplefs_journal_start_sb_def by (intro frame_rules)

lemma stop_oframe [frame_rules]: "keeps oframe (simplefs_journal_stop E h)"
  unfolding simplefs_journal_stop_def by (intro frame_rules)

lemma jbd2_dirty_folio_oframe [frame_rules]: "keeps oframe (simplefs_jbd2_dirty E n (Folio f))"
  unfolding simplefs_jbd2_dirty_def source.case by (intro frame_rules)

lemma dirty_folio_oframe [frame_rules]: "keeps oframe (simplefs_journal_dirty_folio E n f)"
  unfolding simplefs_journal_dirty_folio_def by (intro frame_rules)

lemma prepare_current_oframe [frame_rules]: "keeps oframe (simplefs_journal_prepare_current E n)"
  unfolding simplefs_journal_prepare_current_def by (intro frame_rules)

lemma prepare_new_loop_oframe [frame_rules]: "keeps oframe (prepare_new_blocks_loop E b k)"
proof (induction k arbitrary: b)
  case (Suc k)
  show ?case unfolding prepare_new_blocks_loop.simps by (intro frame_rules Suc)
qed (simp, intro frame_rules)

lemma prepare_new_oframe [frame_rules]: "keeps oframe (simplefs_journal_prepare_new_blocks E b l)"
  unfolding simplefs_journal_prepare_new_blocks_def by (intro frame_rules)

lemma has_current_oframe [frame_rules]: "keeps oframe (simplefs_journal_has_current_handle E)"
  unfolding simplefs_journal_has_current_handle_def by (intro frame_rules)

lemma forget_current_oframe [frame_rules]: "keeps oframe (simplefs_journal_forget_current E n)"
  unfolding simplefs_journal_forget_current_def by (intro frame_rules)

lemma read_metadata_oframe [frame_rules]: "keeps oframe (simplefs_read_metadata E n)"
  unfolding simplefs_read_metadata_def by (intro frame_rules)

lemma get_folio_oframe [frame_rules]: "keeps oframe (simplefs_get_folio E n)"
  unfolding simplefs_get_folio_def by (intro frame_rules)

lemma discard_loop_oframe [frame_rules]: "keeps oframe (discard_loop E n g b)"
proof (induction E n g b rule: discard_loop.induct)
  case (1 E n g b)
  show ?case
    by (subst discard_loop.simps) (intro frame_rules 1; assumption?; simp)
qed

lemma issue_discards_oframe [frame_rules]: "keeps oframe (simplefs_issue_pending_discards E)"
  unfolding simplefs_issue_pending_discards_def by (intro frame_rules)

section \<open>Code that writes bitmap blocks\<close>

text \<open>
  The bitmap writers keep the frame when the bits they write lie inside the map, which is a condition
  \<open>P\<close> on the geometry and the arguments.
\<close>

definition oframe_if :: "(u32 \<times> u32 \<times> u32 \<times> u32 \<times> u32 \<Rightarrow> bool) \<Rightarrow> kst \<Rightarrow> kst \<Rightarrow> bool" where
  "oframe_if P s s' \<longleftrightarrow> (P (geometry (sbi s)) \<longrightarrow> oframe s s')"

lemma oframe_geometry: "oframe s s' \<Longrightarrow> geometry (sbi s') = geometry (sbi s)"
  by (simp add: oframe_def)

lemma oframe_if_trans: "oframe_if P s t \<Longrightarrow> oframe_if P t u \<Longrightarrow> oframe_if P s u"
  unfolding oframe_if_def using oframe_geometry oframe_trans by metis

interpretation ofi: frame "oframe_if P" for P
  by unfold_locales (simp add: oframe_if_def oframe_refl, erule oframe_if_trans)

lemmas [frame_rules] = ofi.keeps_return ofi.keeps_gets ofi.keeps_bind ofi.keeps_when ofi.keeps_then

lemma keeps_oframe_if: "keeps oframe m \<Longrightarrow> keeps (oframe_if P) m"
  by (simp add: keeps_def oframe_if_def)

lemmas [frame_rules] =
  keeps_oframe_if [OF ext_oframe]
  keeps_oframe_if [OF ask_oframe]
  keeps_oframe_if [OF start_sb_oframe]
  keeps_oframe_if [OF stop_oframe]
  keeps_oframe_if [OF current_handle_oframe]
  keeps_oframe_if [OF journal_fail_oframe]
  keeps_oframe_if [OF mark_shutdown_oframe]
  keeps_oframe_if [OF dirty_folio_oframe]
  keeps_oframe_if [OF get_folio_oframe]
  keeps_oframe_if [OF prepare_new_oframe]
  keeps_oframe_if [OF issue_discards_oframe]
  keeps_oframe_if [OF upd_pending_oframe]

lemma upd_sbi_oframe_if [frame_rules]:
  "(\<And>sb. geometry (f sb) = geometry sb) \<Longrightarrow> keeps (oframe_if P) (upd_sbi f)"
  by (rule keeps_oframe_if, rule upd_sbi_oframe)

text \<open>A block below \<open>root_dir_block\<close>, as a condition on the geometry.\<close>

definition below_root :: "u32 \<Rightarrow> u32 \<times> u32 \<times> u32 \<times> u32 \<times> u32 \<Rightarrow> bool" where
  "below_root n g \<longleftrightarrow> (\<forall>sb. geometry sb = g \<longrightarrow> geom_ok sb \<longrightarrow> n < root_dir_block sb)"

lemma set_cache_oframe_if [frame_rules]:
  assumes "\<And>g. P g \<Longrightarrow> below_root n g"
  shows "keeps (oframe_if P) (set_cache n b)"
proof -
  have "n < root_dir_block (sbi s)" if "P (geometry (sbi s))" "geom_ok (sbi s)" for s
    using assms [OF that(1)] that(2) by (simp add: below_root_def)
  then show ?thesis by (fastforce simp: keeps_def set_cache_def oframe_if_def oframe_def)
qed

lemma jbd2_dirty_data_oframe_if [frame_rules]:
  "(\<And>g. P g \<Longrightarrow> below_root n g) \<Longrightarrow> keeps (oframe_if P) (simplefs_jbd2_dirty E n (Data d))"
  unfolding simplefs_jbd2_dirty_def source.case by (intro frame_rules)

lemma dirty_current_oframe_if [frame_rules]:
  "(\<And>g. P g \<Longrightarrow> below_root n g) \<Longrightarrow> keeps (oframe_if P) (simplefs_journal_dirty_current E n d)"
  unfolding simplefs_journal_dirty_current_def by (intro frame_rules)

lemma below_root_0: "below_root 0 g"
  by (auto simp: below_root_def word_less_nat_alt unat_word_ariths root_dir_block_def geom_ok_def)

lemma free_counts_oframe_if [frame_rules]: "keeps (oframe_if P) (simplefs_journal_free_counts E)"
  unfolding simplefs_journal_free_counts_def by (intro frame_rules below_root_0)

lemma bitmap_block_below:
  assumes "geom_ok sb" "i < unat (if im then nr_ifree_blocks sb else nr_bfree_blocks sb)"
  shows "(if im then 1 + nr_istore_blocks sb + of_nat i
     else 1 + nr_istore_blocks sb + nr_ifree_blocks sb + of_nat i) < root_dir_block sb"
proof -
  have "i < 2 ^ 32"
    using less_trans [OF assms(2) unat_lt_u32] by simp
  then have i: "unat (of_nat i :: u32) = i" by (rule unat_of_nat_u32)
  show ?thesis using assms i
    by (auto simp: word_less_nat_alt unat_word_ariths root_dir_block_def geom_ok_def split: if_splits)
qed

lemma journal_bitmap_loop_oframe:
  "(geom_ok (sbi s) \<Longrightarrow> \<forall>i\<in>set is. i < unat (if im then nr_ifree_blocks (sbi s) else nr_bfree_blocks (sbi s))) \<Longrightarrow>
   wp (journal_bitmap_loop E im is) (\<lambda>_. oframe s) s"
proof (induction "is" arbitrary: s)
  case (Cons i "is")
  let ?n = "if im then 1 + nr_istore_blocks (sbi s) + of_nat i
    else 1 + nr_istore_blocks (sbi s) + nr_ifree_blocks (sbi s) + of_nat i"
  have "below_root ?n (geometry (sbi s))"
    unfolding below_root_def
  proof (intro allI impI)
    fix sb assume g: "geometry sb = geometry (sbi s)" and ok: "geom_ok sb"
    have "i < unat (if im then nr_ifree_blocks sb else nr_bfree_blocks sb)"
      using Cons.prems ok g geometry_ok [OF g] by (auto simp: geometry_def)
    from bitmap_block_below [OF ok this] show "?n < root_dir_block sb"
      using g by (simp add: geometry_def split: if_splits)
  qed
  then have "keeps (oframe_if ((=) (geometry (sbi s)))) (simplefs_journal_dirty_current E ?n d)" for d
    by (intro frame_rules) auto
  then have step: "wp (simplefs_journal_dirty_current E ?n d) (\<lambda>_. oframe s) s" for d
    by (rule wp_frame) (simp add: oframe_if_def)
  have rest: "wp (journal_bitmap_loop E im is) (\<lambda>_. oframe s) s1" if "oframe s s1" for s1
    using Cons.prems oframe_geometry [OF that] geometry_ok [OF oframe_geometry [OF that]]
    by (intro wp_mono [OF Cons.IH] oframe_trans [OF that]) (auto simp: geometry_def)
  have tail: "wp (case r of None \<Rightarrow> journal_bitmap_loop E im is | Some e \<Rightarrow> ret (Some e)) (\<lambda>_. oframe s) s1"
    if "oframe s s1" for r s1 using rest [OF that] that by (simp add: wp_simps split: option.split)
  have "wp (simplefs_journal_dirty_current E ?n d) (\<lambda>r. wp (case r of None \<Rightarrow> journal_bitmap_loop E im is
      | Some e \<Rightarrow> ret (Some e)) (\<lambda>_. oframe s)) s" for d
    by (rule wp_mono [OF step tail])
  then show ?case
    by (cases im) (simp_all only: journal_bitmap_loop.simps wp_bind wp_gets simplefs_journal_block_def if_True if_False)
qed (simp add: wp_simps oframe_refl)

text \<open>The range of a bitmap update lies inside the map.\<close>

definition in_map :: "bool \<Rightarrow> u32 \<Rightarrow> u32 \<Rightarrow> u32 \<times> u32 \<times> u32 \<times> u32 \<times> u32 \<Rightarrow> bool" where
  "in_map im pos len g = (case g of (nb, ni, _) \<Rightarrow> 0 < len \<and> unat pos + unat len \<le> unat (if im then ni else nb))"

lemma in_map_index:
  assumes "in_map im pos len (geometry sb)" "geom_ok sb"
    and "i < Suc (unat ((pos + len - 1) div 32768))"
  shows "i < unat (if im then nr_ifree_blocks sb else nr_bfree_blocks sb)"
proof -
  let ?n = "if im then nr_inodes sb else nr_blocks sb"
  have le: "unat pos + unat len \<le> unat ?n" "0 < unat len"
    using assms(1) by (auto simp: in_map_def geometry_def word_less_nat_alt split: if_splits)
  have add: "unat (pos + len) = unat pos + unat len" by (rule unat_add_below [OF le(1)])
  then have "1 \<le> pos + len" using le(2) by (simp add: word_le_nat_alt)
  then have "unat (pos + len - 1) = unat pos + unat len - 1" by (simp add: unat_sub_le add)
  then have "i \<le> (unat pos + unat len - 1) div 32768" using assms(3) by (simp add: unat_div)
  then have "i * 32768 < unat ?n" using le by linarith
  moreover have "unat ?n \<le> 32768 * unat (if im then nr_ifree_blocks sb else nr_bfree_blocks sb)"
    using assms(2) by (simp add: geom_ok_def)
  ultimately show ?thesis by linarith
qed

lemma persist_oframe_if [frame_rules]:
  assumes "\<And>g. P g \<Longrightarrow> in_map im pos len g"
  shows "keeps (oframe_if P) (simplefs_persist_bitmap E im pos len)"
proof -
  let ?L = "[unat (pos div 32768) ..< Suc (unat ((pos + len - 1) div 32768))]"
  have "oframe_if P s (snd (run_state (journal_bitmap_loop E im ?L) s))" for s
  proof (cases "P (geometry (sbi s))")
    case True
    have "wp (journal_bitmap_loop E im ?L) (\<lambda>_. oframe s) s"
      by (rule journal_bitmap_loop_oframe)
        (simp only: set_upt Ball_def atLeastLessThan_iff, blast intro: in_map_index [OF assms [OF True]])
    then show ?thesis by (simp add: oframe_if_def wp_def split_beta)
  qed (simp add: oframe_if_def)
  then have "keeps (oframe_if P) (journal_bitmap_loop E im ?L)" by (simp add: keeps_def)
  then show ?thesis
    unfolding simplefs_persist_bitmap_def simplefs_journal_bitmap_def by (intro frame_rules)
qed

section \<open>The allocators\<close>

text \<open>Code that first reads the superblock may rely on the geometry it read.\<close>

lemma keeps_oframe_sbi:
  assumes "\<And>sb. keeps (oframe_if ((=) (geometry sb))) (f sb)"
  shows "keeps oframe (do { sb \<leftarrow> gets sbi; f sb })"
  unfolding keeps_wp
proof
  fix s
  show "wp (do { sb \<leftarrow> gets sbi; f sb }) (\<lambda>_. oframe s) s"
    unfolding wp_simps by (rule wp_frame [OF assms]) (simp add: oframe_if_def)
qed

lemma in_map_blocks:
  "in_map False b l (geometry sb) \<longleftrightarrow> 0 < l \<and> unat b + unat l \<le> unat (nr_blocks sb)"
  by (simp add: in_map_def geometry_def)

lemma in_map_found:
  assumes "get_first_free_bits_from m (unat (nr_blocks sb)) (unat l) i = (r, m')" "r \<noteq> 0"
  shows "in_map False (of_nat r) l (geometry sb)"
proof -
  note b = get_first_free_bits_bound [OF assms]
  then have "r \<le> unat (nr_blocks sb)" by simp
  then have "r < 2 ^ 32" using le_less_trans [OF _ unat_lt_u32] by simp
  then show ?thesis using b by (simp add: in_map_blocks unat_of_nat_u32 word_less_nat_alt)
qed

lemma get_free_blocks_loop_oframe:
  "n = unat (nr_blocks sb) \<Longrightarrow> keeps (oframe_if ((=) (geometry sb))) (get_free_blocks_loop E n len search)"
proof (induction E n len search rule: get_free_blocks_loop.induct)
  case (1 E n len search)
  show ?case
    by (subst get_free_blocks_loop.simps)
      (intro frame_rules 1; (assumption | force simp: 1 dest!: in_map_found [OF sym] | simp add: 1 | blast)?)
qed

lemma get_free_blocks_oframe [frame_rules]: "keeps oframe (get_free_blocks E len)"
  unfolding get_free_blocks_def
  by (intro frame_rules keeps_oframe_sbi get_free_blocks_loop_oframe; simp)

lemma in_map_not_bad: "\<not> bad_range sb b l \<Longrightarrow> in_map False b l (geometry sb)"
  using not_bad_range [of sb b l] by (simp add: in_map_blocks word_less_nat_alt)

lemma put_blocks_oframe [frame_rules]: "keeps oframe (put_blocks E bno len)"
  unfolding put_blocks_def
  by (intro keeps_oframe_sbi frame_rules; (force dest: in_map_not_bad | simp)?)

lemma take_exact_oframe [frame_rules]: "keeps oframe (simplefs_take_exact_blocks E bno len)"
  unfolding simplefs_take_exact_blocks_def
  by (rule keeps_oframe_sbi) (intro frame_rules; (force dest: in_map_not_bad | simp)?)

lemma in_map_ino: "in_map True i 1 (geometry sb) \<longleftrightarrow> i < nr_inodes sb"
  by (auto simp: in_map_def geometry_def word_less_nat_alt)

lemma in_map_found_ino:
  assumes "get_first_free_bits m (unat (nr_inodes sb)) (Suc 0) = (r, m')" "r \<noteq> 0"
  shows "in_map True (of_nat r) 1 (geometry sb)"
proof -
  have "r < unat (nr_inodes sb)"
    using get_first_free_bits_bound [OF assms [unfolded get_first_free_bits_def]] by simp
  moreover from this have "r < 2 ^ 32" using less_trans [OF _ unat_lt_u32] by simp
  ultimately show ?thesis by (simp add: in_map_ino word_less_nat_alt unat_of_nat_u32)
qed

lemma get_free_inode_oframe [frame_rules]: "keeps oframe (get_free_inode E)"
  unfolding get_free_inode_def
  by (intro keeps_oframe_sbi frame_rules; (force dest!: in_map_found_ino [OF sym] | simp)?)

lemma in_map_inoI: "\<not> (ino = 0 \<or> nr_inodes sb \<le> ino) \<Longrightarrow> geometry sb = g \<Longrightarrow> in_map True ino 1 g"
  by (auto simp: in_map_ino not_le)

lemma put_inode_oframe [frame_rules]: "keeps oframe (put_inode E ino)"
  unfolding put_inode_def
  by (intro keeps_oframe_sbi frame_rules; (erule (1) in_map_inoI | simp)?)

lemmas [frame_rules] =
  keeps_grows [OF ext_oframe]
  keeps_grows [OF ask_oframe]
  keeps_grows [OF asknum_oframe]
  keeps_grows [OF note_call_oframe]
  keeps_grows [OF start_sb_oframe]
  keeps_grows [OF start_oframe]
  keeps_grows [OF stop_oframe]
  keeps_grows [OF journal_fail_oframe]
  keeps_grows [OF current_handle_oframe]
  keeps_grows [OF has_current_oframe]
  keeps_grows [OF dirty_folio_oframe]
  keeps_grows [OF read_metadata_oframe]
  keeps_grows [OF get_folio_oframe]
  keeps_grows [OF get_free_blocks_oframe]
  keeps_grows [OF put_blocks_oframe]
  keeps_grows [OF take_exact_oframe]
  keeps_grows [OF get_free_inode_oframe]
  keeps_grows [OF put_inode_oframe]

lemma zero_current_grows [frame_rules]: "keeps grows (simplefs_journal_zero_current E n)"
  unfolding simplefs_journal_zero_current_def by (intro frame_rules)

lemma get_zeroed_folio_grows [frame_rules]: "keeps grows (simplefs_get_zeroed_folio E n)"
  unfolding simplefs_get_zeroed_folio_def by (intro frame_rules)

lemma jbd2_dirty_grows [frame_rules]: "keeps grows (simplefs_jbd2_dirty E n src)"
  unfolding simplefs_jbd2_dirty_def
  by (cases src) (simp_all only: source.case, (intro frame_rules keeps_grows [OF mark_shutdown_oframe])+)

lemma dirty_current_grows [frame_rules]: "keeps grows (simplefs_journal_dirty_current E n d)"
  unfolding simplefs_journal_dirty_current_def by (intro frame_rules)

section \<open>The calls between two states\<close>

text \<open>The calls recorded after \<open>s\<close> and up to \<open>s'\<close>, most recent first.\<close>

definition calls :: "kst \<Rightarrow> kst \<Rightarrow> event list" where
  "calls s s' = take (length (trace s') - length (trace s)) (trace s')"

lemma calls_trace: "grows s s' \<Longrightarrow> trace s' = calls s s' @ trace s"
  by (auto simp: grows_def calls_def suffix_def)

lemma calls_eq: "trace s' = l @ trace s \<Longrightarrow> calls s s' = l"
  by (simp add: calls_def)

lemma calls_trans: "grows s t \<Longrightarrow> grows t u \<Longrightarrow> calls s u = calls t u @ calls s t"
  by (rule calls_eq) (simp add: calls_trace)

lemmas calls_transO = calls_trans [OF oframe_grows oframe_grows]

lemma calls_refl [simp]: "calls s s = []"
  by (simp add: calls_def)

end
