(* ===== verification/SFS_Retire.thy ===== *)
theory SFS_Retire
  imports SFS_Footprint
begin

text \<open>
  Giving metadata blocks back to the allocator, \<open>simplefs_retire_metadata_blocks\<close> of
  \<open>simplefs_metabuf.c\<close>, and \<open>simplefs_journal_force_commit\<close> of \<open>simplefs_journal.c\<close>.
  The first property states the order the comments in the source ask for: a block becomes free only
  after its journalled image has been revoked or its cached page has been written back and dropped.
  What a page reads after it has been dropped is of no consequence to the model, because every user
  of a newly allocated metadata block zeroes it first.
\<close>

definition pending_empty :: "simplefs_sb_info \<Rightarrow> bool" where
  "pending_empty sb = bm_none (pending_of sb) 0 (unat (nr_blocks sb))"

definition simplefs_journal_force_commit :: "env \<Rightarrow> simplefs_journal option \<Rightarrow> (kst, status) state" where
  "simplefs_journal_force_commit E journal =
     (if \<not> has_jbd2 journal then ret None
      else do {
        r \<leftarrow> ext E Jbd2_force_commit;
        sb \<leftarrow> gets sbi;
        r \<leftarrow> (if r = None \<and> s_discard sb \<and> \<not> pending_empty sb
             then simplefs_issue_pending_discards E else ret r);
        then_if_ok r (ext E Blkdev_issue_flush)
      })"

text \<open>The loop of revokes; the first error leaves it.\<close>

fun forget_blocks :: "env \<Rightarrow> u32 \<Rightarrow> nat \<Rightarrow> (kst, status) state" where
  "forget_blocks E b 0 = ret None"
| "forget_blocks E b (Suc k) = do {
     r \<leftarrow> simplefs_journal_forget_current E b;
     (case r of Some e \<Rightarrow> ret (Some e) | None \<Rightarrow> forget_blocks E (b + 1) k)
   }"

text \<open>
  The journalled path once a handle is there, \<open>own_handle\<close> when it was started here; and the whole
  function. \<open>simplefs_journal_abort\<close>, called before the stop on the error path, only emits a
  trace point.
\<close>

definition retire_with_handle :: "env \<Rightarrow> bool \<Rightarrow> bool \<Rightarrow> u32 \<Rightarrow> u32 \<Rightarrow> (kst, status) state" where
  "retire_with_handle E own_handle h bno len = do {
       r \<leftarrow> forget_blocks E bno (unat len);
       (case r of
          Some e \<Rightarrow> do {
            when_true own_handle (do { st \<leftarrow> simplefs_journal_stop E h; ret () });
            ret (Some e)
          }
        | None \<Rightarrow> do {
            put_blocks E bno len;
            if \<not> own_handle then ret None
            else do {
              st \<leftarrow> simplefs_journal_stop E h;
              (case st of
                 Some e \<Rightarrow> ret (Some e)
               | None \<Rightarrow> do { note_call (Invalidate_pages bno len); ret None })
            }
          })
     }"

definition simplefs_retire_metadata_blocks :: "env \<Rightarrow> u32 \<Rightarrow> u32 \<Rightarrow> (kst, status) state" where
  "simplefs_retire_metadata_blocks E bno len = do {
     journal \<leftarrow> gets s_journal;
     if has_jbd2 journal then do {
       current \<leftarrow> simplefs_journal_has_current_handle E;
       if current then retire_with_handle E False False bno len
       else do {
         root \<leftarrow> ask E Root_inode;
         if \<not> root then ret (Some EIO)
         else do {
           handle \<leftarrow> simplefs_journal_start E (int (unat len));
           (case handle of
              Inl e \<Rightarrow> ret (Some e)
            | Inr h \<Rightarrow> retire_with_handle E True h bno len)
         }
       }
     } else do {
       r \<leftarrow> ext E (Filemap_write_and_wait_range bno len);
       (case r of
          Some e \<Rightarrow> ret (Some e)
        | None \<Rightarrow> do {
            r \<leftarrow> ext E (Invalidate_pages bno len);
            (case r of
               Some e \<Rightarrow> ret (Some e)
             | None \<Rightarrow> do { put_blocks E bno len; ret None })
          })
     }
   }"

section \<open>Frames\<close>

lemma start_any_wp:
  assumes "\<And>e s1. sframe s s1 \<Longrightarrow> oframe s s1 \<Longrightarrow> Q (Inl e) s1"
    and "\<And>h s1. started s h s1 \<Longrightarrow> sbi s1 = sbi s \<Longrightarrow> cache s1 = cache s \<Longrightarrow> oframe s s1 \<Longrightarrow>
      \<not> s_shutdown s1 \<Longrightarrow> Q (Inr h) s1"
  shows "wp (simplefs_journal_start_sb E n) Q s" "wp (simplefs_journal_start E n) Q s"
proof -
  have *: "Q r s1" if "jframe s s1" "oframe s s1" "cache s1 = cache s \<and>
     (case r of Inl e \<Rightarrow> s_journal s1 = s_journal s
      | Inr h \<Rightarrow> \<not> s_shutdown s \<and> s_shutdown s1 = s_shutdown s \<and>
          (if h then \<exists>j. s_journal s = Some j \<and> j_jbd2 j \<and> \<not> j_handle_owner j \<and>
                  s_journal s1 = Some (j\<lparr>j_handle_owner := True, j_active_handle := True\<rparr>)
           else s_journal s1 = s_journal s))" for r s1
    using that assms by (cases r) (auto simp: sframe_def started_def jframe_def split: if_splits)
  note fr = start_sb_jframe start_sb_oframe start_internal_jframe start_internal_oframe
  show "wp (simplefs_journal_start_sb E n) Q s"
    by (rule wp_mono [OF wp_conj [OF start_sb_spec wp_conj [OF fr(1,2) [unfolded keeps_wp, rule_format]]]])
      (use * in blast)
  show "wp (simplefs_journal_start E n) Q s"
    unfolding simplefs_journal_start_def
    by (rule wp_mono [OF wp_conj [OF start_internal_spec wp_conj [OF fr(3,4) [unfolded keeps_wp, rule_format]]]])
      (intro *, auto split: sum.splits if_splits)
qed

lemma forget_blocks_oframe [frame_rules]: "keeps oframe (forget_blocks E b k)"
proof (induction k arbitrary: b)
  case (Suc k)
  show ?case unfolding forget_blocks.simps by (intro frame_rules Suc)
qed (simp, intro frame_rules)

lemma forget_blocks_sframe [frame_rules]: "keeps sframe (forget_blocks E b k)"
proof (induction k arbitrary: b)
  case (Suc k)
  show ?case unfolding forget_blocks.simps by (intro frame_rules Suc)
qed (simp, intro frame_rules)

lemma retire_oframe [frame_rules]: "keeps oframe (simplefs_retire_metadata_blocks E bno len)"
  unfolding simplefs_retire_metadata_blocks_def retire_with_handle_def by (intro frame_rules)

lemmas [frame_rules] = keeps_grows [OF retire_oframe]

section \<open>When retired blocks become free\<close>

lemma forget_current_ok:
  "wp (simplefs_journal_forget_current E b)
     (\<lambda>r s'. oframe s s' \<and> (r = None \<longrightarrow> (Jbd2_revoke b, None) \<in> set (calls s s'))) s"
proof (rule wp_conj [OF forget_current_oframe [unfolded keeps_wp, rule_format]])
  show "wp (simplefs_journal_forget_current E b)
      (\<lambda>r s'. r = None \<longrightarrow> (Jbd2_revoke b, None) \<in> set (calls s s')) s"
    by (auto simp: simplefs_journal_forget_current_def simplefs_current_jbd2_handle_def wp_simps calls_def
        split: option.split)
qed

lemma forget_blocks_ok:
  "wp (forget_blocks E b k) (\<lambda>r s'. oframe s s' \<and>
     (r = None \<longrightarrow> (\<forall>i<k. (Jbd2_revoke (b + of_nat i), None) \<in> set (calls s s')))) s"
proof (induction k arbitrary: b s)
  case (Suc k)
  have "wp (forget_blocks E (b + 1) k) (\<lambda>r s'. oframe s s' \<and>
      (r = None \<longrightarrow> (\<forall>i<Suc k. (Jbd2_revoke (b + of_nat i), None) \<in> set (calls s s')))) s1"
    if "oframe s s1" "(Jbd2_revoke b, None) \<in> set (calls s s1)" for s1
    by (rule wp_mono [OF Suc])
      (use that in \<open>auto simp: calls_transO less_Suc_eq_0_disj add.assoc intro: oframe_trans\<close>)
  then show ?case
    unfolding forget_blocks.simps wp_bind
    by (intro wp_mono [OF forget_current_ok]) (auto simp: wp_simps split: option.split)
qed (simp add: wp_simps oframe_refl)

text \<open>
  The evidence that the old image of the blocks is gone: nothing has been freed yet, and since
  \<open>s\<close> every block was revoked or the range was written back and then dropped from the cache.
\<close>

definition retire_ready :: "u32 \<Rightarrow> u32 \<Rightarrow> kst \<Rightarrow> kst \<Rightarrow> bool" where
  "retire_ready bno len s s1 \<longleftrightarrow> oframe s s1 \<and> sbi s1 = sbi s \<and>
     (if has_jbd2 (s_journal s)
      then \<forall>i<unat len. (Jbd2_revoke (bno + of_nat i), None) \<in> set (calls s s1)
      else calls s s1 = [(Invalidate_pages bno len, None), (Filemap_write_and_wait_range bno len, None)])"

definition retired :: "env \<Rightarrow> u32 \<Rightarrow> u32 \<Rightarrow> kst \<Rightarrow> status \<Rightarrow> kst \<Rightarrow> bool" where
  "retired E bno len s r s' \<longleftrightarrow> aframe s s' \<and> oframe s s' \<and>
     (r \<noteq> None \<and> sbi s' = sbi s \<or>
      (\<exists>s1. retire_ready bno len s s1 \<and> oframe s1 s' \<and> shrunk (gave E s1 bno len) (sbi s') \<and>
         (r = None \<or> (Jbd2_journal_stop, r) \<in> set (trace s'))))"

lemma put_blocks_wp:
  assumes "\<And>s'. aframe s s' \<Longrightarrow> oframe s s' \<Longrightarrow> shrunk (gave E s bno len) (sbi s') \<Longrightarrow> Q () s'"
  shows "wp (put_blocks E bno len) Q s"
  by (rule wp_mono [OF wp_conj [OF put_blocks_spec put_blocks_oframe [unfolded keeps_wp, rule_format]]])
    (use assms in auto)

lemma retiredI:
  assumes "retire_ready bno len s s1" "aframe s s'" "oframe s1 s'" "shrunk (gave E s1 bno len) (sbi s')"
    and "r = None \<or> (Jbd2_journal_stop, r) \<in> set (trace s')"
  shows "retired E bno len s r s'"
proof -
  have "oframe s s'" using assms(1,3) by (auto simp: retire_ready_def intro: oframe_trans)
  then show ?thesis using assms unfolding retired_def by blast
qed

lemma retire_no_journal:
  assumes "\<not> has_jbd2 (s_journal s)"
  shows "wp (simplefs_retire_metadata_blocks E bno len) (retired E bno len s) s"
proof -
  let ?t = "\<lambda>r. s\<lparr>trace := (Filemap_write_and_wait_range bno len, r) # trace s\<rparr>"
  let ?u = "\<lambda>r q. s\<lparr>trace := (Invalidate_pages bno len, q) # (Filemap_write_and_wait_range bno len, r) # trace s\<rparr>"
  have fr: "oframe s (?t r)" "oframe s (?u r q)" "aframe s (?t r)" "aframe s (?u r q)" for r q
    by (simp_all add: oframe_def aframe_def suffix_ConsI)
  have ready: "retire_ready bno len s (?u None None)"
    using fr(2) assms by (simp add: retire_ready_def calls_def)
  have put: "wp (put_blocks E bno len) (\<lambda>_. retired E bno len s None) (?u None None)"
    by (rule put_blocks_wp) (blast intro: retiredI [OF ready] afr.trans [OF fr(4)])
  have err: "retired E bno len s (Some e) (?t r)" "retired E bno len s (Some e) (?u r q)" for e r q
    using fr by (simp_all add: retired_def)
  show ?thesis
    unfolding simplefs_retire_metadata_blocks_def
    using put err assms by (simp add: wp_simps wp_return_fun split: option.split)
qed

text \<open>A complete operation inside a handle leaves the handle started.\<close>

lemma started_handle_ok: "handle_ok s \<Longrightarrow> started s h s1 \<Longrightarrow> handle_ok s1"
  by (auto simp: started_def handle_ok_def split: if_splits)

lemma started_aframe: "handle_ok s \<Longrightarrow> started s h s1 \<Longrightarrow> aframe s1 s2 \<Longrightarrow> started s h s2"
  using started_handle_ok [of s h s1] by (auto simp: started_def aframe_def)

lemma started_refl: "started s False s"
  by (simp add: started_def)

lemma stop_any_wp:
  assumes "started s h s2"
    and "\<And>r s3. aframe s s3 \<Longrightarrow> oframe s2 s3 \<Longrightarrow> sbi s3 = sbi s2 \<Longrightarrow> cache s3 = cache s2 \<Longrightarrow>
      r = None \<or> (Jbd2_journal_stop, r) \<in> set (trace s3) \<Longrightarrow> Q r s3"
  shows "wp (simplefs_journal_stop E h) Q s2"
proof -
  have "wp (simplefs_journal_stop E h) (\<lambda>r s3. aframe s s3 \<and> sbi s3 = sbi s2 \<and> cache s3 = cache s2 \<and>
      (r = None \<or> (Jbd2_journal_stop, r) \<in> set (trace s3))) s2"
  proof (rule stop_wp [OF assms(1)])
    fix r :: status and s3 :: kst
    assume "\<forall>e. r = Some e \<longrightarrow> (Jbd2_journal_stop, Some e) \<in> set (trace s3)"
    then have "r = None \<or> (Jbd2_journal_stop, r) \<in> set (trace s3)" by (cases r) simp_all
    moreover assume "aframe s s3" "sbi s3 = sbi s2" "cache s3 = cache s2"
    ultimately show "aframe s s3 \<and> sbi s3 = sbi s2 \<and> cache s3 = cache s2 \<and>
      (r = None \<or> (Jbd2_journal_stop, r) \<in> set (trace s3))" by simp
  qed
  from wp_conj [OF this stop_oframe [unfolded keeps_wp, rule_format]] show ?thesis
    by (rule wp_mono) (use assms(2) in auto)
qed

lemma retire_stop:
  assumes "retire_ready bno len s s2" "started s h s3" "oframe s2 s3" "shrunk (gave E s2 bno len) (sbi s3)"
  shows "wp (do { st \<leftarrow> simplefs_journal_stop E h;
      (case st of Some e \<Rightarrow> ret (Some e)
       | None \<Rightarrow> do { note_call (Invalidate_pages bno len); ret None }) }) (retired E bno len s) s3"
  unfolding wp_bind
proof (rule stop_any_wp [OF assms(2)])
  fix r :: status and s4
  assume s4: "aframe s s4" "oframe s3 s4" "sbi s4 = sbi s3" "r = None \<or> (Jbd2_journal_stop, r) \<in> set (trace s4)"
  let ?s5 = "s4\<lparr>trace := (Invalidate_pages bno len, None) # trace s4\<rparr>"
  have "oframe s4 ?s5" "aframe s4 ?s5" by (simp_all add: oframe_def aframe_def suffix_ConsI)
  then show "wp (case r of Some e \<Rightarrow> ret (Some e)
      | None \<Rightarrow> do { note_call (Invalidate_pages bno len); ret None }) (retired E bno len s) s4"
    using s4 assms(3,4)
    by (cases r) (auto simp: wp_simps intro!: retiredI [OF assms(1)] intro: oframe_trans afr.trans)
qed

lemma retire_put:
  assumes "handle_ok s" "started s h s2" "retire_ready bno len s s2" "\<not> own \<Longrightarrow> \<not> h"
  shows "wp (do { put_blocks E bno len;
      if \<not> own then ret None
      else do { st \<leftarrow> simplefs_journal_stop E h;
        (case st of Some e \<Rightarrow> ret (Some e)
         | None \<Rightarrow> do { note_call (Invalidate_pages bno len); ret None }) } }) (retired E bno len s) s2"
  unfolding wp_bind
proof (rule put_blocks_wp)
  fix s3
  assume af: "aframe s2 s3" and of: "oframe s2 s3" and sh: "shrunk (gave E s2 bno len) (sbi s3)"
  have st: "started s h s3" by (rule started_aframe [OF assms(1,2) af])
  have "aframe s s3" if "\<not> own" using st assms(4) [OF that] by (simp add: started_def aframe_def)
  then show "wp (if \<not> own then ret None else do { st \<leftarrow> simplefs_journal_stop E h;
        (case st of Some e \<Rightarrow> ret (Some e)
         | None \<Rightarrow> do { note_call (Invalidate_pages bno len); ret None }) }) (retired E bno len s) s3"
    using retire_stop [OF assms(3) st of sh] retiredI [OF assms(3) _ of sh]
    by (auto simp: wp_return)
qed

lemma retire_with_handle_spec:
  assumes "handle_ok s" "has_jbd2 (s_journal s)" "started s h s1" "oframe s s1" "sbi s1 = sbi s"
    and "\<not> own \<Longrightarrow> \<not> h"
  shows "wp (retire_with_handle E own h bno len) (retired E bno len s) s1"
proof -
  have "wp (forget_blocks E bno (unat len)) (\<lambda>r s2. sframe s1 s2 \<and> oframe s1 s2 \<and>
      (r = None \<longrightarrow> (\<forall>i<unat len. (Jbd2_revoke (bno + of_nat i), None) \<in> set (calls s1 s2)))) s1"
    by (rule wp_conj [OF forget_blocks_sframe [unfolded keeps_wp, rule_format] forget_blocks_ok])
  then show ?thesis
    unfolding retire_with_handle_def wp_bind [of "forget_blocks E bno (unat len)"]
  proof (rule wp_mono, elim conjE)
    fix r :: status and s2
    assume sf: "sframe s1 s2" and of: "oframe s1 s2"
      and ok: "r = None \<longrightarrow> (\<forall>i<unat len. (Jbd2_revoke (bno + of_nat i), None) \<in> set (calls s1 s2))"
    note st = started_step [OF assms(3) sf]
    have of': "oframe s s2" and sb: "sbi s2 = sbi s"
      using oframe_trans [OF assms(4) of] sframe_sbi [OF sf] assms(5) by simp_all
    have ready: "retire_ready bno len s s2" if "r = None"
      using that ok of' sb assms(2,4) of by (simp add: retire_ready_def calls_transO)
    have err: "retired E bno len s (Some e) s2" if "\<not> own" for e
      using st assms(6) [OF that] of' sb by (simp add: retired_def started_def aframe_def)
    have "wp (simplefs_journal_stop E h) (\<lambda>_. retired E bno len s (Some e)) s2" for e
      by (rule stop_any_wp [OF st]) (use of' sb in \<open>auto simp: retired_def intro: oframe_trans\<close>)
    with err retire_put [OF assms(1) st ready assms(6)]
    show "wp (case r of Some e \<Rightarrow> do { when_true own (do { st \<leftarrow> simplefs_journal_stop E h; ret () }); ret (Some e) }
       | None \<Rightarrow> do { put_blocks E bno len; if \<not> own then ret None else do {
           st \<leftarrow> simplefs_journal_stop E h;
           (case st of Some e \<Rightarrow> ret (Some e)
            | None \<Rightarrow> do { note_call (Invalidate_pages bno len); ret None }) } }) (retired E bno len s) s2"
      by (cases r) (auto simp: wp_bind wp_when wp_return wp_return_fun)
  qed
qed

lemma retire_spec:
  assumes "handle_ok s"
  shows "wp (simplefs_retire_metadata_blocks E bno len) (retired E bno len s) s"
proof (cases "has_jbd2 (s_journal s)")
  case True
  have err: "retired E bno len s (Some e) s1" if "sframe s s1" "oframe s s1" for e s1
    using that by (simp add: retired_def sframe_aframe sframe_sbi)
  have start: "wp (simplefs_journal_start E n) (\<lambda>handle. wp (case handle of Inl e \<Rightarrow> ret (Some e)
      | Inr h \<Rightarrow> retire_with_handle E True h bno len) (retired E bno len s)) s1"
    if s1: "sframe s s1" "oframe s s1" for n s1
  proof (rule start_any_wp(2))
    show "wp (case Inl e of Inl e \<Rightarrow> ret (Some e) | Inr h \<Rightarrow> retire_with_handle E True h bno len)
      (retired E bno len s) s2" if "sframe s1 s2" "oframe s1 s2" for e s2
      using err [OF sfr.trans [OF s1(1) that(1)] oframe_trans [OF s1(2) that(2)]] by (simp add: wp_return)
    show "wp (case Inr h of Inl e \<Rightarrow> ret (Some e) | Inr h \<Rightarrow> retire_with_handle E True h bno len)
      (retired E bno len s) s2" if "started s1 h s2" "sbi s2 = sbi s1" "oframe s1 s2" for h s2
      using s1 that True assms unfolding sum.case
      by (intro retire_with_handle_spec)
        (auto simp: started_def sframe_def jframe_def intro: oframe_trans)
  qed
  have joined: "wp (retire_with_handle E False False bno len) (retired E bno len s) s1"
    if "sframe s s1" "oframe s s1" for s1
    using that assms True
    by (intro retire_with_handle_spec) (auto simp: sframe_sbi intro: started_step [OF started_refl])
  have ask: "sframe s (s1\<lparr>trace := (c, None) # trace s1\<rparr>)" "oframe s (s1\<lparr>trace := (c, None) # trace s1\<rparr>)"
    if "sframe s s1" "oframe s s1" for c s1
    using that by (auto simp: sframe_def oframe_def suffix_ConsI)
  have "wp (simplefs_journal_has_current_handle E) (\<lambda>r s1. sframe s s1 \<and> oframe s s1) s"
    using has_current_oframe keeps_sframe [OF has_current_leaf has_current_jframe]
    by (auto simp: keeps_wp intro: wp_conj)
  then show ?thesis
    unfolding simplefs_retire_metadata_blocks_def wp_bind wp_gets
    using True start joined err ask
    by (simp add: wp_bind) (erule wp_mono, auto simp: wp_bind wp_ask wp_return)
qed (rule retire_no_journal)

text \<open>The frame of retiring and of code made of complete operations, from a journal adapter at rest.\<close>

definition rframe :: "kst \<Rightarrow> kst \<Rightarrow> bool" where
  "rframe s s' \<longleftrightarrow> (handle_ok s \<longrightarrow> aframe s s' \<and> oframe s s')"

lemma handle_ok_aframe: "handle_ok s \<Longrightarrow> aframe s s' \<Longrightarrow> handle_ok s'"
  by (simp add: aframe_def handle_ok_def)

interpretation rfr: frame rframe
  by unfold_locales
    (auto simp: rframe_def afr.refl oframe_refl intro: afr.trans oframe_trans handle_ok_aframe)

lemmas [frame_rules] = rfr.keeps_return rfr.keeps_gets rfr.keeps_bind rfr.keeps_when rfr.keeps_then

lemma retire_rframe [frame_rules]: "keeps rframe (simplefs_retire_metadata_blocks E bno len)"
  unfolding keeps_wp rframe_def
proof
  show "wp (simplefs_retire_metadata_blocks E bno len) (\<lambda>_ s'. handle_ok s \<longrightarrow> aframe s s' \<and> oframe s s') s" for s
  proof (cases "handle_ok s")
    case True
    show ?thesis by (rule wp_mono [OF retire_spec [OF True]]) (simp add: retired_def)
  qed (simp add: wp_True)
qed

text \<open>
  C32. A metadata block goes back to the allocator only after its old image is gone. When
  \<open>simplefs_retire_metadata_blocks\<close> has run, whatever the kernel answered, either it failed and
  the allocation state is untouched, or there was a moment at which nothing had been freed and every
  block had been revoked in the running transaction (with a journal), or the range had been written
  back and its cached pages dropped, in this order (without one); from that moment on at most the
  retired range has been freed. An error after that moment is a failed stop of the handle.
\<close>
theorem retire_frees_after_forget:
  assumes "handle_ok s" "run_state (simplefs_retire_metadata_blocks E bno len) s = (r, s')"
  shows "r \<noteq> None \<and> sbi s' = sbi s \<or>
    (\<exists>s1. oframe s s1 \<and> sbi s1 = sbi s \<and>
       (if has_jbd2 (s_journal s)
        then \<forall>i<unat len. (Jbd2_revoke (bno + of_nat i), None) \<in> set (calls s s1)
        else calls s s1 = [(Invalidate_pages bno len, None), (Filemap_write_and_wait_range bno len, None)]) \<and>
       oframe s1 s' \<and> free_blocks s' \<subseteq> free_blocks s \<union> {unat bno ..< unat bno + unat len} \<and>
       (r = None \<or> (Jbd2_journal_stop, r) \<in> set (trace s')))"
proof -
  have "retired E bno len s r s'" using wp_run [OF retire_spec [OF assms(1)] assms(2)] .
  moreover have "free_blocks s' \<subseteq> free_blocks s \<union> {unat bno ..< unat bno + unat len}"
    if "sbi s1 = sbi s" "shrunk (gave E s1 bno len) (sbi s')" for s1
    using free_blocks_shrunk [OF that(2), of "s1\<lparr>sbi := gave E s1 bno len\<rparr>"]
      free_blocks_give [of "s1\<lparr>sbi := gave E s1 bno len\<rparr>" E s1 bno len] that(1)
    by (auto simp: free_blocks_def split: if_splits)
  ultimately show ?thesis unfolding retired_def retire_ready_def by metis
qed

theorem retire_frees_after_forget_witness:
  "case run_state (simplefs_retire_metadata_blocks env_ok 4 1) kst0 of (r, s') \<Rightarrow>
     r = None \<and> (\<exists>s1. oframe kst0 s1 \<and> sbi s1 = sbi kst0 \<and>
     calls kst0 s1 = [(Invalidate_pages 4 1, None), (Filemap_write_and_wait_range 4 1, None)] \<and> oframe s1 s')"
proof -
  obtain r s' where run: "run_state (simplefs_retire_metadata_blocks env_ok 4 1) kst0 = (r, s')" by fastforce
  have "r = None"
    using arg_cong [OF run, of fst]
    by (simp add: simplefs_retire_metadata_blocks_def has_jbd2_def demo_simps gets_def ext_def split_beta)
  moreover have "handle_ok kst0" "\<not> has_jbd2 (s_journal kst0)"
    by (simp_all add: handle_ok_def has_jbd2_def demo_simps)
  ultimately show ?thesis
    using retire_frees_after_forget [OF _ run] run by auto
qed

end
