(* ===== verification/SFS_ExtentTree.thy ===== *)
theory SFS_ExtentTree
  imports SFS_Retire SFS_ExtentBuf
begin

text \<open>
  The extent tree of a file on disk, the rest of \<open>simplefs_extent.c\<close>: growing the buffer, loading
  it from the root block and its leaves, writing it back in the order the comments of the source ask
  for, and freeing the tree. A tree has depth 0, extents in the root block, or depth 1, an index of at
  most 255 leaves with at most 340 extents each.

  Functions that take the buffer by pointer return it next to their status. The debug messages have no
  counterpart. Two locals of \<open>simplefs_file_sync_extents\<close> are expressed by others: \<open>root_updated\<close>
  is only set where \<open>metadata_changed\<close> is already set, so the test of both is the test of the
  latter.
\<close>

section \<open>Growing the buffer\<close>

text \<open>
  Capacities are natural numbers: \<open>kvmalloc_array\<close> refuses arrays of more than \<open>INT_MAX\<close> bytes,
  so a capacity is at most \<open>INT_MAX / 12\<close> and doubling it does not wrap.
\<close>

function double_capacity :: "nat \<Rightarrow> nat \<Rightarrow> nat" where
  "double_capacity cap min_capacity =
     (if cap = 0 \<or> min_capacity \<le> cap then cap else double_capacity (cap * 2) min_capacity)"
  by pat_completeness auto
termination
  by (relation "measure (\<lambda>(c, m). m - c)") auto

declare double_capacity.simps [simp del]

definition simplefs_file_grow_extent_buffer ::
    "env \<Rightarrow> simplefs_extent_buffer \<Rightarrow> nat \<Rightarrow> (kst, status \<times> simplefs_extent_buffer) state" where
  "simplefs_file_grow_extent_buffer E buf min_capacity =
     (if buf_capacity buf \<ge> min_capacity then ret (None, buf)
      else do {
        let new_capacity = double_capacity
          (if buf_capacity buf \<noteq> 0 then buf_capacity buf else SIMPLEFS_FILE_EXTENTS_PER_LEAF) min_capacity;
        nomem \<leftarrow> ext E Kmalloc;
        ret (if nomem \<noteq> None then (Some ENOMEM, buf) else (None, buf\<lparr>buf_capacity := new_capacity\<rparr>))
      })"

definition simplefs_file_append_extent ::
    "env \<Rightarrow> simplefs_extent_buffer \<Rightarrow> simplefs_extent \<Rightarrow> (kst, status \<times> simplefs_extent_buffer) state" where
  "simplefs_file_append_extent E buf ext' = do {
     (r, buf) \<leftarrow> simplefs_file_grow_extent_buffer E buf (length (extents buf) + 1);
     ret (if r \<noteq> None then (r, buf) else (None, buf\<lparr>extents := extents buf @ [ext']\<rparr>))
   }"

section \<open>Loading\<close>

definition get_extents :: "nat \<Rightarrow> block \<Rightarrow> simplefs_extent list" where
  "get_extents n b = load_array get_extent 12 n b 8"

definition get_indexes :: "nat \<Rightarrow> block \<Rightarrow> simplefs_extent_index list" where
  "get_indexes n b = load_array get_index 16 n b 8"

definition simplefs_file_load_leaf ::
    "env \<Rightarrow> u32 \<Rightarrow> simplefs_extent_buffer \<Rightarrow> (kst, status \<times> simplefs_extent_buffer) state" where
  "simplefs_file_load_leaf E leaf_block' buf = do {
     leaf \<leftarrow> simplefs_read_metadata E leaf_block';
     (case leaf of
        Inl e \<Rightarrow> ret (Some e, buf)
      | Inr b \<Rightarrow>
          if eh_magic b \<noteq> SIMPLEFS_EXTENT_LEAF_MAGIC
          then ret (Some (if eh_magic b = 0 then EIO else EINVAL), buf)
          else if unat (eh_entries b) > SIMPLEFS_FILE_EXTENTS_PER_LEAF then ret (Some EINVAL, buf)
          else do {
            (r, buf) \<leftarrow> simplefs_file_grow_extent_buffer E buf
                          (length (extents buf) + unat (eh_entries b));
            ret (if r \<noteq> None then (r, buf)
                 else (None, buf\<lparr>extents := extents buf @ get_extents (unat (eh_entries b)) b\<rparr>))
          })
   }"

text \<open>The loop over the index entries; an error leaves it and destroys the buffer.\<close>

fun load_leaves ::
    "env \<Rightarrow> u32 list \<Rightarrow> simplefs_extent_buffer \<Rightarrow> (kst, status \<times> simplefs_extent_buffer) state" where
  "load_leaves E [] buf = ret (None, buf)"
| "load_leaves E (l # ls) buf = do {
     (r, buf) \<leftarrow> simplefs_file_load_leaf E l (buf\<lparr>leaf_blocks := leaf_blocks buf @ [l]\<rparr>);
     if r \<noteq> None then ret (r, simplefs_file_destroy_extents buf) else load_leaves E ls buf
   }"

definition simplefs_file_load_extents ::
    "env \<Rightarrow> u32 \<Rightarrow> (kst, status \<times> simplefs_extent_buffer) state" where
  "simplefs_file_load_extents E root_block = do {
     root \<leftarrow> simplefs_read_metadata E root_block;
     (case root of
        Inl e \<Rightarrow> ret (Some e, empty_buffer)
      | Inr b \<Rightarrow>
          if eh_magic b \<noteq> SIMPLEFS_EXTENT_ROOT_MAGIC
          then ret (Some (if eh_magic b = 0 \<and> eh_entries b = 0 then EIO else EINVAL), empty_buffer)
          else do {
            let nr_entries = unat (eh_entries b);
            if eh_depth b = 0 then
              if nr_entries > SIMPLEFS_FILE_EXTENTS_PER_LEAF then ret (Some EFSCORRUPTED, empty_buffer)
              else do {
                (r, buf) \<leftarrow> simplefs_file_grow_extent_buffer E empty_buffer nr_entries;
                ret (if r \<noteq> None then (r, buf) else (None, buf\<lparr>extents := get_extents nr_entries b\<rparr>))
              }
            else if eh_depth b \<noteq> 1 \<or> nr_entries > SIMPLEFS_FILE_INDEX_SLOTS
            then ret (Some EINVAL, empty_buffer)
            else do {
              nomem \<leftarrow> (if nr_entries = 0 then ret None else ext E Kmalloc);
              if nomem \<noteq> None then ret (Some ENOMEM, empty_buffer)
              else load_leaves E (map leaf_block (get_indexes nr_entries b)) empty_buffer
            }
          })
   }"

section \<open>Writing back\<close>

text \<open>
  \<open>memset\<close> over the root and leaf structures, both 4088 bytes, and their headers. The leaf of
  extents \<open>xs\<close> is built in a folio that \<open>simplefs_get_zeroed_folio\<close> has just zeroed.
\<close>

definition simplefs_file_init_extent_root :: "block \<Rightarrow> block" where
  "simplefs_file_init_extent_root b =
     set_eh_depth 0 (set_eh_magic SIMPLEFS_EXTENT_ROOT_MAGIC (mem_set b 0 0 4088))"

definition simplefs_file_init_extent_leaf :: "block \<Rightarrow> block" where
  "simplefs_file_init_extent_leaf b =
     set_eh_max (of_nat SIMPLEFS_FILE_EXTENTS_PER_LEAF)
       (set_eh_magic SIMPLEFS_EXTENT_LEAF_MAGIC (mem_set b 0 0 4088))"

definition fill_leaf :: "simplefs_extent list \<Rightarrow> block \<Rightarrow> block" where
  "fill_leaf xs b = store_array put_extent 12 xs
     (set_eh_entries (of_nat (length xs)) (simplefs_file_init_extent_leaf b)) 8"

text \<open>The extents of leaf \<open>i\<close>: \<open>nr\<close> of them from position \<open>start\<close>.\<close>

definition leaf_chunk :: "simplefs_extent list \<Rightarrow> nat \<Rightarrow> simplefs_extent list" where
  "leaf_chunk xs i = take SIMPLEFS_FILE_EXTENTS_PER_LEAF (drop (i * SIMPLEFS_FILE_EXTENTS_PER_LEAF) xs)"

definition index_entry :: "simplefs_extent list \<Rightarrow> nat \<Rightarrow> u32 \<Rightarrow> simplefs_extent_index" where
  "index_entry xs i l = (let c = leaf_chunk xs i in
     \<lparr>ei_first = ee_block (hd c), leaf_block = l, ei_nr_extents = of_nat (length c),
      last_block = simplefs_ext_end (last c)\<rparr>)"

definition fill_root :: "simplefs_extent list \<Rightarrow> u32 list \<Rightarrow> block \<Rightarrow> block" where
  "fill_root xs leaves b =
     (let b1 = simplefs_file_init_extent_root b;
          b2 = (if leaves = [] then store_array put_extent 12 xs b1 8
                else store_array put_index 16 (map (\<lambda>(i, l). index_entry xs i l) (enumerate 0 leaves)) b1 8);
          b3 = set_eh_depth (if leaves = [] then 0 else 1) b2
      in set_eh_entries (of_nat (if leaves = [] then length xs else length leaves)) b3)"

definition simplefs_writeback_metadata_block :: "env \<Rightarrow> u32 \<Rightarrow> (kst, status) state" where
  "simplefs_writeback_metadata_block E blk = ext E (Filemap_write_and_wait_range blk 1)"

text \<open>Allocation of the additional leaves: did it succeed, and the blocks obtained.\<close>

fun alloc_leaves :: "env \<Rightarrow> nat \<Rightarrow> (kst, bool \<times> u32 list) state" where
  "alloc_leaves E 0 = ret (True, [])"
| "alloc_leaves E (Suc k) = do {
     b \<leftarrow> get_free_blocks E 1;
     if b = 0 then ret (False, [])
     else do { (ok, bs) \<leftarrow> alloc_leaves E k; ret (ok, b # bs) }
   }"

text \<open>Does an extent own the root or a leaf of its own tree?\<close>

definition ownership_overlap :: "simplefs_extent list \<Rightarrow> u32 \<Rightarrow> u32 list \<Rightarrow> bool" where
  "ownership_overlap xs root leaves =
     list_ex (\<lambda>e. list_ex (\<lambda>b. ee_start e \<le> b \<and> b < ee_start e + simplefs_ext_len e) (root # leaves)) xs"

text \<open>
  The loop over the leaves: the list holds the indices and blocks still to be written, \<open>changed\<close>
  is \<open>metadata_changed\<close>.
\<close>

fun sync_leaves ::
    "env \<Rightarrow> simplefs_extent list \<Rightarrow> nat \<Rightarrow> (nat \<times> u32) list \<Rightarrow> bool \<Rightarrow> (kst, status \<times> bool) state" where
  "sync_leaves E xs old_leaf_count [] changed = ret (None, changed)"
| "sync_leaves E xs old_leaf_count ((i, l) # rest) changed = do {
     let chunk = leaf_chunk xs i;
     same \<leftarrow> (if i < old_leaf_count then do {
         leaf \<leftarrow> simplefs_read_metadata E l;
         (case leaf of
            Inl e \<Rightarrow> ret (Inl e)
          | Inr b \<Rightarrow> ret (Inr (eh_magic b = SIMPLEFS_EXTENT_LEAF_MAGIC \<and>
              unat (eh_entries b) = length chunk \<and>
              mem_eq b 8 (store_array put_extent 12 chunk zero_block 8) 8 (length chunk * 12))))
       } else ret (Inr False));
     (case same of
        Inl e \<Rightarrow> ret (Some e, changed)
      | Inr same \<Rightarrow>
          if same then sync_leaves E xs old_leaf_count rest changed
          else do {
            leaf \<leftarrow> simplefs_get_zeroed_folio E l;
            (case leaf of
               Inl e \<Rightarrow> ret (Some e, True)
             | Inr b \<Rightarrow> do {
                 set_cache l (fill_leaf chunk b);
                 r \<leftarrow> simplefs_journal_dirty_folio E l l;
                 if r \<noteq> None then ret (r, True) else sync_leaves E xs old_leaf_count rest True
               })
          })
   }"

fun writeback_blocks :: "env \<Rightarrow> u32 list \<Rightarrow> (kst, status) state" where
  "writeback_blocks E [] = ret None"
| "writeback_blocks E (l # ls) = do {
     r \<leftarrow> simplefs_writeback_metadata_block E l;
     (case r of Some e \<Rightarrow> ret (Some e) | None \<Rightarrow> writeback_blocks E ls)
   }"

text \<open>Retiring blocks one by one up to the first error, and without regard to errors.\<close>

fun retire_each :: "env \<Rightarrow> u32 list \<Rightarrow> (kst, status) state" where
  "retire_each E [] = ret None"
| "retire_each E (l # ls) = do {
     r \<leftarrow> simplefs_retire_metadata_blocks E l 1;
     (case r of Some e \<Rightarrow> ret (Some e) | None \<Rightarrow> retire_each E ls)
   }"

fun retire_all :: "env \<Rightarrow> u32 list \<Rightarrow> (kst, unit) state" where
  "retire_all E [] = ret ()"
| "retire_all E (l # ls) = do { r \<leftarrow> simplefs_retire_metadata_blocks E l 1; retire_all E ls }"

definition leaf_count :: "simplefs_extent list \<Rightarrow> nat" where
  "leaf_count xs = (if length xs \<le> SIMPLEFS_FILE_EXTENTS_PER_LEAF then 0
     else (length xs + SIMPLEFS_FILE_EXTENTS_PER_LEAF - 1) div SIMPLEFS_FILE_EXTENTS_PER_LEAF)"

text \<open>
  The stores through the root folio, from the first dirtying of the root on: everything after the
  leaves have been written. The result is the status; \<open>metadata_changed\<close> is set throughout.
\<close>

definition sync_root :: "env \<Rightarrow> simplefs_extent list \<Rightarrow> u32 \<Rightarrow> u32 list \<Rightarrow> u32 list \<Rightarrow> (kst, status) state" where
  "sync_root E xs root new_leaves old_leaves = do {
     image \<leftarrow> gets (\<lambda>s. cache s root);
     set_cache root (fill_root xs new_leaves image);
     r \<leftarrow> simplefs_journal_dirty_folio E root root;
     if r \<noteq> None then ret r
     else do {
       h \<leftarrow> simplefs_journal_has_current_handle E;
       r \<leftarrow> (if \<not> h then simplefs_writeback_metadata_block E root else ret None);
       if r \<noteq> None then ret r
       else retire_each E (drop (length new_leaves) old_leaves)
     }
   }"

text \<open>
  The body between the allocation of the leaves and \<open>out:\<close>. The result is the status and
  \<open>metadata_changed\<close>.
\<close>

definition sync_tree :: "env \<Rightarrow> simplefs_extent list \<Rightarrow> u32 \<Rightarrow> u32 list \<Rightarrow> u32 list
    \<Rightarrow> (kst, status \<times> bool) state" where
  "sync_tree E xs root new_leaves old_leaves =
     (if ownership_overlap xs root new_leaves then ret (Some EUCLEAN, False)
      else do {
        root_folio \<leftarrow> simplefs_get_folio E root;
        (case root_folio of
           Inl e \<Rightarrow> ret (Some e, False)
         | Inr _ \<Rightarrow> do {
             (r, changed) \<leftarrow> sync_leaves E xs (length old_leaves) (enumerate 0 new_leaves) False;
             if r \<noteq> None then ret (r, changed)
             else do {
               h \<leftarrow> simplefs_journal_has_current_handle E;
               r \<leftarrow> (if \<not> h then writeback_blocks E new_leaves else ret None);
               if r \<noteq> None then ret (r, changed)
               else do { r \<leftarrow> sync_root E xs root new_leaves old_leaves; ret (r, True) }
             }
           })
      })"

text \<open>
  The end of the function, from the adjustment of \<open>i_blocks\<close> on: bookkeeping, or at \<open>out:\<close> the
  clean-up, and the stop of the handle.
\<close>

definition sync_finish :: "env \<Rightarrow> u32 \<Rightarrow> simplefs_extent_buffer \<Rightarrow> nat \<Rightarrow> u32 list \<Rightarrow> u32 list \<Rightarrow> bool \<Rightarrow> status \<times> bool
    \<Rightarrow> (kst, status \<times> simplefs_extent_buffer) state" where
  "sync_finish E ino buf n old fresh h p = (case p of (r, changed) \<Rightarrow> do {
     buf \<leftarrow> (case r of
        None \<Rightarrow> do {
          upd_inode ino (\<lambda>i. i\<lparr>i_blocks :=
            (if n \<ge> length old
             then i_blocks i + simplefs_blocks_to_sectors (of_nat (n - length old))
             else i_blocks i - simplefs_blocks_to_sectors (of_nat (length old - n)))\<rparr>);
          note_call (Mark_inode_dirty ino);
          ret (buf\<lparr>leaf_blocks := take n old @ fresh\<rparr>)
        }
      | Some e \<Rightarrow> do {
          when_true changed (simplefs_journal_fail e);
          when_true (\<not> changed) (retire_all E fresh);
          ret buf
        });
     stop_ret \<leftarrow> simplefs_journal_stop E h;
     ret (if r = None then stop_ret else r, buf)
   })"

definition simplefs_file_sync_extents ::
    "env \<Rightarrow> u32 \<Rightarrow> simplefs_extent_buffer \<Rightarrow> (kst, status \<times> simplefs_extent_buffer) state" where
  "simplefs_file_sync_extents E ino buf = do {
     let old_leaves = leaf_blocks buf;
     let buf = simplefs_file_normalize_extents buf;
     let xs = extents buf;
     if length xs > SIMPLEFS_MAX_FILE_EXTENTS then ret (Some EFBIG, buf)
     else do {
       let new_leaf_count = leaf_count xs;
       nomem \<leftarrow> (if new_leaf_count = 0 then ret None else ext E Kmalloc);
       if nomem \<noteq> None then ret (Some ENOMEM, buf)
       else do {
         handle \<leftarrow> simplefs_journal_start_sb E (int new_leaf_count + int (length old_leaves) + 8);
         (case handle of
            Inl e \<Rightarrow> ret (Some e, buf)
          | Inr h \<Rightarrow> do {
              (ok, fresh) \<leftarrow> alloc_leaves E (new_leaf_count - length old_leaves);
              root \<leftarrow> gets (\<lambda>s. ei_block (inodes s ino));
              p \<leftarrow> (if \<not> ok then ret (Some ENOSPC, False)
                 else sync_tree E xs root (take new_leaf_count old_leaves @ fresh) old_leaves);
              sync_finish E ino buf new_leaf_count old_leaves fresh h p
            })
       }
     }
   }"

section \<open>Freeing the tree\<close>

text \<open>The loop keeps the first error and goes on.\<close>

fun free_leaves :: "env \<Rightarrow> u32 list \<Rightarrow> status \<Rightarrow> (kst, status) state" where
  "free_leaves E [] first_error = ret first_error"
| "free_leaves E (l # ls) first_error = do {
     r \<leftarrow> simplefs_retire_metadata_blocks E l 1;
     free_leaves E ls (if r \<noteq> None \<and> first_error = None then r else first_error)
   }"

definition simplefs_file_free_extent_tree :: "env \<Rightarrow> u32 \<Rightarrow> (kst, status) state" where
  "simplefs_file_free_extent_tree E root_block = do {
     (r, buf) \<leftarrow> simplefs_file_load_extents E root_block;
     if r \<noteq> None then ret r else free_leaves E (leaf_blocks buf @ [root_block]) None
   }"

end
