(* ===== verification/SFS_ExtentProps.thy ===== *)
theory SFS_ExtentProps
  imports SFS_ExtentTree
begin

text \<open>
  What the extent tree code guarantees: the images that \<open>simplefs_file_sync_extents\<close> leaves are
  read back by \<open>simplefs_file_load_extents\<close> as the same extents and leaves; children reach the disk
  before their parent and a leaf is freed only after the root has let go of it; a failed
  synchronisation leaves the old tree or shuts the file system down.
\<close>

section \<open>Images of roots and leaves\<close>

definition leaf_ok :: "simplefs_extent list \<Rightarrow> block \<Rightarrow> bool" where
  "leaf_ok xs b \<longleftrightarrow> eh_magic b = SIMPLEFS_EXTENT_LEAF_MAGIC \<and> unat (eh_entries b) = length xs
     \<and> get_extents (length xs) b = xs"

definition root_ok :: "simplefs_extent list \<Rightarrow> u32 list \<Rightarrow> block \<Rightarrow> bool" where
  "root_ok xs leaves b \<longleftrightarrow> eh_magic b = SIMPLEFS_EXTENT_ROOT_MAGIC \<and>
     (if leaves = [] then eh_depth b = 0 \<and> unat (eh_entries b) = length xs \<and> get_extents (length xs) b = xs
      else eh_depth b = 1 \<and> unat (eh_entries b) = length leaves \<and>
        map leaf_block (get_indexes (length leaves) b) = leaves)"

text \<open>The images \<open>c\<close> hold the tree of extents \<open>xs\<close> with root block \<open>root\<close> and the given leaves.\<close>

definition tree_ok :: "(u32 \<Rightarrow> block) \<Rightarrow> u32 \<Rightarrow> simplefs_extent list \<Rightarrow> u32 list \<Rightarrow> bool" where
  "tree_ok c root xs leaves \<longleftrightarrow> root_ok xs leaves (c root) \<and> length leaves = leaf_count xs \<and>
     length xs \<le> SIMPLEFS_MAX_FILE_EXTENTS \<and>
     (\<forall>i<length leaves. leaf_ok (leaf_chunk xs i) (c (leaves ! i)))"

lemma header_frame:
  assumes "\<And>k. k < 8 \<Longrightarrow> b k = c k"
  shows "eh_magic b = eh_magic c" "eh_entries b = eh_entries c" "eh_depth b = eh_depth c"
  using assms by (auto simp: eh_magic_def eh_entries_def eh_depth_def get32_def get16_def)

lemma header_store_extents [simp]:
  "eh_magic (store_array put_extent 12 xs b 8) = eh_magic b"
  "eh_entries (store_array put_extent 12 xs b 8) = eh_entries b"
  "eh_depth (store_array put_extent 12 xs b 8) = eh_depth b"
  by (rule header_frame, rule extent_codec.store_array_frame, simp)+

lemma header_store_indexes [simp]:
  "eh_magic (store_array put_index 16 xs b 8) = eh_magic b"
  "eh_entries (store_array put_index 16 xs b 8) = eh_entries b"
  "eh_depth (store_array put_index 16 xs b 8) = eh_depth b"
  by (rule header_frame, rule index_codec.store_array_frame, simp)+

lemma header_set [simp]:
  "eh_magic (set_eh_magic v b) = v" "eh_magic (set_eh_entries w b) = eh_magic b"
  "eh_magic (set_eh_depth w b) = eh_magic b" "eh_magic (set_eh_max w b) = eh_magic b"
  "eh_entries (set_eh_entries w b) = w" "eh_entries (set_eh_depth w b) = eh_entries b"
  "eh_depth (set_eh_depth w b) = w" "eh_depth (set_eh_entries w b) = eh_depth b"
  by (simp_all add: eh_magic_def eh_entries_def eh_depth_def set_eh_magic_def set_eh_entries_def
      set_eh_depth_def set_eh_max_def mem_simps)

lemma get_extents_set_header [simp]:
  "get_extents n (set_eh_entries w b) = get_extents n b" "get_extents n (set_eh_depth w b) = get_extents n b"
  unfolding get_extents_def set_eh_entries_def set_eh_depth_def
  by (rule extent_codec.load_array_cong; simp add: put16_frame)+

lemma get_indexes_set_header [simp]:
  "get_indexes n (set_eh_entries w b) = get_indexes n b" "get_indexes n (set_eh_depth w b) = get_indexes n b"
  unfolding get_indexes_def set_eh_entries_def set_eh_depth_def
  by (rule index_codec.load_array_cong; simp add: put16_frame)+

lemma unat_of_nat_u16: "n < 65536 \<Longrightarrow> unat (of_nat n :: u16) = n"
  by (simp add: unat_of_nat take_bit_nat_eq_self)

lemma fill_leaf_ok: "length xs \<le> 340 \<Longrightarrow> leaf_ok xs (fill_leaf xs b)"
  by (simp add: leaf_ok_def fill_leaf_def simplefs_file_init_extent_leaf_def unat_of_nat_u16
      get_extents_def extent_codec.load_store_array)

lemma same_leaf_ok:
  assumes "eh_magic b = SIMPLEFS_EXTENT_LEAF_MAGIC" "unat (eh_entries b) = length xs"
    and "mem_eq b 8 (store_array put_extent 12 xs zero_block 8) 8 (length xs * 12)"
  shows "leaf_ok xs b"
proof -
  have "get_extents (length xs) b = get_extents (length xs) (store_array put_extent 12 xs zero_block 8)"
    unfolding get_extents_def
    by (rule extent_codec.load_array_cong) (use assms(3) in \<open>simp add: mem_eq_iff mult.commute\<close>)
  then show ?thesis using assms by (simp add: leaf_ok_def get_extents_def extent_codec.load_store_array)
qed

lemma leaf_block_index [simp]: "leaf_block (index_entry xs i l) = l"
  by (simp add: index_entry_def Let_def)

lemma map_leaf_block_entries: "map (leaf_block \<circ> (\<lambda>(i, l). index_entry xs i l)) (enumerate n ls) = ls"
  by (induction ls arbitrary: n) simp_all

lemma fill_root_ok:
  assumes "leaves = [] \<Longrightarrow> length xs \<le> 340" "length leaves \<le> 255"
  shows "root_ok xs leaves (fill_root xs leaves b)"
proof (cases "leaves = []")
  case True
  then show ?thesis using assms(1)
    by (simp add: root_ok_def fill_root_def simplefs_file_init_extent_root_def unat_of_nat_u16 Let_def)
      (simp add: get_extents_def extent_codec.load_store_array)
next
  case False
  let ?es = "map (\<lambda>(i, l). index_entry xs i l) (enumerate 0 leaves)"
  have "get_indexes (length leaves) (store_array put_index 16 ?es c 8) = ?es" for c
    using index_codec.load_store_array [of ?es c 8] by (simp add: get_indexes_def)
  then show ?thesis using assms(2) False
    by (simp add: root_ok_def fill_root_def simplefs_file_init_extent_root_def unat_of_nat_u16 Let_def
        map_leaf_block_entries)
qed

lemma leaf_chunk_length: "length (leaf_chunk xs i) \<le> 340"
  by (simp add: leaf_chunk_def)

lemma leaf_count_le: "length xs \<le> 86700 \<Longrightarrow> leaf_count xs \<le> 255"
  by (simp add: leaf_count_def) linarith

lemma concat_chunks:
  "length xs \<le> n * 340 \<Longrightarrow> concat (map (leaf_chunk xs) [0..<n]) = xs"
proof (induction n arbitrary: xs)
  case (Suc n)
  have "leaf_chunk xs (Suc i) = leaf_chunk (drop 340 xs) i" for i
    by (simp add: leaf_chunk_def add.commute)
  then have "map (leaf_chunk xs) [0..<Suc n] = take 340 xs # map (leaf_chunk (drop 340 xs)) [0..<n]"
    by (simp add: upt_conv_Cons map_Suc_upt [symmetric] leaf_chunk_def del: upt_Suc map_Suc_upt)
  then show ?case using Suc by (simp add: Suc.IH)
qed simp

lemma leaf_count_covers: "leaf_count xs \<noteq> 0 \<Longrightarrow> length xs \<le> leaf_count xs * 340"
  by (simp add: leaf_count_def split: if_splits)

section \<open>Loading\<close>

text \<open>An environment in which reads of metadata and allocations of memory succeed.\<close>

definition quiet :: "env \<Rightarrow> bool" where
  "quiet E \<longleftrightarrow> (\<forall>t n. kret E t (Read_mapping_folio n) = None) \<and> (\<forall>t. kret E t Kmalloc = None)"

lemma wp_prod [wp_simps]:
  "wp (case p of (a, b) \<Rightarrow> f a b) Q s = (case p of (a, b) \<Rightarrow> wp (f a b) Q s)"
  by (simp split: prod.split)

lemma wp_bind_fun: "wp (State_Monad.bind m f) Q = wp m (\<lambda>r. wp (f r) Q)"
  by (rule HOL.ext) (simp add: wp_bind)

lemma read_metadata_wp:
  assumes "\<And>e s1. cache s1 = cache s \<Longrightarrow> sframe s s1 \<Longrightarrow> grows s s1 \<Longrightarrow> \<not> quiet E \<Longrightarrow> Q (Inl e) s1"
    and "\<And>s1. cache s1 = cache s \<Longrightarrow> sframe s s1 \<Longrightarrow> grows s s1 \<Longrightarrow> Q (Inr (cache s n)) s1"
  shows "wp (simplefs_read_metadata E n) Q s"
proof -
  let ?s = "\<lambda>r. s\<lparr>trace := (Read_mapping_folio n, r) # trace s\<rparr>"
  have "sframe s (?s r)" "grows s (?s r)" for r
    by (simp_all add: sframe_def grows_def suffix_ConsI)
  moreover have "\<not> quiet E" if "kret E t (Read_mapping_folio n) = Some e" for t e
    using that by (auto simp: quiet_def)
  ultimately show ?thesis
    by (auto simp: simplefs_read_metadata_def wp_simps intro!: assms split: option.split)
qed

lemma grow_wp:
  assumes "\<And>r buf' s'. cache s' = cache s \<Longrightarrow> sbi s' = sbi s \<Longrightarrow> extents buf' = extents buf \<Longrightarrow>
      leaf_blocks buf' = leaf_blocks buf \<Longrightarrow> (quiet E \<Longrightarrow> r = None) \<Longrightarrow> (r \<noteq> None \<Longrightarrow> buf' = buf) \<Longrightarrow> Q (r, buf') s'"
  shows "wp (simplefs_file_grow_extent_buffer E buf m) Q s"
  by (auto simp: simplefs_file_grow_extent_buffer_def wp_simps Let_def intro!: assms) (auto simp: quiet_def)

lemma load_leaf_spec:
  assumes "leaf_ok xs (cache s l)" "length xs \<le> 340"
  shows "wp (simplefs_file_load_leaf E l buf) (\<lambda>(r, buf') s'. cache s' = cache s \<and>
     (r = None \<longrightarrow> extents buf' = extents buf @ xs \<and> leaf_blocks buf' = leaf_blocks buf) \<and> (quiet E \<longrightarrow> r = None)) s"
  unfolding simplefs_file_load_leaf_def wp_bind
  apply (rule read_metadata_wp)
   apply (simp add: wp_simps)
  using assms unfolding leaf_ok_def
  apply (simp add: wp_bind)
  apply (rule grow_wp)
  apply (auto simp: wp_simps)
  done

definition loaded :: "env \<Rightarrow> (u32 \<Rightarrow> block) \<Rightarrow> simplefs_extent_buffer \<Rightarrow> simplefs_extent list \<Rightarrow> u32 list
    \<Rightarrow> status \<times> simplefs_extent_buffer \<Rightarrow> kst \<Rightarrow> bool" where
  "loaded E c buf xs ls p s' \<longleftrightarrow> cache s' = c \<and> (quiet E \<longrightarrow> fst p = None) \<and>
     (fst p = None \<longrightarrow> extents (snd p) = extents buf @ xs \<and> leaf_blocks (snd p) = leaf_blocks buf @ ls)"

lemma load_leaves_spec:
  assumes "\<forall>i<length ls. leaf_ok (ch i) (cache s (ls ! i)) \<and> length (ch i) \<le> 340"
  shows "wp (load_leaves E ls buf) (loaded E (cache s) buf (concat (map ch [0..<length ls])) ls) s"
  using assms
proof (induction ls arbitrary: buf s ch)
  case (Cons l ls)
  define Q where "Q = loaded E (cache s) buf (concat (map ch [0..<length (l # ls)])) (l # ls)"
  let ?buf = "buf\<lparr>leaf_blocks := leaf_blocks buf @ [l]\<rparr>"
  have upt: "concat (map ch [0..<length (l # ls)]) = ch 0 @ concat (map (ch \<circ> Suc) [0..<length ls])"
    by (simp add: upt_conv_Cons map_Suc_upt [symmetric] comp_def del: upt_Suc map_Suc_upt)
  have rest: "wp (load_leaves E ls buf1) Q s1"
    if "cache s1 = cache s" "extents buf1 = extents buf @ ch 0" "leaf_blocks buf1 = leaf_blocks ?buf" for buf1 s1
  proof -
    have "\<forall>i<length ls. leaf_ok ((ch \<circ> Suc) i) (cache s1 (ls ! i)) \<and> length ((ch \<circ> Suc) i) \<le> 340"
      using Cons.prems that(1) by auto
    from Cons.IH [OF this, of buf1] show ?thesis
      unfolding Q_def upt by (rule wp_mono) (use that in \<open>simp add: loaded_def comp_def\<close>)
  qed
  have err: "Q (Some e, b) s1" if "cache s1 = cache s" "\<not> quiet E" for e b s1
    using that by (simp add: Q_def loaded_def)
  have "leaf_ok (ch 0) (cache s l)" "length (ch 0) \<le> 340" using Cons.prems by auto
  from load_leaf_spec [OF this, of E ?buf] show ?case
    unfolding load_leaves.simps wp_bind Q_def [symmetric]
    by (rule wp_mono) (auto simp: wp_simps intro: rest err)
qed (simp add: wp_simps loaded_def)

lemma load_extents_spec:
  assumes "tree_ok (cache s) root xs leaves"
  shows "wp (simplefs_file_load_extents E root) (loaded E (cache s) empty_buffer xs leaves) s"
proof -
  note root = assms [unfolded tree_ok_def root_ok_def]
  have chunks: "leaves \<noteq> [] \<Longrightarrow> concat (map (leaf_chunk xs) [0..<length leaves]) = xs"
    using root leaf_count_covers [of xs] by (intro concat_chunks) (metis length_0_conv)
  have leaves: "wp (load_leaves E leaves empty_buffer) (loaded E (cache s) empty_buffer xs leaves) s1"
    if "cache s1 = cache s" "leaves \<noteq> []" for s1
  proof -
    have "\<forall>i<length leaves. leaf_ok (leaf_chunk xs i) (cache s1 (leaves ! i)) \<and> length (leaf_chunk xs i) \<le> 340"
      using root that(1) by (simp add: leaf_chunk_length)
    from load_leaves_spec [OF this] show ?thesis using that(1) by (simp only: chunks [OF that(2)])
  qed
  have small: "leaves = [] \<Longrightarrow> length xs \<le> 340" "length leaves \<le> 255"
    using root leaf_count_le [of xs] by (auto simp: leaf_count_def split: if_splits)
  have nomem: "\<not> quiet E" if "kret E t Kmalloc = Some e" for t e using that by (auto simp: quiet_def)
  define n where "n = length leaves"
  have deep: "eh_depth (cache s root) = 1" "unat (eh_entries (cache s root)) = n"
    "map leaf_block (get_indexes n (cache s root)) = leaves" "n \<noteq> 0" "n \<le> 255" if "leaves \<noteq> []"
    using root small that unfolding n_def by (auto simp only: if_False length_0_conv)
  have magic: "eh_magic (cache s root) = SIMPLEFS_EXTENT_ROOT_MAGIC" using root by blast
  show ?thesis
    unfolding simplefs_file_load_extents_def wp_bind
  proof (rule read_metadata_wp, goal_cases)
    case (2 s1)
    show ?case
    proof (cases "leaves = []")
      case True
      then show ?thesis
        using root small 2(1)
        by (simp add: Let_def wp_bind) (rule grow_wp, auto simp: wp_simps loaded_def empty_buffer_def)
    next
      case False
      then show ?thesis
        using deep [OF False] magic leaves 2(1) nomem
        by (auto simp: Let_def wp_simps loaded_def)
    qed
  qed (simp add: wp_simps loaded_def)
qed

section \<open>Writing back\<close>

text \<open>
  The blocks \<open>bs\<close> are different metadata blocks in use, and so is everything up to
  \<open>root_dir_block\<close>.
\<close>

definition meta_ok :: "simplefs_sb_info \<Rightarrow> u32 list \<Rightarrow> bool" where
  "meta_ok sb bs \<longleftrightarrow> geom_ok sb \<and> (\<forall>k\<le>unat (root_dir_block sb). \<not> bfree_bitmap sb k) \<and> distinct bs \<and>
     (\<forall>b\<in>set bs. root_dir_block sb \<le> b \<and> \<not> bfree_bitmap sb (unat b))"

lemma meta_ok_take:
  assumes "meta_ok sb bs" "free_run sb q 1"
  shows "meta_ok (take_sb sb q 1) (bs @ [of_nat q])" "meta_ok (take_sb sb q 1) bs"
proof -
  note u = free_run_unat [OF assms(2)]
  have free: "bfree_bitmap sb q" using assms(2) by (simp add: free_run_def bm_one)
  then have "\<not> q \<le> unat (root_dir_block sb)" "of_nat q \<notin> set bs"
    using assms(1) u by (auto simp: meta_ok_def)
  moreover have "geom_ok (take_sb sb q 1)" "root_dir_block (take_sb sb q 1) = root_dir_block sb"
    using assms(1) by (simp_all add: meta_ok_def geom_ok_def root_dir_block_def take_sb_def)
  ultimately show "meta_ok (take_sb sb q 1) (bs @ [of_nat q])" "meta_ok (take_sb sb q 1) bs"
    using assms(1) u by (auto simp: meta_ok_def word_le_nat_alt) (auto simp: take_sb_def bm_clear_def)
qed

lemma meta_ok_zero: "meta_ok sb bs \<Longrightarrow> \<not> bfree_bitmap sb 0"
  by (simp add: meta_ok_def)

lemma get_free_blocks_wp:
  assumes "\<not> bfree_bitmap (sbi s) 0"
    and "\<And>r s'. aframe s s' \<Longrightarrow> oframe s s' \<Longrightarrow> took s len r s' \<Longrightarrow> Q r s'"
  shows "wp (get_free_blocks E len) Q s"
  by (rule wp_mono [OF wp_conj [OF get_free_blocks_spec [OF assms(1)]
        get_free_blocks_oframe [unfolded keeps_wp, rule_format]]]) (use assms(2) in auto)

lemma took_meta:
  assumes "took s 1 r s'" "meta_ok (sbi s) bs"
  shows "meta_ok (sbi s') (if r = 0 then bs else bs @ [r])" "free_blocks s' \<subseteq> free_blocks s - unat ` ({r} - {0})"
    "r \<noteq> 0 \<Longrightarrow> unat r \<in> free_blocks s"
  using assms meta_ok_take [OF assms(2)] free_run_unat [of "sbi s" _ 1] free_blocks_take [of s' s _ 1]
  by (auto simp: took_def) (auto simp: free_blocks_def free_run_def bm_one)

lemma alloc_leaves_spec:
  "meta_ok (sbi s) bs \<Longrightarrow> wp (alloc_leaves E k) (\<lambda>(ok, fresh) s'. aframe s s' \<and> oframe s s' \<and>
     meta_ok (sbi s') (bs @ fresh) \<and> (ok \<longrightarrow> length fresh = k) \<and>
     unat ` set fresh \<subseteq> free_blocks s \<and> free_blocks s' \<subseteq> free_blocks s - unat ` set fresh) s"
proof (induction k arbitrary: s bs)
  case (Suc k)
  show ?case
    unfolding alloc_leaves.simps wp_bind
  proof (rule get_free_blocks_wp [OF meta_ok_zero [OF Suc.prems]])
    fix r s1
    assume s1: "aframe s s1" "oframe s s1" and took: "took s 1 r s1"
    note m = took_meta [OF took Suc.prems]
    show "wp (if r = 0 then ret (False, []) else alloc_leaves E k \<bind> (\<lambda>(ok, bs). ret (ok, r # bs)))
      (\<lambda>(ok, fresh) s'. aframe s s' \<and> oframe s s' \<and> meta_ok (sbi s') (bs @ fresh) \<and>
        (ok \<longrightarrow> length fresh = Suc k) \<and>
        unat ` set fresh \<subseteq> free_blocks s \<and> free_blocks s' \<subseteq> free_blocks s - unat ` set fresh) s1"
    proof (cases "r = 0")
      case False
      then have "meta_ok (sbi s1) (bs @ [r])" using m by simp
      from Suc.IH [OF this] show ?thesis
        using False s1 m(2,3)
        by (simp add: wp_bind)
          (erule wp_mono, auto simp: wp_simps intro: afr.trans oframe_trans)
    qed (use s1 m in \<open>auto simp: wp_simps\<close>)
  qed
qed (simp add: wp_simps afr.refl oframe_refl)

declare not_None_eq [simp del]

text \<open>What a run over the leaves \<open>ils\<close> (indices and blocks) has done.\<close>

definition leaves_done :: "simplefs_extent list \<Rightarrow> (nat \<times> u32) list \<Rightarrow> bool \<Rightarrow> kst \<Rightarrow> status \<times> bool \<Rightarrow> kst \<Rightarrow> bool" where
  "leaves_done xs ils changed s p s' \<longleftrightarrow> sframe s s' \<and> grows s s' \<and>
     (\<forall>n. n \<notin> snd ` set ils \<longrightarrow> cache s' n = cache s n) \<and>
     (fst p = None \<longrightarrow> (\<forall>(i, l)\<in>set ils. leaf_ok (leaf_chunk xs i) (cache s' l))) \<and>
     (\<not> snd p \<longrightarrow> cache s' = cache s) \<and> (changed \<longrightarrow> snd p)"

lemma leaves_done_Cons:
  assumes "leaves_done xs ils ch' t p s'" "ch \<longrightarrow> ch'" "l \<notin> snd ` set ils"
    and "sframe s t" "grows s t" "\<forall>n. n \<noteq> l \<longrightarrow> cache t n = cache s n" "leaf_ok (leaf_chunk xs i) (cache t l)"
    and "\<not> ch' \<longrightarrow> cache t = cache s"
  shows "leaves_done xs ((i, l) # ils) ch s p s'"
  using assms unfolding leaves_done_def by (auto intro: sfr.trans grows_trans)

lemma get_zeroed_folio_wp:
  assumes "\<And>e s'. sframe s s' \<Longrightarrow> grows s s' \<Longrightarrow> \<forall>m. m \<noteq> n \<longrightarrow> cache s' m = cache s m \<Longrightarrow> Q (Inl e) s'"
    and "\<And>s'. sframe s s' \<Longrightarrow> grows s s' \<Longrightarrow> cache s' = (cache s)(n := zero_block) \<Longrightarrow> Q (Inr zero_block) s'"
  shows "wp (simplefs_get_zeroed_folio E n) Q s"
proof (rule wp_mono [OF wp_conj [OF get_zeroed_folio_spec wp_conj [OF get_zeroed_folio_sframe [unfolded keeps_wp, rule_format]
      get_zeroed_folio_grows [unfolded keeps_wp, rule_format]]]], elim conjE)
  fix r :: "errno + block" and s'
  assume "cache s' = cache s \<or> cache s' = (cache s)(n := zero_block)"
    "\<forall>b. r = Inr b \<longrightarrow> b = zero_block \<and> cache s' = (cache s)(n := zero_block)" "sframe s s'" "grows s s'"
  then show "Q r s'" using assms by (cases r) auto
qed

lemma dirty_folio_wp:
  assumes "\<And>r s'. sframe s s' \<Longrightarrow> oframe s s' \<Longrightarrow> cache s' = cache s \<Longrightarrow> Q r s'"
  shows "wp (simplefs_journal_dirty_folio E n f) Q s"
  by (rule wp_mono [OF wp_conj [OF dirty_folio_spec wp_conj [OF
        keeps_sframe [OF dirty_folio_leaf dirty_folio_jframe, unfolded keeps_wp, rule_format]
        dirty_folio_oframe [unfolded keeps_wp, rule_format]]]]) (use assms in auto)

lemma sync_leaves_spec:
  "distinct (map snd ils) \<Longrightarrow> wp (sync_leaves E xs old ils ch) (leaves_done xs ils ch s) s"
proof (induction ils arbitrary: s ch)
  case (Cons il ils)
  obtain i l where il: "il = (i, l)" by fastforce
  have l: "l \<notin> snd ` set ils" and dist: "distinct (map snd ils)" using Cons.prems il by simp_all
  define Q where "Q = leaves_done xs ((i, l) # ils) ch s"
  have err: "Q (Some e, b) s1" if "sframe s s1" "grows s s1" "\<forall>n. n \<noteq> l \<longrightarrow> cache s1 n = cache s n"
    "b \<or> cache s1 = cache s" "ch \<longrightarrow> b" for e b s1
    using that by (auto simp: Q_def leaves_done_def)
  have next_leaf: "wp (sync_leaves E xs old ils ch') Q s1"
    if "ch \<longrightarrow> ch'" "sframe s s1" "grows s s1" "\<forall>n. n \<noteq> l \<longrightarrow> cache s1 n = cache s n"
      "leaf_ok (leaf_chunk xs i) (cache s1 l)" "\<not> ch' \<longrightarrow> cache s1 = cache s" for ch' s1
    unfolding Q_def
    by (rule wp_mono [OF Cons.IH [OF dist]]) (rule leaves_done_Cons [OF _ that(1) l that(2-6)])
  have store: "wp (do { leaf \<leftarrow> simplefs_get_zeroed_folio E l;
      (case leaf of Inl e \<Rightarrow> ret (Some e, True)
       | Inr b \<Rightarrow> do { set_cache l (fill_leaf (leaf_chunk xs i) b);
           r \<leftarrow> simplefs_journal_dirty_folio E l l;
           if r \<noteq> None then ret (r, True) else sync_leaves E xs old ils True }) }) Q s1"
    if s1: "sframe s s1" "grows s s1" "cache s1 = cache s" for s1
    unfolding wp_bind
  proof (rule get_zeroed_folio_wp, goal_cases)
    case (1 e s2)
    then show ?case using s1 by (auto simp: wp_simps intro!: err intro: sfr.trans grows_trans)
  next
    case (2 s2)
    let ?b = "fill_leaf (leaf_chunk xs i) zero_block"
    let ?s3 = "s2\<lparr>cache := (cache s2)(l := ?b)\<rparr>"
    have s3: "sframe s ?s3" "grows s ?s3"
      using sfr.trans [OF s1(1) 2(1)] grows_trans [OF s1(2) 2(2)] by (simp_all add: sframe_def grows_def)
    show ?case unfolding sum.case wp_bind wp_set_cache
    proof (rule dirty_folio_wp)
      fix r s4
      assume s4: "sframe ?s3 s4" "oframe ?s3 s4" "cache s4 = cache ?s3"
      have fr: "sframe s s4" "grows s s4" "\<forall>n. n \<noteq> l \<longrightarrow> cache s4 n = cache s n" "cache s4 l = ?b"
        using sfr.trans [OF s3(1) s4(1)] grows_trans [OF s3(2) oframe_grows [OF s4(2)]] s4(3) 2(3) s1(3)
        by simp_all
      then show "wp (if r \<noteq> None then ret (r, True) else sync_leaves E xs old ils True) Q s4"
        using fill_leaf_ok [OF leaf_chunk_length] by (auto simp: wp_simps intro!: err next_leaf)
    qed
  qed
  have "wp (sync_leaves E xs old ((i, l) # ils) ch) Q s"
  proof (cases "i < old")
    case True
    show ?thesis
      unfolding sync_leaves.simps Let_def wp_bind
      apply (simp only: True if_True wp_bind)
      apply (rule read_metadata_wp)
       apply (simp add: wp_simps err)
      apply (simp only: sum.case wp_return wp_if)
      using store next_leaf [of ch] same_leaf_ok
      apply (auto simp: wp_bind)
      done
  next
    case False
    then show ?thesis using store [of s] by (simp add: Let_def wp_simps sfr.refl grows_refl)
  qed
  then show ?case by (simp add: il Q_def)
qed (simp add: wp_simps leaves_done_def sfr.refl grows_refl)

lemma writeback_blocks_spec:
  "wp (writeback_blocks E ls) (\<lambda>r s'. sframe s s' \<and> oframe s s' \<and> cache s' = cache s \<and>
     (r = None \<longrightarrow> (\<forall>l\<in>set ls. (Filemap_write_and_wait_range l 1, None) \<in> set (calls s s')))) s"
proof (induction ls arbitrary: s)
  case (Cons l ls)
  let ?s1 = "\<lambda>r. s\<lparr>trace := (Filemap_write_and_wait_range l 1, r) # trace s\<rparr>"
  have s1: "sframe s (?s1 r)" "oframe s (?s1 r)" "calls s (?s1 r) = [(Filemap_write_and_wait_range l 1, r)]" for r
    by (simp_all add: sframe_def oframe_def suffix_ConsI calls_def)
  have "wp (writeback_blocks E ls) (\<lambda>r s'. sframe s s' \<and> oframe s s' \<and> cache s' = cache s \<and>
     (r = None \<longrightarrow> (\<forall>l\<in>set (l # ls). (Filemap_write_and_wait_range l 1, None) \<in> set (calls s s')))) (?s1 None)"
    by (rule wp_mono [OF Cons])
      (use s1 calls_transO [OF s1(2) [of None]] in \<open>auto intro: sfr.trans oframe_trans\<close>)
  then show ?case
    using s1 by (simp add: simplefs_writeback_metadata_block_def wp_simps split: option.split)
qed (simp add: wp_simps sfr.refl oframe_refl)

lemma retire_each_rframe [frame_rules]: "keeps rframe (retire_each E ls)"
proof (induction ls)
  case (Cons l ls)
  show ?case unfolding retire_each.simps by (intro frame_rules Cons)
qed (simp, intro frame_rules)

lemma retire_all_rframe [frame_rules]: "keeps rframe (retire_all E ls)"
proof (induction ls)
  case (Cons l ls)
  show ?case unfolding retire_all.simps by (intro frame_rules Cons)
qed (simp, intro frame_rules)

lemma has_current_wp:
  assumes "\<And>h s'. sframe s s' \<Longrightarrow> oframe s s' \<Longrightarrow> cache s' = cache s \<Longrightarrow> (h \<Longrightarrow> has_jbd2 (s_journal s)) \<Longrightarrow> Q h s'"
  shows "wp (simplefs_journal_has_current_handle E) Q s"
proof -
  have "wp (simplefs_journal_has_current_handle E) (\<lambda>h s'. cache s' = cache s \<and> (h \<longrightarrow> has_jbd2 (s_journal s))) s"
    unfolding simplefs_journal_has_current_handle_def wp_bind wp_gets
    by (rule wp_mono [OF current_handle_spec]) simp
  from wp_conj [OF this wp_conj [OF keeps_sframe [OF has_current_leaf has_current_jframe, unfolded keeps_wp, rule_format]
        has_current_oframe [unfolded keeps_wp, rule_format]]]
  show ?thesis by (rule wp_mono) (use assms in auto)
qed

text \<open>Writing a block back when there is no handle, and the evidence it leaves.\<close>

definition flushed :: "u32 list \<Rightarrow> kst \<Rightarrow> kst \<Rightarrow> bool" where
  "flushed ls s s' \<longleftrightarrow> sframe s s' \<and> oframe s s' \<and> cache s' = cache s \<and>
     (\<not> has_jbd2 (s_journal s) \<longrightarrow> (\<forall>l\<in>set ls. (Filemap_write_and_wait_range l 1, None) \<in> set (calls s s')))"

lemma has_jbd2_sframe: "sframe s s' \<Longrightarrow> has_jbd2 (s_journal s') = has_jbd2 (s_journal s)"
  by (simp add: sframe_def)

lemma flush_wp:
  assumes "\<And>r s'. sframe s s' \<Longrightarrow> oframe s s' \<Longrightarrow> cache s' = cache s \<Longrightarrow> (r = None \<Longrightarrow> flushed ls s s') \<Longrightarrow> Q r s'"
    and "wb = writeback_blocks E ls"
  shows "wp (do { h \<leftarrow> simplefs_journal_has_current_handle E; if \<not> h then wb else ret None }) Q s"
  unfolding wp_bind
proof (rule has_current_wp)
  fix h s1
  assume s1: "sframe s s1" "oframe s s1" "cache s1 = cache s" "h \<Longrightarrow> has_jbd2 (s_journal s)"
  have yes: "Q None s1" if h using assms(1) [OF s1(1-3)] s1 that by (simp add: flushed_def)
  have "wp (writeback_blocks E ls) Q s1"
  proof (rule wp_mono [OF writeback_blocks_spec], elim conjE)
    fix r :: status and s2
    assume s2: "sframe s1 s2" "oframe s1 s2" "cache s2 = cache s1"
      "r = None \<longrightarrow> (\<forall>l\<in>set ls. (Filemap_write_and_wait_range l 1, None) \<in> set (calls s1 s2))"
    have fr: "sframe s s2" "oframe s s2" "cache s2 = cache s"
      using sfr.trans [OF s1(1) s2(1)] oframe_trans [OF s1(2) s2(2)] s1(3) s2(3) by simp_all
    show "Q r s2" by (rule assms(1) [OF fr]) (use s2(4) fr calls_transO [OF s1(2) s2(2)] in \<open>simp add: flushed_def\<close>)
  qed
  then show "wp (if \<not> h then wb else ret None) Q s1" using yes assms(2) by (simp add: wp_return)
qed

lemma writeback_one: "simplefs_writeback_metadata_block E l = writeback_blocks E [l]"
proof -
  have "(\<lambda>r. case r of None \<Rightarrow> ret None | Some e \<Rightarrow> ret (Some e)) = (ret :: status \<Rightarrow> (kst, status) state)"
    by (rule HOL.ext) (simp split: option.split)
  then show ?thesis by simp
qed

text \<open>What the root's stores leave behind.\<close>

definition root_written :: "simplefs_extent list \<Rightarrow> u32 \<Rightarrow> u32 list \<Rightarrow> kst \<Rightarrow> status \<Rightarrow> kst \<Rightarrow> bool" where
  "root_written xs root leaves s r s' \<longleftrightarrow> aframe s s' \<and> grows s s' \<and>
     (\<forall>n. root_dir_block (sbi s) \<le> n \<longrightarrow> n \<noteq> root \<longrightarrow> cache s' n = cache s n) \<and>
     (r = None \<longrightarrow> (\<exists>t. sbi t = sbi s \<and> grows s t \<and> oframe t s' \<and>
        cache t = (cache s)(root := fill_root xs leaves (cache s root)) \<and>
        (\<not> has_jbd2 (s_journal s) \<longrightarrow> (Filemap_write_and_wait_range root 1, None) \<in> set (calls s t))))"

lemma sync_root_spec:
  assumes "handle_ok s" "geom_ok (sbi s)"
  shows "wp (sync_root E xs root leaves old) (root_written xs root leaves s) s"
proof -
  let ?c = "(cache s)(root := fill_root xs leaves (cache s root))"
  let ?s1 = "s\<lparr>cache := ?c\<rparr>"
  have s1: "sframe s ?s1" "grows s ?s1" by (simp_all add: sframe_def grows_def)
  have part: "root_written xs root leaves s (Some e) s'"
    if "sframe s s'" "grows s s'" "cache s' = ?c" for e s'
    using that by (auto simp: root_written_def intro: sframe_aframe)
  have tail: "wp (retire_each E ls) (root_written xs root leaves s) s3"
    if s3: "sframe s s3" "grows s s3" "cache s3 = ?c"
      "\<not> has_jbd2 (s_journal s) \<Longrightarrow> (Filemap_write_and_wait_range root 1, None) \<in> set (calls s s3)" for s3 ls
  proof (rule wp_frame [OF retire_each_rframe])
    fix r s4
    assume "rframe s3 s4"
    moreover have "handle_ok s3" using assms(1) s3(1) by (simp add: sframe_def handle_ok_def)
    ultimately have s4: "aframe s3 s4" "oframe s3 s4" by (simp_all add: rframe_def)
    have sb: "sbi s3 = sbi s" by (rule sframe_sbi [OF s3(1)])
    have "cache s4 n = cache s n" if "root_dir_block (sbi s) \<le> n" "n \<noteq> root" for n
      using oframe_cache [OF s4(2), of n] assms(2) that s3(3) by (simp add: sb)
    then show "root_written xs root leaves s r s4"
      using s3 s4 sb sframe_aframe [OF s3(1)] oframe_grows [OF s4(2)] unfolding root_written_def
      by (blast intro: afr.trans grows_trans)
  qed
  show ?thesis
    unfolding sync_root_def wp_bind wp_gets wp_set_cache
  proof (rule dirty_folio_wp)
    fix r :: status and s2
    assume s2: "sframe ?s1 s2" "oframe ?s1 s2" "cache s2 = cache ?s1"
    have fr: "sframe s s2" "grows s s2" "cache s2 = ?c"
      using sfr.trans [OF s1(1) s2(1)] grows_trans [OF s1(2) oframe_grows [OF s2(2)]] s2(3) by simp_all
    have "wp (do { h \<leftarrow> simplefs_journal_has_current_handle E;
        if \<not> h then simplefs_writeback_metadata_block E root else ret None })
      (\<lambda>r. wp (if r \<noteq> None then ret r else retire_each E (drop (length leaves) old)) (root_written xs root leaves s)) s2"
    proof (rule flush_wp [where ls = "[root]" and E = E])
      fix r :: status and s3
      assume s3: "sframe s2 s3" "oframe s2 s3" "cache s3 = cache s2" "r = None \<Longrightarrow> flushed [root] s2 s3"
      have fr3: "sframe s s3" "grows s s3" "cache s3 = ?c"
        using sfr.trans [OF fr(1) s3(1)] grows_trans [OF fr(2) oframe_grows [OF s3(2)]] s3(3) fr(3) by simp_all
      have "(Filemap_write_and_wait_range root 1, None) \<in> set (calls s s3)"
        if "r = None" "\<not> has_jbd2 (s_journal s)"
        using s3(4) [OF that(1)] that(2) has_jbd2_sframe [OF fr(1)] calls_trans [OF fr(2) oframe_grows [OF s3(2)]]
        by (simp add: flushed_def)
      then show "wp (if r \<noteq> None then ret r else retire_each E (drop (length leaves) old))
          (root_written xs root leaves s) s3"
        using tail [OF fr3] part [OF fr3] by (auto simp: wp_return)
    qed (rule writeback_one)
    then show "wp (if r \<noteq> None then ret r else do {
        h \<leftarrow> simplefs_journal_has_current_handle E;
        r \<leftarrow> (if \<not> h then simplefs_writeback_metadata_block E root else ret None);
        if r \<noteq> None then ret r else retire_each E (drop (length leaves) old) }) (root_written xs root leaves s) s2"
      using part [OF fr] by (auto simp: wp_simps wp_bind_fun)
  qed
qed

text \<open>
  What a run of the body has done: it fails before anything has changed, or with
  \<open>metadata_changed\<close> set; if it succeeds the images are those of the tree.
\<close>

definition tree_written :: "simplefs_extent list \<Rightarrow> u32 \<Rightarrow> u32 list \<Rightarrow> kst \<Rightarrow> status \<times> bool \<Rightarrow> kst \<Rightarrow> bool" where
  "tree_written xs root leaves s p s' \<longleftrightarrow> aframe s s' \<and> grows s s' \<and>
     (\<forall>n. root_dir_block (sbi s) \<le> n \<longrightarrow> n \<notin> set (root # leaves) \<longrightarrow> cache s' n = cache s n) \<and>
     (\<not> snd p \<longrightarrow> fst p \<noteq> None \<and> cache s' = cache s) \<and>
     (fst p = None \<longrightarrow> (\<exists>t1 t2. grows s t1 \<and> grows t1 t2 \<and> oframe t2 s' \<and> sbi t1 = sbi s \<and> sbi t2 = sbi s \<and>
        cache t1 root = cache s root \<and> (\<forall>l\<in>set leaves. cache t2 l = cache t1 l) \<and>
        tree_ok (cache t2) root xs leaves \<and>
        (\<not> has_jbd2 (s_journal s) \<longrightarrow>
           (\<forall>l\<in>set leaves. (Filemap_write_and_wait_range l 1, None) \<in> set (calls s t1)) \<and>
           (Filemap_write_and_wait_range root 1, None) \<in> set (calls t1 t2))))"

lemma get_folio_wp:
  assumes "\<And>r s'. sframe s s' \<Longrightarrow> oframe s s' \<Longrightarrow> cache s' = cache s \<Longrightarrow> Q r s'"
  shows "wp (simplefs_get_folio E n) Q s"
  by (rule wp_mono [OF wp_conj [OF get_folio_spec wp_conj [OF
        keeps_sframe [OF get_folio_leaf get_folio_jframe, unfolded keeps_wp, rule_format]
        get_folio_oframe [unfolded keeps_wp, rule_format]]]]) (use assms in auto)

text \<open>The leaves are on disk and the root is written after them.\<close>

lemma root_after_leaves:
  assumes "geom_ok (sbi s)" "root \<notin> set leaves" "\<forall>l\<in>set (root # leaves). root_dir_block (sbi s) \<le> l"
    and "length leaves = leaf_count xs" "length xs \<le> 86700"
    and t1: "sframe s t1" "grows s t1" "\<forall>n. n \<notin> set leaves \<longrightarrow> cache t1 n = cache s n"
    and leaves: "\<forall>i<length leaves. leaf_ok (leaf_chunk xs i) (cache t1 (leaves ! i))"
    and wb: "\<not> has_jbd2 (s_journal s) \<longrightarrow> (\<forall>l\<in>set leaves. (Filemap_write_and_wait_range l 1, None) \<in> set (calls s t1))"
    and root: "root_written xs root leaves t1 r s'"
  shows "tree_written xs root leaves s (r, True) s'"
proof -
  have sb: "sbi t1 = sbi s" by (rule sframe_sbi [OF t1(1)])
  have off: "cache s' n = cache s n" if "root_dir_block (sbi s) \<le> n" "n \<notin> set (root # leaves)" for n
    using root that t1(3) sb by (simp add: root_written_def)
  have tree: "tree_ok (cache t) root xs leaves"
    if "cache t = (cache t1)(root := fill_root xs leaves (cache t1 root))" for t
  proof -
    have "leaves = [] \<Longrightarrow> length xs \<le> 340" using assms(4) by (simp add: leaf_count_def split: if_splits)
    then have "root_ok xs leaves (cache t root)"
      using that fill_root_ok leaf_count_le [OF assms(5)] assms(4) by simp
    moreover have "leaves ! i \<noteq> root" if "i < length leaves" for i using assms(2) that nth_mem by fastforce
    ultimately show ?thesis using assms(4,5) leaves that by (simp add: tree_ok_def)
  qed
  have order: "\<exists>t1 t2. grows s t1 \<and> grows t1 t2 \<and> oframe t2 s' \<and> sbi t1 = sbi s \<and> sbi t2 = sbi s \<and>
        cache t1 root = cache s root \<and> (\<forall>l\<in>set leaves. cache t2 l = cache t1 l) \<and>
        tree_ok (cache t2) root xs leaves \<and>
        (\<not> has_jbd2 (s_journal s) \<longrightarrow>
           (\<forall>l\<in>set leaves. (Filemap_write_and_wait_range l 1, None) \<in> set (calls s t1)) \<and>
           (Filemap_write_and_wait_range root 1, None) \<in> set (calls t1 t2))" if ok: "r = None"
  proof -
    obtain t where t: "sbi t = sbi t1" "grows t1 t" "oframe t s'"
        "cache t = (cache t1)(root := fill_root xs leaves (cache t1 root))"
        "\<not> has_jbd2 (s_journal t1) \<longrightarrow> (Filemap_write_and_wait_range root 1, None) \<in> set (calls t1 t)"
      using root [unfolded root_written_def ok] by auto
    have "\<forall>l\<in>set leaves. cache t l = cache t1 l" using t(4) assms(2) by auto
    then show ?thesis
      using t t1 sb tree [OF t(4)] wb assms(2) has_jbd2_sframe [OF t1(1)]
      by (intro exI [of _ t1] exI [of _ t] conjI) simp_all
  qed
  have "aframe s s'" "grows s s'"
    using root sframe_aframe [OF t1(1)] t1(2) unfolding root_written_def
    by (blast intro: afr.trans grows_trans)+
  then show ?thesis
    unfolding tree_written_def using off order by simp
qed

lemma snd_enumerate: "snd ` set (enumerate n ls) = set ls"
  by (metis map_snd_enumerate set_map)

lemma tree_written_early:
  "sframe s s' \<Longrightarrow> grows s s' \<Longrightarrow> \<forall>n. n \<notin> set leaves \<longrightarrow> cache s' n = cache s n \<Longrightarrow>
   ch \<or> cache s' = cache s \<Longrightarrow> tree_written xs root leaves s (Some e, ch) s'"
  by (auto simp: tree_written_def intro: sframe_aframe)

lemma sync_tree_spec:
  assumes "handle_ok s" "meta_ok (sbi s) (root # leaves)" "length leaves = leaf_count xs" "length xs \<le> 86700"
  shows "wp (sync_tree E xs root leaves old) (tree_written xs root leaves s) s"
proof (cases "ownership_overlap xs root leaves")
  case True
  then show ?thesis
    by (simp add: sync_tree_def wp_return tree_written_early sfr.refl grows_refl)
next
  case False
  note m = assms(2) [unfolded meta_ok_def]
  have dist: "distinct (map snd (enumerate 0 leaves))" using m by simp
  define Q where "Q = tree_written xs root leaves s"
  have err: "Q (Some e, ch) s1" if "sframe s s1" "grows s s1" "\<forall>n. n \<notin> set leaves \<longrightarrow> cache s1 n = cache s n"
    "ch \<or> cache s1 = cache s" for e ch s1
    unfolding Q_def by (rule tree_written_early [OF that])
  have last: "wp (do { r \<leftarrow> sync_root E xs root leaves old; ret (r, True) }) Q t1"
    if t1: "sframe s t1" "grows s t1" "\<forall>n. n \<notin> set leaves \<longrightarrow> cache t1 n = cache s n"
      "\<forall>i<length leaves. leaf_ok (leaf_chunk xs i) (cache t1 (leaves ! i))"
      "\<not> has_jbd2 (s_journal s) \<longrightarrow> (\<forall>l\<in>set leaves. (Filemap_write_and_wait_range l 1, None) \<in> set (calls s t1))" for t1
  proof -
    have "handle_ok t1" "geom_ok (sbi t1)"
      using assms(1) t1(1) m sframe_sbi [OF t1(1)] by (simp_all add: sframe_def handle_ok_def)
    from sync_root_spec [OF this] show ?thesis
      unfolding wp_bind wp_return_fun Q_def
      by (rule wp_mono) (rule root_after_leaves [OF _ _ _ assms(3,4) t1], use m in auto)
  qed
  have flush: "wp (do {
        h \<leftarrow> simplefs_journal_has_current_handle E;
        r \<leftarrow> (if \<not> h then writeback_blocks E leaves else ret None);
        if r \<noteq> None then ret (r, ch)
        else do { r \<leftarrow> sync_root E xs root leaves old; ret (r, True) } }) Q s1"
    if s1: "sframe s s1" "grows s s1" "\<forall>n. n \<notin> set leaves \<longrightarrow> cache s1 n = cache s n" "ch \<or> cache s1 = cache s"
      "\<forall>i<length leaves. leaf_ok (leaf_chunk xs i) (cache s1 (leaves ! i))" for ch s1
  proof -
    have "wp (do { h \<leftarrow> simplefs_journal_has_current_handle E; if \<not> h then writeback_blocks E leaves else ret None })
      (\<lambda>r. wp (if r \<noteq> None then ret (r, ch) else do { r \<leftarrow> sync_root E xs root leaves old; ret (r, True) }) Q) s1"
    proof (rule flush_wp [OF _ refl])
      fix r :: status and s2
      assume s2: "sframe s1 s2" "oframe s1 s2" "cache s2 = cache s1" "r = None \<Longrightarrow> flushed leaves s1 s2"
      have fr: "sframe s s2" "grows s s2" "\<forall>n. n \<notin> set leaves \<longrightarrow> cache s2 n = cache s n" "ch \<or> cache s2 = cache s"
        using sfr.trans [OF s1(1) s2(1)] grows_trans [OF s1(2) oframe_grows [OF s2(2)]] s1(3,4) s2(3) by simp_all
      have "\<not> has_jbd2 (s_journal s) \<longrightarrow> (\<forall>l\<in>set leaves. (Filemap_write_and_wait_range l 1, None) \<in> set (calls s s2))"
        if "r = None"
        using s2(4) [OF that] has_jbd2_sframe [OF s1(1)] calls_trans [OF s1(2) oframe_grows [OF s2(2)]]
        by (simp add: flushed_def)
      then show "wp (if r \<noteq> None then ret (r, ch) else do { r \<leftarrow> sync_root E xs root leaves old; ret (r, True) }) Q s2"
        using last [OF fr(1-3)] err [OF fr] s1(5) s2(3) by (auto simp: wp_return)
    qed
    then show ?thesis by (simp add: wp_bind wp_bind_fun)
  qed
  have leaves: "wp (do {
      (r, changed) \<leftarrow> sync_leaves E xs (length old) (enumerate 0 leaves) False;
      if r \<noteq> None then ret (r, changed)
      else do {
        h \<leftarrow> simplefs_journal_has_current_handle E;
        r \<leftarrow> (if \<not> h then writeback_blocks E leaves else ret None);
        if r \<noteq> None then ret (r, changed)
        else do { r \<leftarrow> sync_root E xs root leaves old; ret (r, True) } } }) Q s1"
    if s1: "sframe s s1" "oframe s s1" "cache s1 = cache s" for s1
    unfolding wp_bind [of "sync_leaves E xs (length old) (enumerate 0 leaves) False"]
  proof (rule wp_mono [OF sync_leaves_spec [OF dist]])
    fix p :: "status \<times> bool" and s2
    assume d: "leaves_done xs (enumerate 0 leaves) False s1 p s2"
    obtain r0 ch where p: "p = (r0, ch)" by fastforce
    have fr: "sframe s s2" "grows s s2" "\<forall>n. n \<notin> set leaves \<longrightarrow> cache s2 n = cache s n" "snd p \<or> cache s2 = cache s"
      using d s1 oframe_grows [OF s1(2)]
      by (auto simp: leaves_done_def snd_enumerate intro: sfr.trans grows_trans)
    have "\<forall>i<length leaves. leaf_ok (leaf_chunk xs i) (cache s2 (leaves ! i))" if "fst p = None"
      using d that by (auto simp: leaves_done_def in_set_enumerate_eq)
    then show "wp (case p of (r, changed) \<Rightarrow> if r \<noteq> None then ret (r, changed)
      else do {
        h \<leftarrow> simplefs_journal_has_current_handle E;
        r \<leftarrow> (if \<not> h then writeback_blocks E leaves else ret None);
        if r \<noteq> None then ret (r, changed)
        else do { r \<leftarrow> sync_root E xs root leaves old; ret (r, True) } }) Q s2"
      using flush [OF fr(1-3), of ch] err [OF fr(1-3), of ch] fr(4) by (auto simp: p wp_return)
  qed
  show ?thesis
    unfolding sync_tree_def Q_def [symmetric] using False
    apply (simp only: if_False wp_bind [of "simplefs_get_folio E root"])
    apply (rule get_folio_wp)
    subgoal for r s1
      using leaves err oframe_grows by (cases r) (simp_all add: wp_return)
    done
qed

section \<open>The whole synchronisation\<close>

lemma tree_ok_cong:
  "tree_ok c root xs leaves \<Longrightarrow> (\<And>n. n \<in> set (root # leaves) \<Longrightarrow> d n = c n) \<Longrightarrow> tree_ok d root xs leaves"
  by (simp add: tree_ok_def)

text \<open>
  The result of \<open>simplefs_file_sync_extents\<close>: \<open>xs\<close> are the normalised extents, \<open>old\<close> the leaves
  before. The last part is the order of writes on a file system without a journal.
\<close>

definition write_order :: "simplefs_extent list \<Rightarrow> u32 \<Rightarrow> u32 list \<Rightarrow> kst \<Rightarrow> kst \<Rightarrow> bool" where
  "write_order xs root leaves s s' \<longleftrightarrow> (\<exists>t1 t2. grows s t1 \<and> grows t1 t2 \<and> grows t2 s' \<and>
     cache t1 root = cache s root \<and> (\<forall>l\<in>set leaves. cache t2 l = cache t1 l) \<and>
     (\<forall>l\<in>set leaves. (Filemap_write_and_wait_range l 1, None) \<in> set (calls s t1)) \<and>
     (Filemap_write_and_wait_range root 1, None) \<in> set (calls t1 t2) \<and>
     tree_ok (cache t2) root xs leaves \<and> free_blocks t2 \<subseteq> free_blocks s)"

definition synced :: "u32 \<Rightarrow> simplefs_extent_buffer \<Rightarrow> kst \<Rightarrow> status \<times> simplefs_extent_buffer \<Rightarrow> kst \<Rightarrow> bool" where
  "synced ino buf s p s' \<longleftrightarrow>
     (let xs = extents (simplefs_file_normalize_extents buf); root = ei_block (inodes s ino) in
      extents (snd p) = xs \<and> grows s s' \<and> s_journal s' = s_journal s \<and>
      (\<forall>n. root_dir_block (sbi s) \<le> n \<longrightarrow> \<not> bfree_bitmap (sbi s) (unat n) \<longrightarrow> n \<notin> set (root # leaf_blocks buf) \<longrightarrow>
         cache s' n = cache s n) \<and>
      (fst p = None \<longrightarrow> tree_ok (cache s') root xs (leaf_blocks (snd p)) \<and>
         \<not> ownership_overlap xs root (leaf_blocks (snd p)) \<and>
         inodes s' = (inodes s)(ino := (inodes s ino)\<lparr>i_blocks := i_blocks (inodes s ino)
           + simplefs_blocks_to_sectors (of_nat (leaf_count xs)) - simplefs_blocks_to_sectors (of_nat (length (leaf_blocks buf)))\<rparr>) \<and>
         (\<not> has_jbd2 (s_journal s) \<longrightarrow> write_order xs root (leaf_blocks (snd p)) s s')) \<and>
      (fst p \<noteq> None \<longrightarrow> failed s' \<or> inodes s' = inodes s \<and> leaf_blocks (snd p) = leaf_blocks buf \<and>
         (\<forall>n. root_dir_block (sbi s) \<le> n \<longrightarrow> cache s' n = cache s n)))"

lemma sync_tree_overlap:
  "wp (sync_tree E xs root leaves old) (\<lambda>p s'. fst p = None \<longrightarrow> \<not> ownership_overlap xs root leaves) s"
  by (cases "ownership_overlap xs root leaves") (simp_all add: sync_tree_def wp_return wp_True)

lemma finish_ok:
  assumes "handle_ok s" "started s h s3"
  shows "wp (sync_finish E ino buf n old fresh h (None, ch)) (\<lambda>p s'. grows s3 s' \<and> s_journal s' = s_journal s \<and>
     cache s' = cache s3 \<and> snd p = buf\<lparr>leaf_blocks := take n old @ fresh\<rparr> \<and> (fst p = None \<or> failed s') \<and>
     inodes s' = (inodes s)(ino := (inodes s ino)\<lparr>i_blocks := i_blocks (inodes s ino)
       + simplefs_blocks_to_sectors (of_nat n) - simplefs_blocks_to_sectors (of_nat (length old))\<rparr>)) s3"
proof -
  let ?i = "(inodes s)(ino := (inodes s ino)\<lparr>i_blocks := i_blocks (inodes s ino)
       + simplefs_blocks_to_sectors (of_nat n) - simplefs_blocks_to_sectors (of_nat (length old))\<rparr>)"
  let ?s4 = "s3\<lparr>inodes := ?i, trace := (Mark_inode_dirty ino, None) # trace s3\<rparr>"
  have ino: "inodes s3 = inodes s" using assms(2) by (simp add: started_def)
  have upd: "(if n \<ge> length old then v + simplefs_blocks_to_sectors (of_nat (n - length old))
      else v - simplefs_blocks_to_sectors (of_nat (length old - n)))
    = v + simplefs_blocks_to_sectors (of_nat n) - simplefs_blocks_to_sectors (of_nat (length old))" for v
    by (simp add: simplefs_blocks_to_sectors_def of_nat_diff left_diff_distrib)
  have st: "started (s\<lparr>inodes := ?i\<rparr>) h ?s4" using assms(2) by (simp add: started_def)
  have ok: "handle_ok (s\<lparr>inodes := ?i\<rparr>)" using assms(1) by (simp add: handle_ok_def)
  have g: "grows s3 ?s4" by (simp add: grows_def suffix_ConsI)
  have "wp (simplefs_journal_stop E h) (\<lambda>r s'. grows s3 s' \<and> s_journal s' = s_journal s \<and>
     cache s' = cache s3 \<and> (r = None \<or> failed s') \<and> inodes s' = ?i) ?s4"
  proof (rule stop_any_wp [OF st])
    fix r :: status and s5
    assume s5: "aframe (s\<lparr>inodes := ?i\<rparr>) s5" "oframe ?s4 s5" "cache s5 = cache ?s4"
      "r = None \<or> (Jbd2_journal_stop, r) \<in> set (trace s5)"
    show "grows s3 s5 \<and> s_journal s5 = s_journal s \<and> cache s5 = cache s3 \<and> (r = None \<or> failed s5) \<and> inodes s5 = ?i"
      using s5 ok grows_trans [OF g oframe_grows [OF s5(2)]] by (cases r) (auto simp: aframe_def failed_def)
  qed
  then show ?thesis
    unfolding sync_finish_def
    by (simp add: wp_simps ino upd) (erule wp_mono, auto simp: wp_return)
qed

lemma finish_err:
  assumes "handle_ok s" "started s h s3"
  shows "wp (sync_finish E ino buf n old fresh h (Some e, ch)) (\<lambda>p s'. oframe s3 s' \<and> s_journal s' = s_journal s \<and>
     p = (Some e, buf) \<and> inodes s' = inodes s \<and> (ch \<longrightarrow> s_shutdown s')) s3"
proof -
  have hok: "handle_ok s3" by (rule started_handle_ok [OF assms])
  have stop: "wp (simplefs_journal_stop E h) (\<lambda>r s'. oframe s3 s' \<and> s_journal s' = s_journal s \<and>
      inodes s' = inodes s \<and> (ch \<longrightarrow> s_shutdown s')) s4"
    if s4: "started s h s4" "oframe s3 s4" "ch \<longrightarrow> s_shutdown s4" for s4
  proof (rule stop_any_wp [OF s4(1)])
    show "oframe s3 s5 \<and> s_journal s5 = s_journal s \<and> inodes s5 = inodes s \<and> (ch \<longrightarrow> s_shutdown s5)"
      if "aframe s s5" "oframe s4 s5" for s5
      using that assms(1) s4 oframe_trans [OF s4(2) that(2)] by (auto simp: aframe_def oframe_def)
  qed
  have fail: "wp (simplefs_journal_fail e) (\<lambda>_ s4. sframe s3 s4 \<and> oframe s3 s4 \<and> s_shutdown s4) s3"
  proof (rule wp_conj [OF _ wp_conj])
    show "wp (simplefs_journal_fail e) (\<lambda>_. sframe s3) s3"
      using keeps_sframe [OF journal_fail_leaf journal_fail_jframe] by (simp add: keeps_wp)
    show "wp (simplefs_journal_fail e) (\<lambda>_. oframe s3) s3" using journal_fail_oframe by (simp add: keeps_wp)
    show "wp (simplefs_journal_fail e) (\<lambda>_ s4. s_shutdown s4) s3"
      by (simp add: simplefs_journal_fail_def wp_simps)
  qed
  show ?thesis
  proof (cases ch)
    case True
    show ?thesis
      unfolding sync_finish_def
      apply (simp add: True wp_simps)
      apply (rule wp_mono [OF fail])
      apply (simp add: wp_simps)
      apply (rule wp_mono [OF stop])
      using True apply (auto simp: wp_return intro: started_step [OF assms(2)])
      done
  next
    case False
    have "wp (retire_all E fresh) (\<lambda>_ s4. aframe s3 s4 \<and> oframe s3 s4) s3"
      by (rule wp_frame [OF retire_all_rframe]) (simp add: rframe_def hok)
    then show ?thesis
      unfolding sync_finish_def using False
      apply (simp add: wp_simps)
      apply (erule wp_mono)
      apply (simp add: wp_simps)
      apply (rule wp_mono [OF stop])
      apply (auto simp: wp_return intro: started_aframe [OF assms])
      done
  qed
qed

lemma meta_ok_sub: "meta_ok sb bs \<Longrightarrow> set cs \<subseteq> set bs \<Longrightarrow> distinct cs \<Longrightarrow> meta_ok sb cs"
  by (auto simp: meta_ok_def)

lemma has_jbd2_grows: "grows s s' \<Longrightarrow> has_jbd2 (s_journal s') = has_jbd2 (s_journal s)"
  by (cases "s_journal s"; cases "s_journal s'") (auto simp: grows_def has_jbd2_def)

lemma tree_written_order:
  assumes "tree_written xs root ls s (None, ch) s3"
  obtains t1 t2 where "grows s t1" "grows t1 t2" "oframe t2 s3" "sbi t1 = sbi s" "sbi t2 = sbi s"
    "cache t1 root = cache s root" "\<forall>l\<in>set ls. cache t2 l = cache t1 l" "tree_ok (cache t2) root xs ls"
    "\<not> has_jbd2 (s_journal s) \<longrightarrow>
       (\<forall>l\<in>set ls. (Filemap_write_and_wait_range l 1, None) \<in> set (calls s t1)) \<and>
       (Filemap_write_and_wait_range root 1, None) \<in> set (calls t1 t2)"
proof -
  have "\<exists>t1 t2. grows s t1 \<and> grows t1 t2 \<and> oframe t2 s3 \<and> sbi t1 = sbi s \<and> sbi t2 = sbi s \<and>
        cache t1 root = cache s root \<and> (\<forall>l\<in>set ls. cache t2 l = cache t1 l) \<and>
        tree_ok (cache t2) root xs ls \<and>
        (\<not> has_jbd2 (s_journal s) \<longrightarrow>
           (\<forall>l\<in>set ls. (Filemap_write_and_wait_range l 1, None) \<in> set (calls s t1)) \<and>
           (Filemap_write_and_wait_range root 1, None) \<in> set (calls t1 t2))"
    using assms by (simp add: tree_written_def)
  then show thesis using that by (elim exE conjE)
qed

lemma tree_written_ok:
  assumes "tree_written xs root ls s (None, ch) s3" "meta_ok (sbi s) (root # ls)"
  shows "tree_ok (cache s3) root xs ls"
proof -
  obtain t1 t2 where t: "oframe t2 s3" "sbi t2 = sbi s" "tree_ok (cache t2) root xs ls"
    using assms(1) by (rule tree_written_order)
  show ?thesis
    by (rule tree_ok_cong [OF t(3)], rule oframe_cache [OF t(1)])
      (use assms(2) t(2) in \<open>auto simp: meta_ok_def\<close>)
qed

lemma tree_written_write_order:
  assumes "tree_written xs root ls s2 (None, ch) s3" "grows s s2" "cache s2 root = cache s root"
    and "free_blocks s2 \<subseteq> free_blocks s" "\<not> has_jbd2 (s_journal s)" "grows s3 s'"
  shows "write_order xs root ls s s'"
proof -
  obtain t1 t2 where t: "grows s2 t1" "grows t1 t2" "oframe t2 s3" "sbi t1 = sbi s2" "sbi t2 = sbi s2"
    "cache t1 root = cache s2 root" "\<forall>l\<in>set ls. cache t2 l = cache t1 l" "tree_ok (cache t2) root xs ls"
    "\<not> has_jbd2 (s_journal s2) \<longrightarrow>
       (\<forall>l\<in>set ls. (Filemap_write_and_wait_range l 1, None) \<in> set (calls s2 t1)) \<and>
       (Filemap_write_and_wait_range root 1, None) \<in> set (calls t1 t2)"
    using assms(1) by (rule tree_written_order)
  have g: "grows s t1" "grows t2 s'"
    using grows_trans [OF assms(2) t(1)] grows_trans [OF oframe_grows [OF t(3)] assms(6)] by simp_all
  have "free_blocks t2 = free_blocks s2" using t(5) by (simp add: free_blocks_def)
  then show ?thesis
    unfolding write_order_def
    using t g assms(3-5) has_jbd2_grows [OF assms(2)] calls_trans [OF assms(2) t(1)]
    by (intro exI [of _ t1] exI [of _ t2]) simp
qed

text \<open>From the state after the allocation of the leaves on.\<close>

lemma sync_from_alloc:
  assumes bufn_def: "bufn = simplefs_file_normalize_extents buf" and xs_def: "xs = extents bufn"
    and root_def: "root = ei_block (inodes s ino)" and old_def: "old = leaf_blocks buf"
    and "handle_ok s" "geom_ok (sbi s)" "length xs \<le> 86700" "root_dir_block (sbi s) \<le> root"
    and s2: "started s h s2" "oframe s s2" "meta_ok (sbi s2) ((root # old) @ fresh)"
    and fresh: "unat ` set fresh \<subseteq> free_blocks s" "free_blocks s2 \<subseteq> free_blocks s"
    and ok: "ok \<Longrightarrow> length fresh = leaf_count xs - length old"
  shows "wp (do {
      p \<leftarrow> (if \<not> ok then ret (Some ENOSPC, False)
            else sync_tree E xs root (take (leaf_count xs) old @ fresh) old);
      sync_finish E ino bufn (leaf_count xs) old fresh h p }) (synced ino buf s) s2"
proof -
  let ?ls = "take (leaf_count xs) old @ fresh"
  have hok: "handle_ok s2" by (rule started_handle_ok [OF assms(5) s2(1)])
  have cs2: "cache s2 n = cache s n" if "root_dir_block (sbi s) \<le> n" for n
    using oframe_cache [OF s2(2) assms(6) that] .
  have root2: "root_dir_block (sbi s2) = root_dir_block (sbi s)" "geom_ok (sbi s2)"
    using geometry_root [OF oframe_geometry [OF s2(2)]] geometry_ok [OF oframe_geometry [OF s2(2)]] assms(6) by simp_all
  have early: "wp (sync_finish E ino bufn n old fresh h (Some e, ch)) (synced ino buf s) s3"
    if s3: "started s h s3" "grows s s3" "\<forall>n. root_dir_block (sbi s) \<le> n \<longrightarrow> n \<notin> set (root # ?ls) \<longrightarrow> cache s3 n = cache s n"
      "ch \<or> (\<forall>n. root_dir_block (sbi s) \<le> n \<longrightarrow> cache s3 n = cache s n)" for e ch s3 n
  proof (rule wp_mono [OF finish_err [OF assms(5) s3(1)]], elim conjE)
    fix p s'
    assume s': "oframe s3 s'" "s_journal s' = s_journal s" "p = (Some e, bufn)" "inodes s' = inodes s" "ch \<longrightarrow> s_shutdown s'"
    have "geom_ok (sbi s3)" "root_dir_block (sbi s3) = root_dir_block (sbi s)"
      using s3(2) assms(6) geometry_root [of "sbi s3" "sbi s"] geometry_ok [of "sbi s3" "sbi s"] by (simp_all add: grows_def)
    then have c: "cache s' n = cache s3 n" if "root_dir_block (sbi s) \<le> n" for n
      using oframe_cache [OF s'(1), of n] that by simp
    have "n \<notin> set fresh" if "\<not> bfree_bitmap (sbi s) (unat n)" for n
      using fresh(1) that by (auto simp: free_blocks_def)
    then have "cache s' n = cache s n" if "root_dir_block (sbi s) \<le> n" "\<not> bfree_bitmap (sbi s) (unat n)" "n \<notin> set (root # old)" for n
      using that c s3(3) by (auto dest: in_set_takeD)
    moreover have "leaf_blocks bufn = leaf_blocks buf" by (simp add: bufn_def simplefs_file_normalize_extents_def)
    ultimately show "synced ino buf s p s'"
      using s' s3(2,4) c grows_trans [OF s3(2) oframe_grows [OF s'(1)]]
      unfolding synced_def Let_def by (auto simp: failed_def root_def old_def xs_def bufn_def)
  qed
  have tree: "wp (sync_tree E xs root ?ls old) (\<lambda>p s3. wp (sync_finish E ino bufn (leaf_count xs) old fresh h p)
      (synced ino buf s) s3) s2" if ok
  proof -
    have len: "length ?ls = leaf_count xs" using ok [OF that] by simp
    have meta: "meta_ok (sbi s2) (root # ?ls)"
      by (rule meta_ok_sub [OF s2(3)]) (use s2(3) in \<open>auto simp: meta_ok_def dest: in_set_takeD\<close>)
    show ?thesis
    proof (rule wp_mono [OF wp_conj [OF sync_tree_spec [OF hok meta len assms(7)] sync_tree_overlap]], elim conjE)
      fix p :: "status \<times> bool" and s3
      assume tw: "tree_written xs root ?ls s2 p s3" and ov: "fst p = None \<longrightarrow> \<not> ownership_overlap xs root ?ls"
      obtain r ch where p: "p = (r, ch)" by fastforce
      note tw' = tw [unfolded tree_written_def p fst_conv snd_conv root2]
      have s3: "started s h s3" "grows s s3"
        using started_aframe [OF assms(5) s2(1)] grows_trans [OF oframe_grows [OF s2(2)]] tw' by blast+
      have off: "\<forall>n. root_dir_block (sbi s) \<le> n \<longrightarrow> n \<notin> set (root # ?ls) \<longrightarrow> cache s3 n = cache s n"
        using tw' cs2 by simp
      show "wp (sync_finish E ino bufn (leaf_count xs) old fresh h p) (synced ino buf s) s3"
      proof (cases r)
        case (Some e)
        have "ch \<or> (\<forall>n. root_dir_block (sbi s) \<le> n \<longrightarrow> cache s3 n = cache s n)" using tw' cs2 by auto
        then show ?thesis using early [OF s3 off] by (simp add: p Some)
      next
        case None
        have t: "tree_ok (cache s3) root xs ?ls" "\<not> ownership_overlap xs root ?ls"
          using tree_written_ok [OF _ meta] tw ov by (simp_all add: p None)
        note wo = tree_written_write_order [OF tw [unfolded p None] oframe_grows [OF s2(2)] cs2 [OF assms(8)] fresh(2)]
        have used: "n \<notin> set ?ls" if "\<not> bfree_bitmap (sbi s) (unat n)" "n \<notin> set (root # old)" for n
          using fresh(1) that by (auto simp: free_blocks_def dest: in_set_takeD)
        show ?thesis unfolding p None
        proof (rule wp_mono [OF finish_ok [OF assms(5) s3(1)]], elim conjE)
          fix q :: "status \<times> simplefs_extent_buffer" and s'
          assume s': "grows s3 s'" "s_journal s' = s_journal s" "cache s' = cache s3"
            "snd q = bufn\<lparr>leaf_blocks := ?ls\<rparr>" "fst q = None \<or> failed s'"
            "inodes s' = (inodes s)(ino := (inodes s ino)\<lparr>i_blocks := i_blocks (inodes s ino)
               + simplefs_blocks_to_sectors (of_nat (leaf_count xs)) - simplefs_blocks_to_sectors (of_nat (length old))\<rparr>)"
          have "grows s s'" by (rule grows_trans [OF s3(2) s'(1)])
          then show "synced ino buf s q s'"
            unfolding synced_def Let_def bufn_def [symmetric] xs_def [symmetric] root_def [symmetric] old_def [symmetric]
            using s' t off used wo [OF _ s'(1)] xs_def by auto
        qed
      qed
    qed
  qed
  show ?thesis
    using tree early [OF s2(1) oframe_grows [OF s2(2)], of False] cs2 by (simp add: wp_bind wp_return)
qed

lemma alloc_leaves_wp:
  assumes "meta_ok (sbi s) bs"
    and "\<And>ok fresh s'. aframe s s' \<Longrightarrow> oframe s s' \<Longrightarrow> meta_ok (sbi s') (bs @ fresh) \<Longrightarrow> (ok \<Longrightarrow> length fresh = k) \<Longrightarrow>
      unat ` set fresh \<subseteq> free_blocks s \<Longrightarrow> free_blocks s' \<subseteq> free_blocks s \<Longrightarrow> Q (ok, fresh) s'"
  shows "wp (alloc_leaves E k) Q s"
  by (rule wp_mono [OF alloc_leaves_spec [OF assms(1)]]) (auto intro!: assms(2))

lemma sync_early:
  "sframe s s' \<Longrightarrow> oframe s s' \<Longrightarrow> geom_ok (sbi s) \<Longrightarrow>
   synced ino buf s (Some e, simplefs_file_normalize_extents buf) s'"
  unfolding synced_def Let_def
  by (auto simp: oframe_grows sframe_def jframe_def oframe_cache simplefs_file_normalize_extents_def)

lemma sync_extents_spec:
  assumes "handle_ok s" "meta_ok (sbi s) (ei_block (inodes s ino) # leaf_blocks buf)"
  shows "wp (simplefs_file_sync_extents E ino buf) (synced ino buf s) s"
proof -
  let ?bufn = "simplefs_file_normalize_extents buf" and ?old = "leaf_blocks buf"
  let ?xs = "extents ?bufn" and ?root = "ei_block (inodes s ino)"
  have geom: "geom_ok (sbi s)" and root: "root_dir_block (sbi s) \<le> ?root" using assms(2) by (simp_all add: meta_ok_def)
  have body: "wp (do {
      (ok, fresh) \<leftarrow> alloc_leaves E (leaf_count ?xs - length ?old);
      root \<leftarrow> gets (\<lambda>s. ei_block (inodes s ino));
      p \<leftarrow> (if \<not> ok then ret (Some ENOSPC, False)
         else sync_tree E ?xs root (take (leaf_count ?xs) ?old @ fresh) ?old);
      sync_finish E ino ?bufn (leaf_count ?xs) ?old fresh h p }) (synced ino buf s) s1"
    if s1: "started s h s1" "oframe s s1" "sbi s1 = sbi s" and xs: "length ?xs \<le> 86700" for h s1
    unfolding wp_bind [of "alloc_leaves E (leaf_count ?xs - length ?old)"]
  proof (rule alloc_leaves_wp)
    show "meta_ok (sbi s1) (?root # ?old)" using assms(2) s1(3) by simp
    fix ok :: bool and fresh s2
    assume s2: "aframe s1 s2" "oframe s1 s2" "meta_ok (sbi s2) ((?root # ?old) @ fresh)"
      "ok \<Longrightarrow> length fresh = leaf_count ?xs - length ?old"
      "unat ` set fresh \<subseteq> free_blocks s1" "free_blocks s2 \<subseteq> free_blocks s1"
    have st: "started s h s2" by (rule started_aframe [OF assms(1) s1(1) s2(1)])
    have fb: "free_blocks s1 = free_blocks s" using s1(3) by (simp add: free_blocks_def)
    have root2: "ei_block (inodes s2 ino) = ?root" using st by (simp add: started_def)
    show "wp (case (ok, fresh) of (ok, fresh) \<Rightarrow> do {
        root \<leftarrow> gets (\<lambda>s. ei_block (inodes s ino));
        p \<leftarrow> (if \<not> ok then ret (Some ENOSPC, False)
           else sync_tree E ?xs root (take (leaf_count ?xs) ?old @ fresh) ?old);
        sync_finish E ino ?bufn (leaf_count ?xs) ?old fresh h p }) (synced ino buf s) s2"
      unfolding prod.case wp_bind [of "gets f" for f] wp_gets root2
      by (rule sync_from_alloc [OF refl refl refl refl assms(1) geom xs root st oframe_trans [OF s1(2) s2(2)] s2(3)
          s2(5,6) [unfolded fb] s2(4)])
  qed
  have start: "wp (simplefs_journal_start_sb E n) (\<lambda>handle. wp (case handle of
      Inl e \<Rightarrow> ret (Some e, ?bufn)
    | Inr h \<Rightarrow> do {
        (ok, fresh) \<leftarrow> alloc_leaves E (leaf_count ?xs - length ?old);
        root \<leftarrow> gets (\<lambda>s. ei_block (inodes s ino));
        p \<leftarrow> (if \<not> ok then ret (Some ENOSPC, False)
           else sync_tree E ?xs root (take (leaf_count ?xs) ?old @ fresh) ?old);
        sync_finish E ino ?bufn (leaf_count ?xs) ?old fresh h p }) (synced ino buf s)) s0"
    if s0: "sframe s s0" "oframe s s0" and xs: "length ?xs \<le> 86700" for n s0
  proof (rule start_any_wp(1), goal_cases)
    case (1 e s1)
    then show ?case
      using sync_early [OF sfr.trans [OF s0(1) 1(1)] oframe_trans [OF s0(2) 1(2)] geom] by (simp add: wp_return)
  next
    case (2 h s1)
    have "started s h s1" using 2(1) s0(1) by (auto simp: started_def sframe_def jframe_def)
    from body [OF this oframe_trans [OF s0(2) 2(4)] _ xs] show ?case
      using 2(2) sframe_sbi [OF s0(1)] by simp
  qed
  let ?s0 = "\<lambda>r. s\<lparr>trace := (Kmalloc, r) # trace s\<rparr>"
  have s0: "sframe s (?s0 r)" "oframe s (?s0 r)" for r by (simp_all add: sframe_def oframe_def suffix_ConsI)
  note early = sync_early [OF sfr.refl oframe_refl geom] sync_early [OF s0 geom]
  show ?thesis
  proof (cases "length ?xs > SIMPLEFS_MAX_FILE_EXTENTS")
    case False
    then have xs: "length ?xs \<le> 86700" by simp
    note start' = start [OF sfr.refl oframe_refl xs] start [OF s0 xs]
    show ?thesis
    proof (cases "leaf_count ?xs = 0")
      case none: True
      show ?thesis
        unfolding simplefs_file_sync_extents_def Let_def if_not_P [OF False] wp_bind if_P [OF none] wp_return
        using start'(1) by (simp add: wp_bind)
    next
      case some: False
      show ?thesis
        unfolding simplefs_file_sync_extents_def Let_def if_not_P [OF False] wp_bind if_not_P [OF some] wp_ext
        using start'(2) early(2) by (cases "kret E (trace s) Kmalloc") (simp_all add: wp_bind wp_return)
    qed
  qed (simp add: simplefs_file_sync_extents_def Let_def wp_return early)
qed

section \<open>Properties\<close>

text \<open>A file with its extent root in block 4, to be synchronised with two extents.\<close>

definition kst_file :: kst where
  "kst_file = kst0\<lparr>inodes := \<lambda>_. inode0\<lparr>ei_block := 4\<rparr>\<rparr>"

definition demo_buffer :: simplefs_extent_buffer where
  "demo_buffer = empty_buffer\<lparr>extents := demo_exts\<rparr>"

lemma demo_normal: "extents (simplefs_file_normalize_extents demo_buffer)
    = [simplefs_ext_set_len (simplefs_ext_init 0 4 100 False) 6, simplefs_ext_init 9 1 50 True]"
  by (simp add: demo_buffer_def demo_exts_def simplefs_file_normalize_extents_def simplefs_extent_is_empty_def
      mergeable_def merge_two_def simplefs_ext_end_def)

lemma demo_pre:
  "handle_ok kst_file" "meta_ok (sbi kst_file) (ei_block (inodes kst_file 1) # leaf_blocks demo_buffer)"
  "\<not> has_jbd2 (s_journal kst_file)" "ei_block (inodes kst_file 1) = 4" "quiet env_ok"
  by (simp_all add: kst_file_def demo_simps handle_ok_def meta_ok_def geom_ok_def root_dir_block_def has_jbd2_def
      demo_buffer_def empty_buffer_def quiet_def)

lemma demo_sync: "fst (fst (run_state (simplefs_file_sync_extents env_ok 1 demo_buffer) kst_file)) = None"
proof -
  have "wp (simplefs_file_sync_extents env_ok 1 demo_buffer) (\<lambda>p _. fst p = None) kst_file"
    unfolding simplefs_file_sync_extents_def Let_def demo_normal
    by (simp add: leaf_count_def wp_simps simplefs_journal_start_sb_def has_jbd2_def kst_file_def demo_simps
        demo_buffer_def empty_buffer_def sync_tree_def ownership_overlap_def simplefs_get_folio_def
        simplefs_read_metadata_def simplefs_journal_prepare_current_def simplefs_current_jbd2_handle_def
        simplefs_journal_has_current_handle_def sync_root_def simplefs_journal_dirty_folio_def
        simplefs_writeback_metadata_block_def sync_finish_def simplefs_journal_stop_def)
  then show ?thesis by (simp add: wp_def split_beta)
qed

text \<open>
  C1. What \<open>simplefs_file_sync_extents\<close> wrote is what \<open>simplefs_file_load_extents\<close> reads. When the
  synchronisation returns 0, loading the tree from the inode's root block, whenever the reads and
  the allocations of memory it needs succeed, gives exactly the normalised extents and the leaf
  blocks that the buffer now records; no extent owns a block of the tree, and the tree has exactly as
  many leaves as the extents need.
\<close>
theorem sync_load_roundtrip:
  assumes "handle_ok s" "meta_ok (sbi s) (ei_block (inodes s ino) # leaf_blocks buf)"
    and "run_state (simplefs_file_sync_extents E ino buf) s = ((None, buf'), s')"
    and "quiet E'" "run_state (simplefs_file_load_extents E' (ei_block (inodes s ino))) s' = ((r, buf2), s'')"
  shows "r = None \<and> extents buf2 = extents buf' \<and> leaf_blocks buf2 = leaf_blocks buf' \<and>
    extents buf' = extents (simplefs_file_normalize_extents buf) \<and>
    length (leaf_blocks buf') = leaf_count (extents buf') \<and>
    \<not> ownership_overlap (extents buf') (ei_block (inodes s ino)) (leaf_blocks buf')"
proof -
  note sy = wp_run [OF sync_extents_spec [OF assms(1,2)] assms(3), unfolded synced_def Let_def fst_conv snd_conv]
  then have t: "tree_ok (cache s') (ei_block (inodes s ino)) (extents buf') (leaf_blocks buf')" by simp
  show ?thesis
    using wp_run [OF load_extents_spec [OF t] assms(5)] assms(4) sy t
    by (simp add: loaded_def empty_buffer_def tree_ok_def)
qed

theorem sync_load_roundtrip_witness:
  "\<exists>s' buf'. run_state (simplefs_file_sync_extents env_ok 1 demo_buffer) kst_file = ((None, buf'), s') \<and>
     extents (snd (fst (run_state (simplefs_file_load_extents env_ok 4) s'))) = extents buf'"
proof -
  obtain buf' s' where run: "run_state (simplefs_file_sync_extents env_ok 1 demo_buffer) kst_file = ((None, buf'), s')"
    using demo_sync by (metis prod.collapse)
  obtain r buf2 s'' where ld: "run_state (simplefs_file_load_extents env_ok 4) s' = ((r, buf2), s'')"
    by (metis prod.collapse)
  show ?thesis
    using sync_load_roundtrip [OF demo_pre(1,2) run demo_pre(5), unfolded demo_pre(4), OF ld] run ld by auto
qed

text \<open>
  C2. A synchronisation that fails has not damaged the old tree. If \<open>simplefs_file_sync_extents\<close>
  returns an error, either the file system has been shut down or a handle failed to stop, or no image
  from \<open>root_dir_block\<close> on has changed, nor have the inode and the recorded leaves, so the old tree
  is still there. In every case the images of metadata blocks that belong to neither the root nor the
  leaves of this file and were in use are unchanged, and the journal adapter is as it was.
\<close>
theorem sync_failure_keeps_tree:
  assumes "handle_ok s" "meta_ok (sbi s) (ei_block (inodes s ino) # leaf_blocks buf)"
    and "run_state (simplefs_file_sync_extents E ino buf) s = ((r, buf'), s')"
  shows "(r \<noteq> None \<longrightarrow> failed s' \<or> inodes s' = inodes s \<and> leaf_blocks buf' = leaf_blocks buf \<and>
       (\<forall>n. root_dir_block (sbi s) \<le> n \<longrightarrow> cache s' n = cache s n)) \<and>
    (\<forall>n. root_dir_block (sbi s) \<le> n \<longrightarrow> \<not> bfree_bitmap (sbi s) (unat n) \<longrightarrow>
       n \<notin> set (ei_block (inodes s ino) # leaf_blocks buf) \<longrightarrow> cache s' n = cache s n) \<and>
    s_journal s' = s_journal s"
  using wp_run [OF sync_extents_spec [OF assms(1,2)] assms(3), unfolded synced_def Let_def fst_conv snd_conv]
  by blast

text \<open>A device that cannot be read.\<close>

definition env_unreadable :: env where
  "env_unreadable = env_ok\<lparr>kret := \<lambda>_ c. case c of Read_mapping_folio n \<Rightarrow> Some EIO | _ \<Rightarrow> None\<rparr>"

theorem sync_failure_keeps_tree_witness:
  "case run_state (simplefs_file_sync_extents env_unreadable 1 demo_buffer) kst_file of ((r, buf'), s') \<Rightarrow>
     r = Some EIO \<and> (\<forall>n\<ge>4. cache s' n = cache kst_file n) \<and> s_journal s' = s_journal kst_file"
proof -
  obtain r buf' s' where run: "run_state (simplefs_file_sync_extents env_unreadable 1 demo_buffer) kst_file = ((r, buf'), s')"
    by (metis prod.collapse)
  have "wp (simplefs_file_sync_extents env_unreadable 1 demo_buffer) (\<lambda>p s'. fst p = Some EIO \<and> \<not> failed s') kst_file"
    unfolding simplefs_file_sync_extents_def Let_def demo_normal
    by (simp add: leaf_count_def wp_simps simplefs_journal_start_sb_def has_jbd2_def kst_file_def demo_simps
        demo_buffer_def empty_buffer_def sync_tree_def ownership_overlap_def simplefs_get_folio_def env_unreadable_def
        simplefs_read_metadata_def sync_finish_def simplefs_journal_stop_def failed_def)
  from wp_run [OF this run] have r: "r = Some EIO" "\<not> failed s'" by simp_all
  have "root_dir_block (sbi kst_file) = 4" by (simp add: kst_file_def demo_simps root_dir_block_def)
  then show ?thesis using sync_failure_keeps_tree [OF demo_pre(1,2) run] run r by auto
qed



section \<open>Bounds of the buffer and errors of the loader\<close>

lemma double_capacity_ge: "0 < cap \<Longrightarrow> m \<le> double_capacity cap m"
  by (induction cap m rule: double_capacity.induct) (subst double_capacity.simps, auto)

text \<open>The array has room for the extents it holds.\<close>

definition fits :: "simplefs_extent_buffer \<Rightarrow> bool" where
  "fits buf \<longleftrightarrow> length (extents buf) \<le> buf_capacity buf"

lemma grow_fits:
  "wp (simplefs_file_grow_extent_buffer E buf m) (\<lambda>(r, buf') s'. cache s' = cache s \<and> sbi s' = sbi s \<and>
     extents buf' = extents buf \<and> leaf_blocks buf' = leaf_blocks buf \<and>
     (r = None \<longrightarrow> m \<le> buf_capacity buf') \<and> (r \<noteq> None \<longrightarrow> buf' = buf)) s"
  by (simp add: simplefs_file_grow_extent_buffer_def wp_simps Let_def double_capacity_ge)

lemma length_get_extents [simp]: "length (get_extents n b) = n"
  by (simp add: get_extents_def load_array_def)

lemma length_get_indexes [simp]: "length (get_indexes n b) = n"
  by (simp add: get_indexes_def load_array_def)

lemma load_leaf_fits:
  "wp (simplefs_file_load_leaf E l buf) (\<lambda>(r, buf') s'. cache s' = cache s \<and> sbi s' = sbi s \<and>
     leaf_blocks buf' = leaf_blocks buf \<and>
     (r = None \<longrightarrow> fits buf' \<and> length (extents buf') \<le> length (extents buf) + 340)) s"
  unfolding simplefs_file_load_leaf_def wp_bind
  apply (rule read_metadata_wp)
   apply (auto simp: wp_simps dest: sframe_sbi)[1]
  apply (simp add: wp_bind wp_return)
  apply (intro conjI impI; (simp add: sframe_sbi)?)
  apply (rule wp_mono [OF grow_fits])
  apply (auto simp: wp_simps fits_def dest: sframe_sbi)
  done

lemma load_leaves_fits:
  "fits buf \<Longrightarrow> wp (load_leaves E ls buf) (\<lambda>(r, buf') s'. cache s' = cache s \<and> sbi s' = sbi s \<and>
     (if r = None then fits buf' \<and> length (extents buf') \<le> length (extents buf) + 340 * length ls \<and>
        leaf_blocks buf' = leaf_blocks buf @ ls else buf' = empty_buffer)) s"
proof (induction ls arbitrary: buf s)
  case (Cons l ls)
  let ?buf = "buf\<lparr>leaf_blocks := leaf_blocks buf @ [l]\<rparr>"
  define Q where "Q = (\<lambda>(r :: status, buf') (s' :: kst). cache s' = cache s \<and> sbi s' = sbi s \<and>
     (if r = None then fits buf' \<and> length (extents buf') \<le> length (extents buf) + 340 * length (l # ls) \<and>
        leaf_blocks buf' = leaf_blocks buf @ l # ls else buf' = empty_buffer))"
  have rest: "wp (load_leaves E ls b) Q s1"
    if "cache s1 = cache s" "sbi s1 = sbi s" "fits b" "length (extents b) \<le> length (extents buf) + 340"
      "leaf_blocks b = leaf_blocks ?buf" for b s1
    unfolding Q_def by (rule wp_mono [OF Cons.IH [OF that(3)]]) (use that in \<open>auto split: if_splits\<close>)
  have err: "Q (Some e, empty_buffer) s1" if "cache s1 = cache s" "sbi s1 = sbi s" for e s1
    using that by (simp add: Q_def)
  show ?case
    unfolding load_leaves.simps wp_bind Q_def [symmetric] simplefs_file_destroy_extents_def
    by (rule wp_mono [OF load_leaf_fits]) (auto simp: wp_simps intro: rest err)
qed (simp add: wp_simps)

lemma fits_empty: "fits empty_buffer"
  by (simp add: fits_def empty_buffer_def)

text \<open>
  C33. Loading never writes past the extent array and never returns half a tree. Whatever is on disk
  and whatever the kernel answers, \<open>simplefs_file_load_extents\<close> changes no image and no allocation
  state; when it fails the buffer is empty; when it succeeds the root has the right magic, the array
  has room for the extents, and there are at most 86700 of them in at most 255 leaves. A root block
  that reads as zeroes is an input/output error, not an empty file.
\<close>
theorem load_extents_safe:
  assumes "run_state (simplefs_file_load_extents E root) s = ((r, buf), s')"
  shows "cache s' = cache s \<and> sbi s' = sbi s \<and>
    (r \<noteq> None \<longrightarrow> buf = empty_buffer) \<and>
    (r = None \<longrightarrow> eh_magic (cache s root) = SIMPLEFS_EXTENT_ROOT_MAGIC \<and> length (extents buf) \<le> buf_capacity buf \<and>
       length (extents buf) \<le> SIMPLEFS_MAX_FILE_EXTENTS \<and> length (leaf_blocks buf) \<le> SIMPLEFS_FILE_INDEX_SLOTS) \<and>
    (cache s root = zero_block \<longrightarrow> r = Some EIO \<or> \<not> quiet E)"
proof -
  define Q where "Q = (\<lambda>(r :: status, buf) (s' :: kst). cache s' = cache s \<and> sbi s' = sbi s \<and> (r \<noteq> None \<longrightarrow> buf = empty_buffer) \<and>
    (r = None \<longrightarrow> eh_magic (cache s root) = SIMPLEFS_EXTENT_ROOT_MAGIC \<and> fits buf \<and>
       length (extents buf) \<le> 86700 \<and> length (leaf_blocks buf) \<le> 255) \<and>
    (cache s root = zero_block \<longrightarrow> r = Some EIO \<or> \<not> quiet E))"
  have zero: "eh_magic zero_block = 0" "eh_entries zero_block = 0" "SIMPLEFS_EXTENT_ROOT_MAGIC \<noteq> 0"
    by (simp_all add: eh_magic_def eh_entries_def mem_simps SIMPLEFS_EXTENT_ROOT_MAGIC_def)
  have magic: "cache s root \<noteq> zero_block" if "eh_magic (cache s root) = SIMPLEFS_EXTENT_ROOT_MAGIC"
    using that zero by auto
  have err: "Q (Some e, empty_buffer) s1"
    if "cache s1 = cache s" "sbi s1 = sbi s" "cache s root = zero_block \<Longrightarrow> e = EIO \<or> \<not> quiet E" for e s1
    using that by (auto simp: Q_def)
  have leaves: "wp (load_leaves E (map leaf_block (get_indexes n (cache s root))) empty_buffer) Q s1"
    if "cache s1 = cache s" "sbi s1 = sbi s" "n \<le> 255" "eh_magic (cache s root) = SIMPLEFS_EXTENT_ROOT_MAGIC" for n s1
    unfolding Q_def
    by (rule wp_mono [OF load_leaves_fits [OF fits_empty]])
      (use that magic in \<open>auto simp: empty_buffer_def split: if_splits\<close>)
  have flat: "wp (do { (r, buf) \<leftarrow> simplefs_file_grow_extent_buffer E empty_buffer n;
      ret (if r \<noteq> None then (r, buf) else (None, buf\<lparr>extents := get_extents n (cache s root)\<rparr>)) }) Q s1"
    if "cache s1 = cache s" "sbi s1 = sbi s" "n \<le> 340" "eh_magic (cache s root) = SIMPLEFS_EXTENT_ROOT_MAGIC" for n s1
    unfolding wp_bind Q_def
    by (rule wp_mono [OF grow_fits]) (use that magic in \<open>auto simp: wp_simps fits_def empty_buffer_def\<close>)
  have "wp (simplefs_file_load_extents E root) Q s"
    unfolding simplefs_file_load_extents_def wp_bind
  proof (rule read_metadata_wp, goal_cases)
    case (1 e s1)
    then show ?case by (auto simp: wp_return intro!: err dest: sframe_sbi)
  next
    case (2 s1)
    note sb = sframe_sbi [OF 2(2)]
    define n where "n = unat (eh_entries (cache s root))"
    show ?case
      unfolding sum.case Let_def n_def [symmetric]
      using flat [of s1 n] leaves [of _ n] err 2(1) sb zero magic
      by (auto simp: Let_def wp_bind wp_return wp_ext not_less not_None_eq)
  qed
  from wp_run [OF this assms] show ?thesis by (simp add: Q_def fits_def)
qed

theorem load_extents_safe_witness:
  "fst (run_state (simplefs_file_load_extents env_ok 4) kst_file) = (Some EIO, empty_buffer)"
proof -
  obtain r buf s' where run: "run_state (simplefs_file_load_extents env_ok 4) kst_file = ((r, buf), s')"
    by (metis prod.collapse)
  have "cache kst_file 4 = zero_block" by (simp add: kst_file_def demo_simps)
  then show ?thesis using load_extents_safe [OF run] demo_pre(5) run by auto
qed

end
