(* ===== verification/SFS_Inode.thy ===== *)
theory SFS_Inode
  imports SFS_ExtentProps
begin

text \<open>
  The inode table: the 104-byte \<open>struct simplefs_inode\<close> of \<open>simplefs.h\<close>, writing an inode to it
  and clearing its slot (\<open>simplefs_write_inode\<close>, \<open>simplefs_persist_inode\<close> and
  \<open>simplefs_clear_disk_inode\<close> of \<open>simplefs_super.c\<close>), reading it back (\<open>simplefs_iget\<close> of
  \<open>simplefs_inode.c\<close>), and the \<open>chattr\<close> flags.

  \<open>old_encode_dev\<close> and \<open>old_decode_dev\<close> are kernel functions and answered by the environment.
  \<open>iget_locked\<close> decides whether the inode is new or already in memory; the fields of a new inode
  that the sources do not set keep the value the memory had.
\<close>

section \<open>File types and flags\<close>

definition S_IFMT :: u16 where "S_IFMT = 0xF000"

definition S_ISDIR :: "u16 \<Rightarrow> bool" where "S_ISDIR m \<longleftrightarrow> m AND S_IFMT = 0x4000"
definition S_ISREG :: "u16 \<Rightarrow> bool" where "S_ISREG m \<longleftrightarrow> m AND S_IFMT = 0x8000"
definition S_ISLNK :: "u16 \<Rightarrow> bool" where "S_ISLNK m \<longleftrightarrow> m AND S_IFMT = 0xA000"
definition S_ISCHR :: "u16 \<Rightarrow> bool" where "S_ISCHR m \<longleftrightarrow> m AND S_IFMT = 0x2000"
definition S_ISBLK :: "u16 \<Rightarrow> bool" where "S_ISBLK m \<longleftrightarrow> m AND S_IFMT = 0x6000"

lemmas S_IS_defs = S_ISDIR_def S_ISREG_def S_ISLNK_def S_ISCHR_def S_ISBLK_def

text \<open>The \<open>FS_*_FL\<close> bits of \<open>uapi/linux/fs.h\<close> and the \<open>S_*\<close> bits of a VFS inode.\<close>

definition FS_SYNC_FL :: u32 where "FS_SYNC_FL = 0x8"
definition FS_IMMUTABLE_FL :: u32 where "FS_IMMUTABLE_FL = 0x10"
definition FS_APPEND_FL :: u32 where "FS_APPEND_FL = 0x20"
definition FS_NODUMP_FL :: u32 where "FS_NODUMP_FL = 0x40"
definition FS_NOATIME_FL :: u32 where "FS_NOATIME_FL = 0x80"
definition FS_DIRSYNC_FL :: u32 where "FS_DIRSYNC_FL = 0x10000"
definition S_SYNC :: u32 where "S_SYNC = 0x1"
definition S_NOATIME :: u32 where "S_NOATIME = 0x2"
definition S_APPEND :: u32 where "S_APPEND = 0x4"
definition S_IMMUTABLE :: u32 where "S_IMMUTABLE = 0x8"
definition S_DIRSYNC :: u32 where "S_DIRSYNC = 0x40"

lemmas flag_defs = FS_SYNC_FL_def FS_IMMUTABLE_FL_def FS_APPEND_FL_def FS_NODUMP_FL_def
  FS_NOATIME_FL_def FS_DIRSYNC_FL_def S_SYNC_def S_NOATIME_def S_APPEND_def S_IMMUTABLE_def S_DIRSYNC_def

definition SIMPLEFS_FL_USER_VISIBLE :: u32 where
  "SIMPLEFS_FL_USER_VISIBLE = FS_IMMUTABLE_FL OR FS_APPEND_FL OR FS_NOATIME_FL OR FS_SYNC_FL OR
     FS_DIRSYNC_FL OR FS_NODUMP_FL"

definition SIMPLEFS_FL_USER_MODIFIABLE :: u32 where
  "SIMPLEFS_FL_USER_MODIFIABLE = SIMPLEFS_FL_USER_VISIBLE"

definition simplefs_set_inode_flags :: "simplefs_inode_info \<Rightarrow> simplefs_inode_info" where
  "simplefs_set_inode_flags inode =
     (let flags = i_flags inode;
          vfs = i_vfs_flags inode AND NOT (S_IMMUTABLE OR S_APPEND OR S_SYNC OR S_DIRSYNC OR S_NOATIME);
          vfs = (if flags AND FS_IMMUTABLE_FL \<noteq> 0 then vfs OR S_IMMUTABLE else vfs);
          vfs = (if flags AND FS_APPEND_FL \<noteq> 0 then vfs OR S_APPEND else vfs);
          vfs = (if flags AND FS_SYNC_FL \<noteq> 0 then vfs OR S_SYNC else vfs);
          vfs = (if flags AND FS_DIRSYNC_FL \<noteq> 0 then vfs OR S_DIRSYNC else vfs);
          vfs = (if flags AND FS_NOATIME_FL \<noteq> 0 then vfs OR S_NOATIME else vfs)
      in inode\<lparr>i_vfs_flags := vfs\<rparr>)"

text \<open>\<open>current_time\<close> of the kernel, and \<open>inode_set_ctime_current\<close>.\<close>

definition current_time :: "env \<Rightarrow> (kst, timespec64) state" where
  "current_time E = do {
     sec \<leftarrow> asknum E (Other ''current_time.tv_sec'' []);
     nsec \<leftarrow> asknum E (Other ''current_time.tv_nsec'' []);
     ret \<lparr>tv_sec = sec, tv_nsec = nsec\<rparr>
   }"

definition inode_set_ctime_current :: "env \<Rightarrow> u32 \<Rightarrow> (kst, timespec64) state" where
  "inode_set_ctime_current E ino = do {
     now \<leftarrow> current_time E;
     upd_inode ino (\<lambda>i. i\<lparr>i_ctime := now\<rparr>);
     ret now
   }"

definition simplefs_fileattr_get :: "u32 \<Rightarrow> (kst, u32) state" where
  "simplefs_fileattr_get ino = gets (\<lambda>s. i_flags (inodes s ino) AND SIMPLEFS_FL_USER_VISIBLE)"

text \<open>\<open>has_fsx\<close> is \<open>fileattr_has_fsx(fa)\<close> and \<open>flags\<close> is \<open>fa->flags\<close>.\<close>

definition simplefs_fileattr_set :: "env \<Rightarrow> u32 \<Rightarrow> bool \<Rightarrow> u32 \<Rightarrow> (kst, status) state" where
  "simplefs_fileattr_set E ino has_fsx flags =
     (if has_fsx then ret (Some EOPNOTSUPP)
      else if flags AND NOT SIMPLEFS_FL_USER_MODIFIABLE \<noteq> 0 then ret (Some EOPNOTSUPP)
      else do {
        upd_inode ino (\<lambda>i. i\<lparr>i_flags := (i_flags i AND NOT SIMPLEFS_FL_USER_MODIFIABLE) OR
          (flags AND SIMPLEFS_FL_USER_MODIFIABLE)\<rparr>);
        upd_inode ino simplefs_set_inode_flags;
        _ \<leftarrow> inode_set_ctime_current E ino;
        note_call (Mark_inode_dirty ino);
        ret None
      })"

section \<open>The inode on disk\<close>

text \<open>A pure function of the kernel: its answer does not depend on the history of calls.\<close>

definition kfun :: "env \<Rightarrow> string \<Rightarrow> int list \<Rightarrow> int" where
  "kfun E name args = knum E [] (Other name args)"

definition inode_block :: "u32 \<Rightarrow> u32" where
  "inode_block ino = ino div of_nat SIMPLEFS_INODES_PER_BLOCK + 1"

definition inode_shift :: "u32 \<Rightarrow> u32" where
  "inode_shift ino = ino mod of_nat SIMPLEFS_INODES_PER_BLOCK"

definition inode_pos :: "u32 \<Rightarrow> nat" where
  "inode_pos ino = 104 * unat (inode_shift ino)"

text \<open>
  The stores of \<open>simplefs_write_inode\<close> in their order. \<open>dev\<close> is \<open>old_encode_dev(inode->i_rdev)\<close>. The
  numbers are the offsets of the members of \<open>struct simplefs_inode\<close>.
\<close>

definition store_disk_inode :: "u32 \<Rightarrow> simplefs_inode_info \<Rightarrow> nat \<Rightarrow> block \<Rightarrow> block" where
  "store_disk_inode dev inode p b0 =
     (let b = put32 (ucast (i_mode inode)) b0 p;
          b = put32 (i_uid inode) b (p + 4);
          b = put32 (i_gid inode) b (p + 8);
          b = put32 (word_of_int (i_size inode)) b (p + 12);
          b = put32 (word_of_int (tv_sec (i_ctime inode))) b (p + 16);
          b = put32 (word_of_int (tv_nsec (i_ctime inode))) b (p + 28);
          b = put32 (word_of_int (tv_sec (i_atime inode))) b (p + 20);
          b = put32 (word_of_int (tv_nsec (i_atime inode))) b (p + 32);
          b = put32 (word_of_int (tv_sec (i_mtime inode))) b (p + 24);
          b = put32 (word_of_int (tv_nsec (i_mtime inode))) b (p + 36);
          b = put32 (ucast (simplefs_sectors_to_blocks (i_blocks inode))) b (p + 40);
          b = put32 (i_nlink inode) b (p + 44);
          b = put32 (ei_block inode) b (p + 48);
          b = put32 (i_xattr_block inode) b (p + 52);
          b = put32 (i_generation inode) b (p + 56);
          b = put32 (i_flags inode) b (p + 60);
          b = put32 (word_of_int (tv_sec (i_crtime inode))) b (p + 64);
          b = put32 (word_of_int (tv_nsec (i_crtime inode))) b (p + 68)
      in if S_ISCHR (i_mode inode) \<or> S_ISBLK (i_mode inode) then put32 dev b (p + 72)
         else mem_copy b (p + 72) (i_data inode) 0 32)"

text \<open>The time read from two 32-bit members; the seconds are sign extended.\<close>

definition disk_time :: "block \<Rightarrow> nat \<Rightarrow> nat \<Rightarrow> timespec64" where
  "disk_time b psec pnsec = \<lparr>tv_sec = sint (get32 b psec), tv_nsec = uint (get32 b pnsec)\<rparr>"

text \<open>
  The assignments of \<open>simplefs_iget\<close> to a new inode; \<open>dev\<close> is what \<open>old_decode_dev\<close> makes of the
  stored device number.
\<close>

definition load_disk_inode :: "u32 \<Rightarrow> block \<Rightarrow> nat \<Rightarrow> simplefs_inode_info \<Rightarrow> simplefs_inode_info" where
  "load_disk_inode dev b p inode =
     (let mode = ucast (get32 b p);
          inode = inode\<lparr>i_mode := mode, i_uid := get32 b (p + 4), i_gid := get32 b (p + 8),
            i_size := uint (get32 b (p + 12)), i_ctime := disk_time b (p + 16) (p + 28),
            i_atime := disk_time b (p + 20) (p + 32), i_mtime := disk_time b (p + 24) (p + 36),
            i_blocks := simplefs_blocks_to_sectors (ucast (get32 b (p + 40))), i_nlink := get32 b (p + 44),
            i_generation := get32 b (p + 56), i_rdev := 0, i_xattr_block := get32 b (p + 52),
            i_flags := get32 b (p + 60), i_crtime := disk_time b (p + 64) (p + 68),
            prealloc_block := 0, prealloc_len := 0\<rparr>;
          inode = simplefs_set_inode_flags inode
      in if S_ISDIR mode then
           inode\<lparr>ei_block := get32 b (p + 48), i_data := mem_copy (i_data inode) 0 b (p + 72) 32\<rparr>
         else if S_ISREG mode then inode\<lparr>ei_block := get32 b (p + 48)\<rparr>
         else if S_ISLNK mode then
           (let data = mem_copy (i_data inode) 0 b (p + 72) 32; inode = inode\<lparr>ei_block := get32 b (p + 48)\<rparr>
            in if i_size inode < 32 then inode\<lparr>i_data := data(nat (i_size inode) := 0), i_link := True\<rparr>
               else inode\<lparr>i_data := data, i_link := False\<rparr>)
         else if mode \<noteq> 0 then
           inode\<lparr>i_rdev := (if S_ISBLK mode \<or> S_ISCHR mode then dev else 0)\<rparr>
         else inode)"

section \<open>Reading and writing inodes\<close>

text \<open>
  Map a metadata block for writing, change its image and pass it to the journal; the way most
  metadata is changed.
\<close>

definition edit_folio :: "env \<Rightarrow> u32 \<Rightarrow> (block \<Rightarrow> block) \<Rightarrow> (kst, status) state" where
  "edit_folio E n f = do {
     data \<leftarrow> simplefs_get_folio E n;
     (case data of
        Inl e \<Rightarrow> ret (Some e)
      | Inr b \<Rightarrow> do { set_cache n (f b); simplefs_journal_dirty_folio E n n })
   }"

text \<open>
  Run \<open>m\<close> inside a handle; after the label \<open>out_stop\<close> the handle is stopped and its status is the
  result unless \<open>m\<close> has failed.
\<close>

definition with_handle :: "env \<Rightarrow> int \<Rightarrow> (kst, status) state \<Rightarrow> (kst, status) state" where
  "with_handle E blocks m = do {
     handle \<leftarrow> simplefs_journal_start_sb E blocks;
     (case handle of
        Inl e \<Rightarrow> ret (Some e)
      | Inr h \<Rightarrow> do {
          r \<leftarrow> m;
          stop_ret \<leftarrow> simplefs_journal_stop E h;
          ret (if r = None then stop_ret else r)
        })
   }"

definition simplefs_write_inode :: "env \<Rightarrow> u32 \<Rightarrow> (kst, status) state" where
  "simplefs_write_inode E ino = do {
     shutdown \<leftarrow> gets s_shutdown;
     sb \<leftarrow> gets sbi;
     inode \<leftarrow> gets (\<lambda>s. inodes s ino);
     if shutdown then ret (Some EIO)
     else if ino \<ge> nr_inodes sb then ret None
     else do {
       let dev = word_of_int (kfun E ''old_encode_dev'' [uint (i_rdev inode)]);
       with_handle E 1 (edit_folio E (inode_block ino) (store_disk_inode dev inode (inode_pos ino)))
     }
   }"

definition simplefs_persist_inode :: "env \<Rightarrow> u32 \<Rightarrow> (kst, status) state" where
  "simplefs_persist_inode E ino = simplefs_write_inode E ino"

definition simplefs_clear_disk_inode :: "env \<Rightarrow> u32 \<Rightarrow> (kst, status) state" where
  "simplefs_clear_disk_inode E ino =
     with_handle E 1 (edit_folio E (inode_block ino) (\<lambda>b. mem_set b (inode_pos ino) 0 104))"

text \<open>
  \<open>simplefs_iget\<close> returns the inode, which is its number here. The environment answers
  \<open>iget_locked\<close> and whether the inode it returned is new.
\<close>

definition simplefs_iget :: "env \<Rightarrow> u32 \<Rightarrow> (kst, errno + u32) state" where
  "simplefs_iget E ino = do {
     sb \<leftarrow> gets sbi;
     if ino \<ge> nr_inodes sb then ret (Inl EINVAL)
     else do {
       nomem \<leftarrow> ext E (Other ''iget_locked'' [uint ino]);
       if nomem \<noteq> None then ret (Inl ENOMEM)
       else do {
         new \<leftarrow> ask E (Other ''I_NEW'' [uint ino]);
         if \<not> new then ret (Inr ino)
         else do {
           data \<leftarrow> simplefs_get_folio E (inode_block ino);
           (case data of
              Inl e \<Rightarrow> do { note_call (Other ''iget_failed'' [uint ino]); ret (Inl e) }
            | Inr b \<Rightarrow> do {
                let dev = kfun E ''old_decode_dev'' [uint (get32 b (inode_pos ino + 72))];
                upd_inode ino (load_disk_inode (word_of_int dev) b (inode_pos ino));
                ret (Inr ino)
              })
         }
       }
     }
   }"

section \<open>The layout\<close>

lemma store_disk_inode_get:
  fixes dev inode p b
  defines "c \<equiv> store_disk_inode dev inode p b"
  shows "get32 c p = ucast (i_mode inode)" "get32 c (p + 4) = i_uid inode" "get32 c (p + 8) = i_gid inode"
    "get32 c (p + 12) = word_of_int (i_size inode)" "get32 c (p + 16) = word_of_int (tv_sec (i_ctime inode))"
    "get32 c (p + 20) = word_of_int (tv_sec (i_atime inode))" "get32 c (p + 24) = word_of_int (tv_sec (i_mtime inode))"
    "get32 c (p + 28) = word_of_int (tv_nsec (i_ctime inode))" "get32 c (p + 32) = word_of_int (tv_nsec (i_atime inode))"
    "get32 c (p + 36) = word_of_int (tv_nsec (i_mtime inode))"
    "get32 c (p + 40) = ucast (simplefs_sectors_to_blocks (i_blocks inode))" "get32 c (p + 44) = i_nlink inode"
    "get32 c (p + 48) = ei_block inode" "get32 c (p + 52) = i_xattr_block inode" "get32 c (p + 56) = i_generation inode"
    "get32 c (p + 60) = i_flags inode" "get32 c (p + 64) = word_of_int (tv_sec (i_crtime inode))"
    "get32 c (p + 68) = word_of_int (tv_nsec (i_crtime inode))"
    "S_ISCHR (i_mode inode) \<or> S_ISBLK (i_mode inode) \<Longrightarrow> get32 c (p + 72) = dev"
  unfolding c_def store_disk_inode_def Let_def
  by (simp_all add: mem_simps get32_mem_copy_other)

lemma store_disk_inode_data:
  "\<not> (S_ISCHR (i_mode inode) \<or> S_ISBLK (i_mode inode)) \<Longrightarrow> k < 32 \<Longrightarrow>
   store_disk_inode dev inode p b (p + 72 + k) = i_data inode k"
  by (simp add: store_disk_inode_def Let_def mem_copy_def)

lemma store_disk_inode_frame:
  "k < p \<or> p + 104 \<le> k \<Longrightarrow> store_disk_inode dev inode p b k = b k"
  by (auto simp: store_disk_inode_def Let_def put32_frame mem_copy_frame)

section \<open>Reading back what was written\<close>

text \<open>The values the 32-bit members can hold.\<close>

definition time_fits :: "timespec64 \<Rightarrow> bool" where
  "time_fits t \<longleftrightarrow> - (2 ^ 31) \<le> tv_sec t \<and> tv_sec t < 2 ^ 31 \<and> 0 \<le> tv_nsec t \<and> tv_nsec t < 2 ^ 32"

definition inode_fits :: "simplefs_inode_info \<Rightarrow> bool" where
  "inode_fits i \<longleftrightarrow> 0 \<le> i_size i \<and> i_size i < 2 ^ 32 \<and> time_fits (i_ctime i) \<and> time_fits (i_atime i) \<and>
     time_fits (i_mtime i) \<and> time_fits (i_crtime i) \<and> 8 dvd unat (i_blocks i) \<and> unat (i_blocks i) < 2 ^ 35"

text \<open>
  \<open>j\<close> is \<open>i\<close> as far as the inode table keeps it. The inline data of a regular file or special file and
  the extent root of a special file are not read back.
\<close>

definition restored :: "simplefs_inode_info \<Rightarrow> simplefs_inode_info \<Rightarrow> bool" where
  "restored i j \<longleftrightarrow> i_mode j = i_mode i \<and> i_uid j = i_uid i \<and> i_gid j = i_gid i \<and> i_size j = i_size i \<and>
     i_ctime j = i_ctime i \<and> i_atime j = i_atime i \<and> i_mtime j = i_mtime i \<and> i_crtime j = i_crtime i \<and>
     i_blocks j = i_blocks i \<and> i_nlink j = i_nlink i \<and> i_generation j = i_generation i \<and>
     i_xattr_block j = i_xattr_block i \<and> i_flags j = i_flags i \<and>
     (S_ISDIR (i_mode i) \<or> S_ISREG (i_mode i) \<or> S_ISLNK (i_mode i) \<longrightarrow> ei_block j = ei_block i) \<and>
     (S_ISDIR (i_mode i) \<or> S_ISLNK (i_mode i) \<and> 32 \<le> i_size i \<longrightarrow> (\<forall>k<32. i_data j k = i_data i k)) \<and>
     (S_ISLNK (i_mode i) \<and> i_size i < 32 \<longrightarrow> i_link j \<and> i_data j (nat (i_size i)) = 0 \<and>
        (\<forall>k<nat (i_size i). i_data j k = i_data i k)) \<and>
     (S_ISCHR (i_mode i) \<or> S_ISBLK (i_mode i) \<longrightarrow> i_rdev j = i_rdev i)"

lemma time_fits_roundtrip:
  assumes "time_fits t"
  shows "sint (word_of_int (tv_sec t) :: u32) = tv_sec t" "uint (word_of_int (tv_nsec t) :: u32) = tv_nsec t"
  using assms by (auto simp: time_fits_def signed_of_int unsigned_of_int signed_take_bit_int_eq_self take_bit_int_eq_self)

lemma disk_time_store: "get32 b p = word_of_int (tv_sec t) \<Longrightarrow> get32 b q = word_of_int (tv_nsec t) \<Longrightarrow> time_fits t \<Longrightarrow>
    disk_time b p q = t"
  by (simp add: disk_time_def time_fits_roundtrip)

lemma blocks_roundtrip:
  assumes "8 dvd unat n" "unat (n :: u64) < 2 ^ 35"
  shows "simplefs_blocks_to_sectors (ucast (ucast (simplefs_sectors_to_blocks n) :: u32)) = n"
proof -
  define k where "k = unat n div 8"
  have n: "unat n = 8 * k" "k < 2 ^ 32" using assms by (auto simp: k_def)
  have d: "unat (n div 8) = k" by (simp add: unat_div k_def)
  have "unat (ucast (ucast (n div 8) :: u32) :: u64) = k"
    using d n(2) by (simp add: unsigned_ucast_eq unsigned_take_bit_eq take_bit_nat_eq_self)
  then have "unat ((ucast (ucast (n div 8) :: u32) :: u64) * 8) = unat n"
    using n by (simp add: unat_word_ariths)
  then show ?thesis
    by (simp add: simplefs_blocks_to_sectors_def simplefs_sectors_to_blocks_def word_unat_eq_iff)
qed

lemma mode_roundtrip: "ucast (ucast (m :: u16) :: u32) = m"
  by (simp add: ucast_up_ucast_id is_up_def source_size target_size)

lemma S_IS_exclusive:
  "S_ISDIR m \<Longrightarrow> \<not> S_ISREG m \<and> \<not> S_ISLNK m \<and> \<not> S_ISCHR m \<and> \<not> S_ISBLK m"
  "S_ISREG m \<Longrightarrow> \<not> S_ISLNK m \<and> \<not> S_ISCHR m \<and> \<not> S_ISBLK m"
  "S_ISLNK m \<Longrightarrow> \<not> S_ISCHR m \<and> \<not> S_ISBLK m"
  "S_ISCHR m \<or> S_ISBLK m \<Longrightarrow> m \<noteq> 0"
  by (auto simp: S_IS_defs)

lemma set_inode_flags_fields [simp]:
  fixes i
  defines "j \<equiv> simplefs_set_inode_flags i"
  shows "i_mode j = i_mode i" "i_uid j = i_uid i" "i_gid j = i_gid i" "i_size j = i_size i" "i_ctime j = i_ctime i"
    "i_atime j = i_atime i" "i_mtime j = i_mtime i" "i_crtime j = i_crtime i" "i_blocks j = i_blocks i"
    "i_nlink j = i_nlink i" "i_generation j = i_generation i" "i_xattr_block j = i_xattr_block i" "i_flags j = i_flags i"
    "ei_block j = ei_block i" "i_data j = i_data i" "i_rdev j = i_rdev i" "i_link j = i_link i"
    "prealloc_block j = prealloc_block i" "prealloc_len j = prealloc_len i" "dir_index j = dir_index i"
  unfolding j_def simplefs_set_inode_flags_def Let_def by simp_all

lemma load_store_inode:
  fixes dev dev' i p b0 j
  defines "b \<equiv> store_disk_inode dev i p b0"
  assumes "inode_fits i" "S_ISCHR (i_mode i) \<or> S_ISBLK (i_mode i) \<Longrightarrow> dev' = i_rdev i"
  shows "restored i (load_disk_inode dev' b p j)"
proof -
  note g = store_disk_inode_get [where dev = dev and inode = i and p = p and b = b0, folded b_def]
  have t: "disk_time b (p + 16) (p + 28) = i_ctime i" "disk_time b (p + 20) (p + 32) = i_atime i"
    "disk_time b (p + 24) (p + 36) = i_mtime i" "disk_time b (p + 64) (p + 68) = i_crtime i"
    using assms(2) by (simp_all add: disk_time_store g inode_fits_def)
  have s: "uint (word_of_int (i_size i) :: u32) = i_size i" "0 \<le> i_size i"
    using assms(2) by (simp_all add: inode_fits_def unsigned_of_int take_bit_int_eq_self)
  have n: "simplefs_blocks_to_sectors (ucast (ucast (simplefs_sectors_to_blocks (i_blocks i)) :: u32)) = i_blocks i"
    using assms(2) by (simp add: inode_fits_def blocks_roundtrip)
  have d: "b (p + 72 + k) = i_data i k" if "\<not> (S_ISCHR (i_mode i) \<or> S_ISBLK (i_mode i))" "k < 32" for k
    unfolding b_def by (rule store_disk_inode_data [OF that])
  note e = S_IS_exclusive [of "i_mode i"]
  note w = load_disk_inode_def Let_def g t n mode_roundtrip s(1)
  consider (dir) "S_ISDIR (i_mode i)" | (reg) "S_ISREG (i_mode i)" | (lnk) "S_ISLNK (i_mode i)" "i_size i < 32"
    | (long) "S_ISLNK (i_mode i)" "\<not> i_size i < 32" | (spec) "\<not> S_ISDIR (i_mode i)" "\<not> S_ISREG (i_mode i)" "\<not> S_ISLNK (i_mode i)"
    by blast
  then show ?thesis
  proof cases
    case dir
    then show ?thesis using e(1) d by (simp add: restored_def w mem_copy_def)
  next
    case reg
    then show ?thesis using e(1,2) by (auto simp: restored_def w)
  next
    case lnk
    then show ?thesis using e(1-3) s(2) d by (auto simp: restored_def w mem_copy_def)
  next
    case long
    then show ?thesis using e(1-3) d by (auto simp: restored_def w mem_copy_def)
  next
    case spec
    then show ?thesis using e(4) assms(3) by (auto simp: restored_def w)
  qed
qed

section \<open>Handles around an update\<close>

lemma start_cache_wp:
  assumes "\<And>e s1. sframe s s1 \<Longrightarrow> oframe s s1 \<Longrightarrow> cache s1 = cache s \<Longrightarrow> Q (Inl e) s1"
    and "\<And>h s1. started s h s1 \<Longrightarrow> sbi s1 = sbi s \<Longrightarrow> cache s1 = cache s \<Longrightarrow> oframe s s1 \<Longrightarrow>
      \<not> s_shutdown s1 \<Longrightarrow> (h \<longrightarrow> has_jbd2 (s_journal s)) \<Longrightarrow> Q (Inr h) s1"
  shows "wp (simplefs_journal_start_sb E n) Q s"
proof -
  have "wp (simplefs_journal_start_sb E n) (\<lambda>r s1. cache s1 = cache s \<and> (r = Inr True \<longrightarrow> has_jbd2 (s_journal s))) s"
    by (rule wp_mono [OF start_sb_spec]) (auto simp: has_jbd2_def)
  moreover have "wp (simplefs_journal_start_sb E n) (\<lambda>r s1. cache s1 = cache s \<and> (r = Inr True \<longrightarrow> has_jbd2 (s_journal s)) \<longrightarrow> Q r s1) s"
    by (rule start_any_wp) (auto intro: assms)
  ultimately show ?thesis by (rule wp_mono [OF wp_conj]) simp
qed

text \<open>
  The frame of every operation above the allocators: the adapter is left as it was found, the trace
  grows, the geometry is constant and a shutdown is never undone.
\<close>

definition uframe :: "kst \<Rightarrow> kst \<Rightarrow> bool" where
  "uframe s s' \<longleftrightarrow> grows s s' \<and> s_fs_info s' = s_fs_info s \<and> (handle_ok s \<longrightarrow> s_journal s' = s_journal s)"

text \<open>Nothing changed but the adapter and the trace.\<close>

definition same_disk :: "kst \<Rightarrow> kst \<Rightarrow> bool" where
  "same_disk s s' \<longleftrightarrow> sbi s' = sbi s \<and> inodes s' = inodes s \<and> cache s' = cache s"

lemma uframe_refl: "uframe s s"
  by (simp add: uframe_def grows_refl)

lemma uframe_handle_ok: "handle_ok s \<Longrightarrow> uframe s s' \<Longrightarrow> handle_ok s'"
  by (simp add: uframe_def handle_ok_def)

lemma uframe_trans: "uframe s t \<Longrightarrow> uframe t u \<Longrightarrow> uframe s u"
  using uframe_handle_ok [of s t] by (auto simp: uframe_def intro: grows_trans)

interpretation ufr: frame uframe
  by unfold_locales (fact uframe_refl, erule uframe_trans)

lemmas [frame_rules] = ufr.keeps_return ufr.keeps_gets ufr.keeps_bind ufr.keeps_when ufr.keeps_then

lemma sframe_uframe: "sframe s s' \<Longrightarrow> grows s s' \<Longrightarrow> uframe s s'"
  by (simp add: sframe_def jframe_def uframe_def)

lemma aframe_uframe: "aframe s s' \<Longrightarrow> grows s s' \<Longrightarrow> uframe s s'"
  by (simp add: aframe_def uframe_def)

lemma keeps_uframe: "keeps sframe m \<Longrightarrow> keeps grows m \<Longrightarrow> keeps uframe m"
  by (simp add: keeps_def sframe_uframe)

lemma upd_inode_uframe [frame_rules]: "keeps uframe (upd_inode n f)"
  by (simp add: keeps_def upd_inode_def uframe_def grows_def)

lemma set_cache_uframe [frame_rules]: "keeps uframe (set_cache n b)"
  by (simp add: keeps_def set_cache_def uframe_def grows_def)

lemma trace_uframe:
  "keeps uframe (ext E c)" "keeps uframe (ask E c)" "keeps uframe (asknum E c)" "keeps uframe (note_call c)"
  by (simp_all add: keeps_def ext_def ask_def asknum_def note_call_def uframe_def grows_def Let_def suffix_ConsI)

lemmas [frame_rules] = trace_uframe

lemma stop_status: "wp (simplefs_journal_stop E h) (\<lambda>r s'. r = None \<or> h \<and> (Jbd2_journal_stop, r) \<in> set (trace s')) s"
  by (auto simp: simplefs_journal_stop_def simplefs_journal_mark_shutdown_def set_handle_def wp_simps)

text \<open>Inside a handle: what the body \<open>m\<close> did, and what the result can be after the stop.\<close>

lemma with_handle_wp:
  assumes "handle_ok s" and "\<And>e s1. uframe s s1 \<Longrightarrow> same_disk s s1 \<Longrightarrow> Q (Some e) s1"
    and "\<And>s1. handle_ok s1 \<Longrightarrow> grows s s1 \<Longrightarrow> same_disk s s1 \<Longrightarrow> \<not> s_shutdown s1 \<Longrightarrow>
      wp m (\<lambda>r s2. uframe s1 s2 \<and> (\<forall>r' s3. uframe s s3 \<longrightarrow> same_disk s2 s3 \<longrightarrow> grows s2 s3 \<longrightarrow> (r \<noteq> None \<longrightarrow> r' = r) \<longrightarrow>
        (r = None \<longrightarrow> r' = None \<or> has_jbd2 (s_journal s) \<and> (Jbd2_journal_stop, r') \<in> set (trace s3)) \<longrightarrow> Q r' s3)) s1"
  shows "wp (with_handle E n m) Q s"
  unfolding with_handle_def wp_bind
proof (rule start_cache_wp)
  fix h s1
  assume s1: "started s h s1" "sbi s1 = sbi s" "cache s1 = cache s" "oframe s s1" "\<not> s_shutdown s1"
    "h \<longrightarrow> has_jbd2 (s_journal s)"
  have sd: "same_disk s s1" using s1 by (simp add: same_disk_def started_def)
  have stop: "wp (simplefs_journal_stop E h) (\<lambda>r. wp (ret (if q = None then r else q)) Q) s2"
    if u: "uframe s1 s2" and Q: "\<forall>r' s3. uframe s s3 \<longrightarrow> same_disk s2 s3 \<longrightarrow> grows s2 s3 \<longrightarrow> (q \<noteq> None \<longrightarrow> r' = q) \<longrightarrow>
        (q = None \<longrightarrow> r' = None \<or> has_jbd2 (s_journal s) \<and> (Jbd2_journal_stop, r') \<in> set (trace s3)) \<longrightarrow> Q r' s3" for q s2
  proof -
    have j2: "s_journal s2 = s_journal s1" "s_fs_info s2 = s_fs_info s" "grows s s2"
      using u started_handle_ok [OF assms(1) s1(1)] s1(1,4)
      by (auto simp: uframe_def started_def intro: grows_trans [OF oframe_grows])
    have "wp (simplefs_journal_stop E h) (\<lambda>r s3. uframe s s3 \<and> same_disk s2 s3 \<and> grows s2 s3 \<and>
       (r = None \<or> has_jbd2 (s_journal s) \<and> (Jbd2_journal_stop, r) \<in> set (trace s3))) s2"
    proof (rule wp_mono [OF wp_keeps [OF stop_jframe wp_keeps [OF stop_oframe wp_conj [OF stop_spec stop_status]]]])
      fix r s3
      assume a: "jframe s2 s3 \<and> oframe s2 s3 \<and> (cache s3 = cache s2 \<and>
         s_journal s3 = (if h then map_option (\<lambda>j. j\<lparr>j_handle_owner := False, j_active_handle := False\<rparr>) (s_journal s2) else s_journal s2))
         \<and> (r = None \<or> h \<and> (Jbd2_journal_stop, r) \<in> set (trace s3))"
      have "handle_ok s \<longrightarrow> s_journal s3 = s_journal s"
        using a j2(1) s1(1) by (auto simp: started_def handle_ok_def split: if_splits option.splits)
      moreover have "grows s s3" using a j2(3) by (meson grows_trans oframe_grows)
      ultimately show "uframe s s3 \<and> same_disk s2 s3 \<and> grows s2 s3 \<and>
          (r = None \<or> has_jbd2 (s_journal s) \<and> (Jbd2_journal_stop, r) \<in> set (trace s3))"
        using a j2(2) s1(6) by (cases r) (auto simp: uframe_def same_disk_def jframe_def oframe_grows)
    qed
    then show ?thesis by (rule wp_mono) (use Q in \<open>auto simp: wp_return\<close>)
  qed
  show "wp (case Inr h of Inl e \<Rightarrow> ret (Some e) | Inr h \<Rightarrow> do {
      r \<leftarrow> m; stop_ret \<leftarrow> simplefs_journal_stop E h; ret (if r = None then stop_ret else r) }) Q s1"
    unfolding sum.case wp_bind
    by (rule wp_mono [OF assms(3) [OF started_handle_ok [OF assms(1) s1(1)] oframe_grows [OF s1(4)] sd s1(5)]])
      (auto intro: stop)
next
  fix e s1
  assume "sframe s s1" "oframe s s1" "cache s1 = cache s"
  then show "wp (case Inl e of Inl e \<Rightarrow> ret (Some e) | Inr h \<Rightarrow> do {
      r \<leftarrow> m; stop_ret \<leftarrow> simplefs_journal_stop E h; ret (if r = None then stop_ret else r) }) Q s1"
    by (auto simp: wp_return same_disk_def sframe_def jframe_def oframe_grows intro!: assms(2) sframe_uframe)
qed

lemma edit_folio_wp:
  assumes "\<And>e s'. sframe s s' \<Longrightarrow> grows s s' \<Longrightarrow> cache s' = cache s \<Longrightarrow> Q (Some e) s'"
    and "\<And>r s'. sframe s s' \<Longrightarrow> grows s s' \<Longrightarrow> cache s' = (cache s)(n := f (cache s n)) \<Longrightarrow> Q r s'"
  shows "wp (edit_folio E n f) Q s"
proof -
  have g: "wp (simplefs_get_folio E n) (\<lambda>r s'. sframe s s' \<and> grows s s' \<and> cache s' = cache s \<and>
      (\<forall>b. r = Inr b \<longrightarrow> b = cache s n)) s"
    by (rule wp_mono [OF wp_keeps [OF keeps_grows [OF get_folio_oframe]
        wp_keeps [OF keeps_sframe [OF get_folio_leaf get_folio_jframe] get_folio_spec]]]) auto
  have d: "wp (simplefs_journal_dirty_folio E n n) (\<lambda>r u. sframe t u \<and> grows t u \<and> cache u = cache t) t" for t
    by (rule wp_mono [OF wp_keeps [OF keeps_grows [OF dirty_folio_oframe]
        wp_keeps [OF keeps_sframe [OF dirty_folio_leaf dirty_folio_jframe] dirty_folio_spec]]]) auto
  show ?thesis
    unfolding edit_folio_def wp_bind
  proof (rule wp_mono [OF g], elim conjE)
    fix r :: "errno + block" and s1
    assume s1: "sframe s s1" "grows s s1" "cache s1 = cache s" "\<forall>b. r = Inr b \<longrightarrow> b = cache s n"
    let ?s2 = "s1\<lparr>cache := (cache s)(n := f (cache s n))\<rparr>"
    have s2: "sframe s ?s2" "grows s ?s2" using s1(1,2) by (simp_all add: sframe_def grows_def)
    have "wp (simplefs_journal_dirty_folio E n n) Q ?s2"
      by (rule wp_mono [OF d]) (use s2 in \<open>auto intro: assms(2) sfr.trans grows_trans\<close>)
    then show "wp (case r of Inl e \<Rightarrow> ret (Some e)
        | Inr b \<Rightarrow> do { set_cache n (f b); simplefs_journal_dirty_folio E n n }) Q s1"
      using s1 by (cases r) (simp_all add: wp_return wp_bind wp_set_cache assms(1))
  qed
qed

section \<open>The inode table\<close>

text \<open>
  An update of one slot of the inode table by \<open>f\<close>: nothing but the image of the slot's block changes,
  and it changes only as \<open>f\<close> says.
\<close>

definition slot_edit :: "u32 \<Rightarrow> (block \<Rightarrow> block) \<Rightarrow> kst \<Rightarrow> kst \<Rightarrow> bool" where
  "slot_edit ino f s s' \<longleftrightarrow> uframe s s' \<and> sbi s' = sbi s \<and> inodes s' = inodes s \<and>
     cache s' = (cache s)(inode_block ino := f (cache s (inode_block ino)))"

lemma sframe_fields: "sframe s s' \<Longrightarrow> sbi s' = sbi s \<and> inodes s' = inodes s"
  by (simp add: sframe_def jframe_def)

lemma edit_slot_wp:
  assumes "handle_ok s"
  shows "wp (with_handle E n (edit_folio E (inode_block ino) f)) (\<lambda>r s'. slot_edit ino f s s' \<or> r \<noteq> None \<and> slot_edit ino id s s') s"
proof (rule with_handle_wp [OF assms])
  fix s1
  assume s1: "same_disk s s1"
  show "wp (edit_folio E (inode_block ino) f) (\<lambda>r s2. uframe s1 s2 \<and> (\<forall>r' s3. uframe s s3 \<longrightarrow> same_disk s2 s3 \<longrightarrow>
      grows s2 s3 \<longrightarrow> (r \<noteq> None \<longrightarrow> r' = r) \<longrightarrow> (r = None \<longrightarrow> r' = None \<or> has_jbd2 (s_journal s) \<and> (Jbd2_journal_stop, r') \<in> set (trace s3)) \<longrightarrow>
      (slot_edit ino f s s3 \<or> r' \<noteq> None \<and> slot_edit ino id s s3))) s1"
    by (rule edit_folio_wp) (use s1 in \<open>auto simp: slot_edit_def same_disk_def sframe_uframe dest: sframe_fields\<close>)
qed (simp add: slot_edit_def same_disk_def)

lemma write_inode_wp:
  fixes s E ino
  defines "f \<equiv> store_disk_inode (word_of_int (kfun E ''old_encode_dev'' [uint (i_rdev (inodes s ino))])) (inodes s ino) (inode_pos ino)"
  assumes "handle_ok s"
  shows "wp (simplefs_write_inode E ino) (\<lambda>r s'. slot_edit ino f s s' \<or>
     (r \<noteq> None \<or> nr_inodes (sbi s) \<le> ino) \<and> slot_edit ino id s s') s"
proof -
  have "slot_edit ino id s s" by (simp add: slot_edit_def uframe_refl)
  then show ?thesis
    unfolding simplefs_write_inode_def Let_def
    by (auto simp: wp_simps f_def intro!: wp_mono [OF edit_slot_wp [OF assms(2)]])
qed

lemma inode_slots_apart:
  assumes "m \<noteq> ino" "inode_block m = inode_block ino"
  shows "inode_pos m + 104 \<le> inode_pos ino \<or> inode_pos ino + 104 \<le> inode_pos m"
proof -
  have "m div 39 = ino div 39" using assms(2) by (simp add: inode_block_def)
  then have "m mod 39 \<noteq> ino mod 39" using assms(1) div_mult_mod_eq [of m 39] div_mult_mod_eq [of ino 39] by metis
  then have "unat (inode_shift m) \<noteq> unat (inode_shift ino)" by (simp add: inode_shift_def flip: word_unat_eq_iff)
  then show ?thesis by (auto simp: inode_pos_def neq_iff)
qed

text \<open>
  C8. An inode that was written to the inode table is read back. After a successful
  \<open>simplefs_write_inode\<close> of an inode whose size, times and block count fit their 32-bit members, a
  \<open>simplefs_iget\<close> that has to read the inode from the same image gives an inode that agrees with it in
  every member the table keeps; the slots of all other inodes keep their bytes. For a device file
  \<open>old_decode_dev\<close> has to undo \<open>old_encode_dev\<close> on its number.
\<close>
theorem inode_roundtrip:
  assumes "handle_ok s" and "ino < nr_inodes (sbi s)" "inode_fits (inodes s ino)"
    and "S_ISCHR (i_mode (inodes s ino)) \<or> S_ISBLK (i_mode (inodes s ino)) \<Longrightarrow>
      word_of_int (kfun E' ''old_decode_dev'' [uint (word_of_int (kfun E ''old_encode_dev''
        [uint (i_rdev (inodes s ino))]) :: u32)]) = i_rdev (inodes s ino)"
    and "run_state (simplefs_write_inode E ino) s = (None, s1)"
    and "cache t (inode_block ino) = cache s1 (inode_block ino)" "\<And>tr. kask E' tr (Other ''I_NEW'' [uint ino])"
    and "run_state (simplefs_iget E' ino) t = (Inr j, t')"
  shows "restored (inodes s ino) (inodes t' ino) \<and> (\<forall>m k. m \<noteq> ino \<longrightarrow> k < 104 \<longrightarrow>
    cache s1 (inode_block m) (inode_pos m + k) = cache s (inode_block m) (inode_pos m + k))"
proof -
  define dev where "dev = (word_of_int (kfun E ''old_encode_dev'' [uint (i_rdev (inodes s ino))]) :: u32)"
  let ?f = "store_disk_inode dev (inodes s ino) (inode_pos ino)"
  have w: "slot_edit ino ?f s s1"
    using wp_run [OF write_inode_wp [OF assms(1)] assms(5)] assms(2) by (simp add: dev_def not_le [symmetric])
  have c: "cache t (inode_block ino) = ?f (cache s (inode_block ino))"
    using w assms(6) by (simp add: slot_edit_def)
  have "wp (simplefs_iget E' ino) (\<lambda>r t'. isl r \<or> (\<exists>i. inodes t' ino = load_disk_inode
      (word_of_int (kfun E' ''old_decode_dev'' [uint (get32 (cache t (inode_block ino)) (inode_pos ino + 72))]))
      (cache t (inode_block ino)) (inode_pos ino) i)) t"
    unfolding simplefs_iget_def
    by (auto simp: wp_simps Let_def assms(7) intro!: wp_mono [OF get_folio_spec] split: sum.split)
  from wp_run [OF this assms(8)] obtain i where i: "inodes t' ino = load_disk_inode
      (word_of_int (kfun E' ''old_decode_dev'' [uint (get32 (cache t (inode_block ino)) (inode_pos ino + 72))]))
      (cache t (inode_block ino)) (inode_pos ino) i" by auto
  have "restored (inodes s ino) (inodes t' ino)"
    unfolding i c by (rule load_store_inode [OF assms(3)]) (use assms(4) in \<open>simp add: dev_def store_disk_inode_get(19)\<close>)
  moreover have "cache s1 (inode_block m) (inode_pos m + k) = cache s (inode_block m) (inode_pos m + k)"
    if "m \<noteq> ino" "k < 104" for m k
    using w inode_slots_apart [OF that(1)] that(2) by (auto simp: slot_edit_def store_disk_inode_frame)
  ultimately show ?thesis by blast
qed

text \<open>A small file, and an environment in which no inode is in memory yet.\<close>

definition env_new :: env where
  "env_new = env_ok\<lparr>kask := \<lambda>_ c. case c of Other n _ \<Rightarrow> n = ''I_NEW'' | _ \<Rightarrow> False\<rparr>"

definition demo_inode :: simplefs_inode_info where
  "demo_inode = inode0\<lparr>i_mode := 0x81A4, i_uid := 1000, i_size := 5000, i_ctime := \<lparr>tv_sec = - 5, tv_nsec = 7\<rparr>,
     i_blocks := 16, i_nlink := 2, ei_block := 7, i_flags := 0x20\<rparr>"

definition kst_inode :: kst where
  "kst_inode = kst0\<lparr>inodes := (\<lambda>_. inode0)(5 := demo_inode)\<rparr>"

lemma kst_inode_written: "fst (run_state (simplefs_write_inode env_new 5) kst_inode) = None"
proof -
  have "wp (simplefs_write_inode env_new 5) (\<lambda>r s'. r = None) kst_inode"
    by (simp add: wp_simps simplefs_write_inode_def with_handle_def edit_folio_def simplefs_journal_start_sb_def
        simplefs_journal_stop_def simplefs_get_folio_def simplefs_read_metadata_def simplefs_journal_dirty_folio_def
        simplefs_journal_prepare_current_def simplefs_current_jbd2_handle_def kst_inode_def env_new_def demo_simps has_jbd2_def Let_def)
  then show ?thesis by (simp add: wp_def split_beta)
qed

lemma iget_ok:
  assumes "5 < nr_inodes (sbi t)" "s_journal t = None"
  shows "fst (run_state (simplefs_iget env_new 5) t) = Inr 5"
proof -
  have "wp (simplefs_iget env_new 5) (\<lambda>r s'. r = Inr 5) t"
    using assms by (simp add: wp_simps simplefs_iget_def simplefs_get_folio_def simplefs_read_metadata_def
        simplefs_journal_prepare_current_def simplefs_current_jbd2_handle_def env_new_def env_ok_def has_jbd2_def Let_def flip: not_le)
  then show ?thesis by (simp add: wp_def split_beta)
qed

theorem inode_roundtrip_witness:
  "\<exists>s1 t'. run_state (simplefs_write_inode env_new 5) kst_inode = (None, s1) \<and>
     run_state (simplefs_iget env_new 5) (s1\<lparr>inodes := \<lambda>_. inode0\<rparr>) = (Inr 5, t') \<and>
     i_size (inodes t' 5) = 5000 \<and> tv_sec (i_ctime (inodes t' 5)) = - 5 \<and> ei_block (inodes t' 5) = 7"
proof -
  obtain s1 where w: "run_state (simplefs_write_inode env_new 5) kst_inode = (None, s1)"
    using kst_inode_written by (metis prod.collapse)
  have h: "handle_ok kst_inode" by (simp add: handle_ok_def kst_inode_def demo_simps)
  have "slot_edit 5 f kst_inode s1 \<Longrightarrow> s_journal s1 = None \<and> nr_inodes (sbi s1) = 39" for f
    using h by (simp add: slot_edit_def uframe_def kst_inode_def demo_simps)
  then have s1: "s_journal s1 = None" "nr_inodes (sbi s1) = 39" using wp_run [OF write_inode_wp [OF h] w] by auto
  obtain t' where r: "run_state (simplefs_iget env_new 5) (s1\<lparr>inodes := \<lambda>_. inode0\<rparr>) = (Inr 5, t')"
    using iget_ok [of "s1\<lparr>inodes := \<lambda>_. inode0\<rparr>"] s1 by (cases "run_state (simplefs_iget env_new 5) (s1\<lparr>inodes := \<lambda>_. inode0\<rparr>)") simp
  have i: "inodes kst_inode 5 = demo_inode" "5 < nr_inodes (sbi kst_inode)" "kask env_new tr (Other ''I_NEW'' [uint (5 :: u32)])" for tr
    by (simp_all add: kst_inode_def env_new_def demo_simps)
  have "inode_fits demo_inode" "\<not> S_ISCHR (i_mode demo_inode)" "\<not> S_ISBLK (i_mode demo_inode)"
    by (simp_all add: demo_inode_def demo_simps inode_fits_def time_fits_def S_IS_defs S_IFMT_def)
  then have "restored demo_inode (inodes t' 5)"
    using inode_roundtrip [OF h i(2) _ _ w _ i(3) r] by (simp add: i)
  then show ?thesis using w r by (auto simp: restored_def demo_inode_def S_IS_defs S_IFMT_def demo_simps)
qed

end
