(* ===== verification/SFS_Xattr.thy ===== *)
theory SFS_Xattr
  imports SFS_Inode
begin

text \<open>
  Extended attributes, \<open>simplefs_xattr.c\<close>. All attributes of an inode lie in one block: a header with
  the number of entries, entries with their names growing upwards, values growing downwards from the
  end. \<open>simplefs_xattr_set\<close> rebuilds the block. The C code walks over the entries with a pointer; the
  loops below recurse on the number of entries left and carry the offset of that pointer.
\<close>

section \<open>The block format\<close>

definition SIMPLEFS_XATTR_MAGIC :: u32 where
  "SIMPLEFS_XATTR_MAGIC = 0x53584154"

definition SIMPLEFS_XATTR_ENTRY_SIZE :: "nat \<Rightarrow> nat" where
  "SIMPLEFS_XATTR_ENTRY_SIZE name_len = (8 + name_len + 3) div 4 * 4"

definition h_magic :: "block \<Rightarrow> u32" where "h_magic b = get32 b 0"
definition h_count :: "block \<Rightarrow> u32" where "h_count b = get32 b 4"
definition e_name_len :: "block \<Rightarrow> nat \<Rightarrow> nat" where "e_name_len b p = unat (b p)"
definition e_value_offs :: "block \<Rightarrow> nat \<Rightarrow> nat" where "e_value_offs b p = unat (get16 b (p + 2))"
definition e_value_size :: "block \<Rightarrow> nat \<Rightarrow> nat" where "e_value_size b p = unat (get32 b (p + 4))"

definition e_name :: "block \<Rightarrow> nat \<Rightarrow> u8 list" where
  "e_name b p = bytes_at b (p + 8) (e_name_len b p)"

definition e_value :: "block \<Rightarrow> nat \<Rightarrow> u8 list" where
  "e_value b p = bytes_at b (e_value_offs b p) (e_value_size b p)"

definition next_entry :: "block \<Rightarrow> nat \<Rightarrow> nat" where
  "next_entry b p = p + SIMPLEFS_XATTR_ENTRY_SIZE (e_name_len b p)"

section \<open>Validation and lookup\<close>

fun validate_entries :: "block \<Rightarrow> nat \<Rightarrow> nat \<Rightarrow> nat \<Rightarrow> (nat \<times> nat) option" where
  "validate_entries b 0 entries_end values_start = Some (entries_end, values_start)"
| "validate_entries b (Suc n) entries_end values_start =
     (if entries_end > 4096 - 8 then None
      else let entry_size = SIMPLEFS_XATTR_ENTRY_SIZE (e_name_len b entries_end) in
        if entry_size > 4096 - entries_end then None
        else if e_value_offs b entries_end > 4096 \<or>
           e_value_size b entries_end > 4096 - e_value_offs b entries_end then None
        else validate_entries b n (entries_end + entry_size) (min values_start (e_value_offs b entries_end)))"

definition simplefs_xattr_validate :: "block \<Rightarrow> status" where
  "simplefs_xattr_validate b =
     (if h_magic b \<noteq> SIMPLEFS_XATTR_MAGIC then Some EUCLEAN
      else if unat (h_count b) > (4096 - 8) div 8 then Some EUCLEAN
      else (case validate_entries b (unat (h_count b)) 8 4096 of
          None \<Rightarrow> Some EUCLEAN
        | Some (entries_end, values_start) \<Rightarrow> if entries_end > values_start then Some EUCLEAN else None))"

text \<open>The entry with this name, for \<open>simplefs_xattr_get\<close>.\<close>

fun find_entry :: "block \<Rightarrow> u8 list \<Rightarrow> nat \<Rightarrow> nat \<Rightarrow> nat option" where
  "find_entry b name 0 p = None"
| "find_entry b name (Suc n) p =
     (if e_name_len b p = length name \<and> e_name b p = name then Some p
      else find_entry b name n (next_entry b p))"

text \<open>
  \<open>simplefs_xattr_get\<close>; \<open>room\<close> is \<open>None\<close> for a \<open>NULL\<close> buffer and else its size. The result is the size of
  the value and, when there is a buffer, the value that was copied to it.
\<close>

definition simplefs_xattr_get :: "env \<Rightarrow> u32 \<Rightarrow> u8 list \<Rightarrow> nat option \<Rightarrow> (kst, errno + nat \<times> u8 list option) state" where
  "simplefs_xattr_get E ino name room = do {
     blk \<leftarrow> gets (\<lambda>s. i_xattr_block (inodes s ino));
     if blk = 0 then ret (Inl ENODATA)
     else if length name > 255 then ret (Inl ERANGE)
     else do {
       data \<leftarrow> simplefs_get_folio E blk;
       ret (case data of
          Inl e \<Rightarrow> Inl e
        | Inr b \<Rightarrow> (case simplefs_xattr_validate b of
            Some e \<Rightarrow> Inl e
          | None \<Rightarrow> (case find_entry b name (unat (h_count b)) 8 of
              None \<Rightarrow> Inl ENODATA
            | Some p \<Rightarrow> (case room of
                None \<Rightarrow> Inr (e_value_size b p, None)
              | Some sz \<Rightarrow> if sz < e_value_size b p then Inl ERANGE
                  else Inr (e_value_size b p, Some (e_value b p))))))
     }
   }"

section \<open>Rebuilding the block\<close>

text \<open>The last entry with this name, the variable \<open>found\<close>.\<close>

fun scan_entries :: "block \<Rightarrow> u8 list \<Rightarrow> nat \<Rightarrow> nat \<Rightarrow> nat \<Rightarrow> nat option \<Rightarrow> nat option" where
  "scan_entries b name 0 i p found = found"
| "scan_entries b name (Suc n) i p found =
     scan_entries b name n (Suc i) (next_entry b p)
       (if e_name_len b p = length name \<and> e_name b p = name then Some i else found)"

text \<open>
  Append one entry to the block under construction, which is the image, \<open>new_entries_end\<close> and
  \<open>new_values_start\<close>; \<open>None\<close> when there is no room.
\<close>

type_synonym xbuild = "block \<times> nat \<times> nat"

definition add_entry :: "u8 list \<Rightarrow> u8 list \<Rightarrow> xbuild \<Rightarrow> xbuild option" where
  "add_entry name value t =
     (case t of (tmp, entries_end, values_start) \<Rightarrow>
      let entry_size = SIMPLEFS_XATTR_ENTRY_SIZE (length name) in
      if length value > values_start \<or> entries_end + entry_size > values_start - length value then None
      else let values_start = values_start - length value;
             tmp = tmp(entries_end := of_nat (length name));
             tmp = tmp(entries_end + 1 := 0);
             tmp = put32 (of_nat (length value)) tmp (entries_end + 4);
             tmp = put16 (of_nat values_start) tmp (entries_end + 2);
             tmp = store_bytes name tmp (entries_end + 8);
             tmp = store_bytes value tmp values_start;
             tmp = put32 (get32 tmp 4 + 1) tmp 4
           in Some (tmp, entries_end + entry_size, values_start))"

fun copy_entries :: "block \<Rightarrow> nat option \<Rightarrow> nat \<Rightarrow> nat \<Rightarrow> nat \<Rightarrow> xbuild \<Rightarrow> xbuild option" where
  "copy_entries b found 0 j p t = Some t"
| "copy_entries b found (Suc n) j p t =
     (if found = Some j then copy_entries b found n (Suc j) (next_entry b p) t
      else (case add_entry (e_name b p) (e_value b p) t of
          None \<Rightarrow> None
        | Some t \<Rightarrow> copy_entries b found n (Suc j) (next_entry b p) t))"

definition empty_xattrs :: block where
  "empty_xattrs = put32 0 (put32 SIMPLEFS_XATTR_MAGIC zero_block 0) 4"

definition rebuild_xattrs :: "block \<Rightarrow> nat option \<Rightarrow> u8 list \<Rightarrow> u8 list option \<Rightarrow> block option" where
  "rebuild_xattrs b found name value =
     (case copy_entries b found (unat (h_count b)) 0 8 (empty_xattrs, 8, 4096) of
        None \<Rightarrow> None
      | Some t \<Rightarrow> (case value of
          None \<Rightarrow> Some (fst t)
        | Some v \<Rightarrow> map_option fst (add_entry name v t)))"

section \<open>Setting and removing attributes\<close>

record xattr_flags =
  XATTR_CREATE :: bool
  XATTR_REPLACE :: bool

text \<open>The block to change: a new one for the first attribute, else the validated old one.\<close>

definition xattr_block_for_set :: "env \<Rightarrow> u32 \<Rightarrow> (kst, errno + block) state" where
  "xattr_block_for_set E ino = do {
     blk \<leftarrow> gets (\<lambda>s. i_xattr_block (inodes s ino));
     if blk = 0 then do {
       bno \<leftarrow> get_free_blocks E 1;
       if bno = 0 then ret (Inl ENOSPC)
       else do {
         data \<leftarrow> simplefs_get_folio E bno;
         (case data of
            Inl e \<Rightarrow> do { put_blocks E bno 1; ret (Inl e) }
          | Inr b \<Rightarrow> do {
              set_cache bno empty_xattrs;
              upd_inode ino (\<lambda>i. i\<lparr>i_xattr_block := bno\<rparr>);
              upd_inode ino (\<lambda>i. i\<lparr>i_blocks := i_blocks i + simplefs_blocks_to_sectors 1\<rparr>);
              note_call (Mark_inode_dirty ino);
              ret (Inr empty_xattrs)
            })
       }
     }
     else do {
       data \<leftarrow> simplefs_get_folio E blk;
       ret (case data of
          Inl e \<Rightarrow> Inl e
        | Inr b \<Rightarrow> if simplefs_xattr_validate b \<noteq> None then Inl EUCLEAN else Inr b)
     }
   }"

text \<open>What happens to the image \<open>b\<close> between the search and the label \<open>out_stop\<close>.\<close>

definition xattr_update :: "env \<Rightarrow> u32 \<Rightarrow> u8 list \<Rightarrow> u8 list option \<Rightarrow> xattr_flags \<Rightarrow> block \<Rightarrow> (kst, status) state" where
  "xattr_update E ino name value flags b = do {
     let found = scan_entries b name (unat (h_count b)) 0 8 None;
     if found \<noteq> None \<and> XATTR_CREATE flags then ret (Some EEXIST)
     else if found = None \<and> XATTR_REPLACE flags then ret (Some ENODATA)
     else do {
       nomem \<leftarrow> ext E Kmalloc;
       if nomem \<noteq> None then ret (Some ENOMEM)
       else (case rebuild_xattrs b found name value of
         None \<Rightarrow> ret (Some ENOSPC)
       | Some tmp \<Rightarrow> do {
           blk \<leftarrow> gets (\<lambda>s. i_xattr_block (inodes s ino));
           set_cache blk tmp;
           r \<leftarrow> simplefs_journal_dirty_folio E blk blk;
           if r \<noteq> None then ret r
           else do {
             _ \<leftarrow> inode_set_ctime_current E ino;
             note_call (Mark_inode_dirty ino);
             ret None
           }
         })
     }
   }"

definition simplefs_xattr_set :: "env \<Rightarrow> u32 \<Rightarrow> u8 list \<Rightarrow> u8 list option \<Rightarrow> xattr_flags \<Rightarrow> (kst, status) state" where
  "simplefs_xattr_set E ino name value flags = do {
     blk \<leftarrow> gets (\<lambda>s. i_xattr_block (inodes s ino));
     if length name > 255 then ret (Some ERANGE)
     else if blk = 0 \<and> value = None then ret (if XATTR_REPLACE flags then Some ENODATA else None)
     else with_handle E 3 (do {
       data \<leftarrow> xattr_block_for_set E ino;
       (case data of
          Inl e \<Rightarrow> ret (Some e)
        | Inr b \<Rightarrow> xattr_update E ino name value flags b)
     })
   }"

definition simplefs_xattr_delete_inode :: "env \<Rightarrow> u32 \<Rightarrow> (kst, unit) state" where
  "simplefs_xattr_delete_inode E ino = do {
     blk \<leftarrow> gets (\<lambda>s. i_xattr_block (inodes s ino));
     when_true (blk \<noteq> 0) (do {
       _ \<leftarrow> simplefs_retire_metadata_blocks E blk 1;
       upd_inode ino (\<lambda>i. i\<lparr>i_xattr_block := 0\<rparr>)
     })
   }"

text \<open>
  The handlers. \<open>full\<close> is \<open>xattr_full_name(handler, name)\<close>, the kernel's name with its prefix.
\<close>

definition simplefs_xattr_handler_get :: "env \<Rightarrow> u32 \<Rightarrow> u8 list \<Rightarrow> nat option \<Rightarrow> (kst, errno + nat \<times> u8 list option) state" where
  "simplefs_xattr_handler_get E ino full room = simplefs_xattr_get E ino full room"

definition simplefs_xattr_handler_set :: "env \<Rightarrow> u32 \<Rightarrow> u8 list \<Rightarrow> u8 list option \<Rightarrow> xattr_flags \<Rightarrow> (kst, status) state" where
  "simplefs_xattr_handler_set E ino full value flags =
     (case value of
        None \<Rightarrow> simplefs_xattr_set E ino full None \<lparr>XATTR_CREATE = False, XATTR_REPLACE = True\<rparr>
      | Some v \<Rightarrow> simplefs_xattr_set E ino full (Some v) flags)"

text \<open>
  The loop of \<open>simplefs_listxattr\<close>, with the bytes written to the buffer so far. Without a buffer only
  their number counts; a name is followed by a zero byte.
\<close>

fun list_entries :: "block \<Rightarrow> nat option \<Rightarrow> nat \<Rightarrow> nat \<Rightarrow> u8 list \<Rightarrow> errno + u8 list" where
  "list_entries b room 0 p out = Inr out"
| "list_entries b room (Suc n) p out =
     (let full_len = e_name_len b p + 1 in
      if (case room of None \<Rightarrow> False | Some sz \<Rightarrow> length out + full_len > sz) then Inl ERANGE
      else list_entries b room n (next_entry b p) (out @ e_name b p @ [0]))"

definition simplefs_listxattr :: "env \<Rightarrow> u32 \<Rightarrow> nat option \<Rightarrow> (kst, errno + u8 list) state" where
  "simplefs_listxattr E ino room = do {
     blk \<leftarrow> gets (\<lambda>s. i_xattr_block (inodes s ino));
     if blk = 0 then ret (Inr [])
     else do {
       data \<leftarrow> simplefs_get_folio E blk;
       ret (case data of
          Inl e \<Rightarrow> Inl e
        | Inr b \<Rightarrow> (case simplefs_xattr_validate b of
            Some e \<Rightarrow> Inl e
          | None \<Rightarrow> list_entries b room (unat (h_count b)) 8 []))
     }
   }"

section \<open>The attributes a block holds\<close>

fun walk_entries :: "block \<Rightarrow> nat \<Rightarrow> nat \<Rightarrow> (u8 list \<times> u8 list) list" where
  "walk_entries b 0 p = []"
| "walk_entries b (Suc n) p = (e_name b p, e_value b p) # walk_entries b n (next_entry b p)"

definition xattrs :: "block \<Rightarrow> (u8 list \<times> u8 list) list" where
  "xattrs b = walk_entries b (unat (h_count b)) 8"

text \<open>
  \<open>encodes b p xs e lo\<close>: from offset \<open>p\<close> on the block holds entries for \<open>xs\<close>, which end at \<open>e\<close>, and their
  values lie at or after \<open>lo\<close>.
\<close>

fun encodes :: "block \<Rightarrow> nat \<Rightarrow> (u8 list \<times> u8 list) list \<Rightarrow> nat \<Rightarrow> nat \<Rightarrow> bool" where
  "encodes b p [] e lo \<longleftrightarrow> e = p"
| "encodes b p ((name, value) # xs) e lo \<longleftrightarrow> e_name b p = name \<and> e_value b p = value \<and> lo \<le> e_value_offs b p \<and>
     e_value_offs b p + length value \<le> 4096 \<and> encodes b (p + SIMPLEFS_XATTR_ENTRY_SIZE (length name)) xs e lo"

text \<open>The bytes the attributes need, with their entries.\<close>

definition xattr_space :: "(u8 list \<times> u8 list) list \<Rightarrow> nat" where
  "xattr_space xs = sum_list (map (\<lambda>(n, v). SIMPLEFS_XATTR_ENTRY_SIZE (length n) + length v) xs)"

lemma length_e_name [simp]: "length (e_name b p) = e_name_len b p"
  by (simp add: e_name_def)

lemma length_e_value [simp]: "length (e_value b p) = e_value_size b p"
  by (simp add: e_value_def)

lemma entry_size_bounds:
  "8 + n \<le> SIMPLEFS_XATTR_ENTRY_SIZE n" "SIMPLEFS_XATTR_ENTRY_SIZE n \<le> 11 + n"
  unfolding SIMPLEFS_XATTR_ENTRY_SIZE_def by presburger+

lemma encodes_le: "encodes b p xs e lo \<Longrightarrow> p + 8 * length xs \<le> e"
proof (induction xs arbitrary: p)
  case (Cons x xs)
  obtain n v where x: "x = (n, v)" by fastforce
  have "p + SIMPLEFS_XATTR_ENTRY_SIZE (length n) + 8 * length xs \<le> e"
    by (rule Cons.IH) (use Cons.prems in \<open>simp add: x\<close>)
  then show ?case using entry_size_bounds(1) [of "length n"] by simp
qed simp

text \<open>What an entry says depends on its own bytes and those of its value.\<close>

lemma entry_cong:
  assumes "\<And>k. p \<le> k \<Longrightarrow> k < p + SIMPLEFS_XATTR_ENTRY_SIZE (e_name_len b p) \<Longrightarrow> c k = b k"
  shows "e_name_len c p = e_name_len b p" "e_name c p = e_name b p" "e_value_offs c p = e_value_offs b p"
    "e_value_size c p = e_value_size b p"
proof -
  have l: "8 + e_name_len b p \<le> SIMPLEFS_XATTR_ENTRY_SIZE (e_name_len b p)" by (rule entry_size_bounds)
  then have *: "c k = b k" if "p \<le> k" "k < p + 8 + e_name_len b p" for k using assms that by simp
  show n: "e_name_len c p = e_name_len b p" using * [of p] by (simp add: e_name_len_def)
  show "e_name c p = e_name b p" unfolding e_name_def n by (rule bytes_at_cong) (use * in auto)
  show "e_value_offs c p = e_value_offs b p" unfolding e_value_offs_def
    by (rule arg_cong [where f = unat], rule get16_cong) (use * in auto)
  show "e_value_size c p = e_value_size b p" unfolding e_value_size_def
    by (rule arg_cong [where f = unat], rule get32_cong) (use * in auto)
qed

lemma encodes_cong:
  assumes "encodes b p xs e lo" "\<And>k. p \<le> k \<Longrightarrow> k < e \<Longrightarrow> c k = b k" "\<And>k. lo \<le> k \<Longrightarrow> k < 4096 \<Longrightarrow> c k = b k" "lo' \<le> lo"
  shows "encodes c p xs e lo'"
  using assms(1,2)
proof (induction xs arbitrary: p)
  case (Cons x xs)
  obtain name v where x: "x = (name, v)" by fastforce
  note h = Cons.prems(1) [unfolded x encodes.simps]
  have len: "length name = e_name_len b p" "length v = e_value_size b p" using h by auto
  have le: "p + SIMPLEFS_XATTR_ENTRY_SIZE (length name) \<le> e"
    using encodes_le h by (meson add_leE)
  have e: "e_name c p = e_name b p" "e_value_offs c p = e_value_offs b p" "e_value_size c p = e_value_size b p"
    using entry_cong [of p b c] Cons.prems(2) le len by auto
  have "e_value c p = e_value b p"
    unfolding e_value_def e(2,3) by (rule bytes_at_cong) (use assms(3) h len in auto)
  moreover have "encodes c (p + SIMPLEFS_XATTR_ENTRY_SIZE (length name)) xs e lo'"
    by (rule Cons.IH) (use h Cons.prems(2) in auto)
  ultimately show ?case using h e assms(4) by (simp add: x)
qed simp

lemma encodes_append:
  "encodes b p (xs @ ys) e lo \<longleftrightarrow> (\<exists>m. encodes b p xs m lo \<and> encodes b m ys e lo)"
  by (induction xs arbitrary: p) auto

lemma encodes_walk: "encodes b p xs e lo \<Longrightarrow> walk_entries b (length xs) p = xs"
  by (induction xs arbitrary: p) (auto simp: next_entry_def)

lemma encodes_space: "encodes b p xs e lo \<Longrightarrow> e = p + sum_list (map (\<lambda>(n, v). SIMPLEFS_XATTR_ENTRY_SIZE (length n)) xs)"
proof (induction xs arbitrary: p)
  case (Cons x xs)
  obtain n v where x: "x = (n, v)" by fastforce
  have "e = p + SIMPLEFS_XATTR_ENTRY_SIZE (length n) + sum_list (map (\<lambda>(n, v). SIMPLEFS_XATTR_ENTRY_SIZE (length n)) xs)"
    by (rule Cons.IH) (use Cons.prems in \<open>simp add: x\<close>)
  then show ?case by (simp add: x)
qed simp

lemma xattr_space_append: "xattr_space (xs @ [(n, v)]) = xattr_space xs + SIMPLEFS_XATTR_ENTRY_SIZE (length n) + length v"
  by (simp add: xattr_space_def)

section \<open>Building a block\<close>

definition building :: "xbuild \<Rightarrow> (u8 list \<times> u8 list) list \<Rightarrow> bool" where
  "building t xs \<longleftrightarrow> (case t of (tmp, e, lo) \<Rightarrow> h_magic tmp = SIMPLEFS_XATTR_MAGIC \<and> h_count tmp = of_nat (length xs) \<and>
     encodes tmp 8 xs e lo \<and> e \<le> lo \<and> lo \<le> 4096 \<and> xattr_space xs + 8 + lo = 4096 + e)"

lemma building_empty: "building (empty_xattrs, 8, 4096) []"
  by (simp add: building_def empty_xattrs_def h_magic_def h_count_def xattr_space_def mem_simps)

lemma upd_get:
  "p < q \<or> q + 4 \<le> p \<Longrightarrow> get32 (b(p := x)) q = get32 b q"
  by (rule get32_cong) auto

lemma add_entry_building:
  assumes "building t xs" "length name \<le> 255"
  shows "case add_entry name v t of
      None \<Rightarrow> 4096 < 8 + xattr_space (xs @ [(name, v)])
    | Some t' \<Rightarrow> building t' (xs @ [(name, v)])"
proof -
  obtain tmp e lo where t: "t = (tmp, e, lo)" by (metis prod_cases3)
  note b = assms(1) [unfolded building_def t prod.case]
  define es where "es = SIMPLEFS_XATTR_ENTRY_SIZE (length name)"
  have es: "8 + length name \<le> es" unfolding es_def by (rule entry_size_bounds)
  have e8: "8 \<le> e" using encodes_le [of tmp 8 xs e lo] b by simp
  show ?thesis
  proof (cases "length v > lo \<or> e + es > lo - length v")
    case True
    then have "add_entry name v t = None" by (simp add: add_entry_def t es_def)
    moreover have "4096 < 8 + xattr_space (xs @ [(name, v)])"
      using True b by (auto simp: xattr_space_append es_def [symmetric])
    ultimately show ?thesis by simp
  next
    case False
    define vs where "vs = lo - length v"
    have vs: "vs + length v = lo" "e + es \<le> vs" using False by (auto simp: vs_def)
    define t1 where "t1 = put16 (of_nat vs) (put32 (of_nat (length v)) (tmp(e := of_nat (length name), e + 1 := 0)) (e + 4)) (e + 2)"
    define t2 where "t2 = store_bytes v (store_bytes name t1 (e + 8)) vs"
    define r where "r = put32 (get32 t2 4 + 1) t2 4"
    have add: "add_entry name v t = Some (r, e + es, vs)"
      using False by (simp add: add_entry_def t es_def [symmetric] Let_def r_def t2_def t1_def vs_def)
    have cnt: "get32 t2 4 = of_nat (length xs)" "get32 t2 0 = SIMPLEFS_XATTR_MAGIC"
      using b e8 vs es by (simp_all add: t2_def t1_def store_bytes_get mem_simps upd_get h_count_def h_magic_def)
    have hd: "h_magic r = SIMPLEFS_XATTR_MAGIC" "h_count r = of_nat (Suc (length xs))"
      using cnt by (simp_all add: r_def h_magic_def h_count_def mem_simps)
    have old: "r k = tmp k" if "8 \<le> k \<and> k < e \<or> lo \<le> k" for k
      using that vs es e8 by (auto simp: r_def t2_def t1_def put32_frame put16_frame store_bytes_other)
    have enc: "encodes r 8 xs e vs"
      by (rule encodes_cong [of tmp 8 xs e lo]) (use b old vs in auto)
    have nl: "e_name_len r e = length name" unfolding e_name_len_def
      using e8 es vs assms(2) by (simp add: r_def t2_def t1_def put32_frame put16_frame store_bytes_other unat_of_nat take_bit_nat_eq_self)
    have "bytes_at r (e + 8) (length name) = bytes_at (store_bytes name t1 (e + 8)) (e + 8) (length name)"
      by (rule bytes_at_cong) (use e8 es vs in \<open>simp add: r_def t2_def put32_frame store_bytes_other\<close>)
    then have nm: "e_name r e = name" by (simp add: e_name_def nl)
    have sz: "e_value_size r e = length v" unfolding e_value_size_def
      using e8 es vs b by (simp add: r_def t2_def t1_def mem_simps store_bytes_get unat_of_nat_u32)
    have off: "e_value_offs r e = vs" unfolding e_value_offs_def
      using e8 es vs b by (simp add: r_def t2_def t1_def mem_simps store_bytes_get unat_of_nat take_bit_nat_eq_self)
    have "bytes_at r vs (length v) = bytes_at t2 vs (length v)"
      by (rule bytes_at_cong) (use e8 vs es in \<open>simp add: r_def put32_frame\<close>)
    then have val: "e_value r e = v" by (simp add: e_value_def sz off t2_def)
    have "encodes r 8 (xs @ [(name, v)]) (e + es) vs"
      unfolding encodes_append using enc nm val off vs b by (auto simp: es_def)
    then show ?thesis
      using add hd b vs by (simp add: building_def xattr_space_append es_def [symmetric])
  qed
qed

section \<open>Validation accepts what encodes attributes\<close>

definition valid_xattrs :: "block \<Rightarrow> bool" where
  "valid_xattrs b \<longleftrightarrow> simplefs_xattr_validate b = None"

lemma e_name_len_less: "e_name_len b p \<le> 255"
proof -
  have "unat (b p) < 2 ^ 8" by (rule order_less_le_trans [OF unsigned_less]) simp
  then show ?thesis by (simp add: e_name_len_def)
qed

lemma validate_encodes:
  "validate_entries b n p lo = Some (e, lo') \<Longrightarrow> encodes b p (walk_entries b n p) e lo' \<and> lo' \<le> lo"
proof (induction n arbitrary: p lo)
  case (Suc n)
  let ?q = "next_entry b p"
  have v: "validate_entries b n ?q (min lo (e_value_offs b p)) = Some (e, lo')"
    and o: "e_value_offs b p \<le> 4096" "e_value_size b p \<le> 4096 - e_value_offs b p"
    using Suc.prems by (auto simp: next_entry_def Let_def split: if_splits)
  from Suc.IH [OF v] show ?case using o by (auto simp: next_entry_def)
qed simp

lemma encodes_validate:
  assumes "encodes b p xs e lo" "e \<le> 4096" "lo \<le> hi"
  shows "\<exists>lo'. validate_entries b (length xs) p hi = Some (e, lo') \<and> lo \<le> lo'"
  using assms(1,3)
proof (induction xs arbitrary: p hi)
  case (Cons x xs)
  obtain n v where x: "x = (n, v)" by fastforce
  note h = Cons.prems(1) [unfolded x encodes.simps]
  let ?es = "SIMPLEFS_XATTR_ENTRY_SIZE (length n)"
  have le: "p + ?es \<le> e" using encodes_le h by (meson add_leE)
  have es: "8 \<le> ?es" using entry_size_bounds(1) [of "length n"] by simp
  have len: "e_name_len b p = length n" "e_value_size b p = length v" using h by auto
  have "\<exists>lo'. validate_entries b (length xs) (p + ?es) (min hi (e_value_offs b p)) = Some (e, lo') \<and> lo \<le> lo'"
    by (rule Cons.IH) (use h Cons.prems(2) in auto)
  moreover have "\<not> 4096 - 8 < p" "\<not> 4096 - p < ?es" "\<not> (4096 < e_value_offs b p \<or> 4096 - e_value_offs b p < length v)"
    using h le es assms(2) by auto
  ultimately show ?case unfolding x list.size validate_entries.simps add_0_right add_Suc_right Let_def len by simp
qed simp

lemma valid_encodes:
  assumes "valid_xattrs b"
  obtains e lo where "encodes b 8 (xattrs b) e lo" "e \<le> lo" "lo \<le> 4096"
  using assms validate_encodes [of b "unat (h_count b)" 8 4096]
  by (auto simp: valid_xattrs_def simplefs_xattr_validate_def xattrs_def split: if_splits option.splits prod.splits)

lemma building_valid:
  assumes "building (b, e, lo) xs"
  shows "valid_xattrs b" "xattrs b = xs"
proof -
  note h = assms [unfolded building_def prod.case]
  have n: "8 + 8 * length xs \<le> e" using encodes_le h by blast
  then have c: "unat (h_count b) = length xs" using h by (simp add: unat_of_nat_u32)
  have "walk_entries b (length xs) 8 = xs" using encodes_walk h by blast
  then show "xattrs b = xs" by (simp add: xattrs_def c)
  obtain lo' where "validate_entries b (length xs) 8 4096 = Some (e, lo')" "lo \<le> lo'"
    using encodes_validate [of b 8 xs e lo 4096] h by auto
  then show "valid_xattrs b" using h n unfolding valid_xattrs_def simplefs_xattr_validate_def c by simp
qed

section \<open>Searching and copying as list functions\<close>

lemma find_entry_map:
  "map_option (e_value b) (find_entry b name n p) = map_of (walk_entries b n p) name"
  by (induction n arbitrary: p) auto

fun last_match :: "'k \<Rightarrow> nat \<Rightarrow> ('k \<times> 'v) list \<Rightarrow> nat option \<Rightarrow> nat option" where
  "last_match k j [] f = f"
| "last_match k j (x # xs) f = last_match k (Suc j) xs (if fst x = k then Some j else f)"

fun without :: "nat option \<Rightarrow> nat \<Rightarrow> 'a list \<Rightarrow> 'a list" where
  "without f j [] = []"
| "without f j (x # xs) = (if f = Some j then without f (Suc j) xs else x # without f (Suc j) xs)"

lemma scan_entries_list: "scan_entries b name n i p f = last_match name i (walk_entries b n p) f"
  by (induction n arbitrary: i p f) auto

lemma last_match_absent: "k \<notin> fst ` set xs \<Longrightarrow> last_match k j xs f = f"
  by (induction xs arbitrary: j f) auto

lemma last_match_found: "k \<in> fst ` set xs \<Longrightarrow> last_match k j xs f \<noteq> None"
proof (induction xs arbitrary: j f)
  case (Cons x xs)
  then show ?case by (cases "k \<in> fst ` set xs") (auto simp: last_match_absent)
qed simp

lemma without_other: "(\<And>i. f = Some i \<Longrightarrow> i < j) \<Longrightarrow> without f j xs = xs"
  by (induction xs arbitrary: j) (auto simp: less_Suc_eq)

lemma last_match_range: "last_match k j xs f = Some i \<Longrightarrow> f = Some i \<or> j \<le> i"
  by (induction xs arbitrary: j f) (auto split: if_splits dest!: Suc_leD)

lemma without_last_match:
  "distinct (map fst xs) \<Longrightarrow> (\<And>i. f = Some i \<Longrightarrow> i < j) \<Longrightarrow>
   without (last_match k j xs f) j xs = filter (\<lambda>x. fst x \<noteq> k) xs"
proof (induction xs arbitrary: j f)
  case (Cons x xs)
  have d: "distinct (map fst xs)" "fst x \<notin> fst ` set xs" using Cons.prems(1) by auto
  show ?case
  proof (cases "fst x = k")
    case True
    then have "filter (\<lambda>x. fst x \<noteq> k) xs = xs" using d(2) by (intro filter_True) (metis imageI)
    then show ?thesis using True d(2) without_other [of "Some j" "Suc j" xs] by (simp add: last_match_absent)
  next
    case False
    have "last_match k (Suc j) xs f \<noteq> Some j"
      using last_match_range [of k "Suc j" xs f j] Cons.prems(2) by auto
    moreover have "without (last_match k (Suc j) xs f) (Suc j) xs = filter (\<lambda>x. fst x \<noteq> k) xs"
      by (rule Cons.IH [OF d(1)]) (use Cons.prems(2) in auto)
    ultimately show ?thesis using False by simp
  qed
qed simp

lemma xattr_space_mono: "xattr_space xs \<le> xattr_space (xs @ ys)"
  by (simp add: xattr_space_def)

lemma copy_entries_building:
  "building t ys \<Longrightarrow> (case copy_entries b f n j p t of
      None \<Rightarrow> 4096 < 8 + xattr_space (ys @ without f j (walk_entries b n p))
    | Some t' \<Rightarrow> building t' (ys @ without f j (walk_entries b n p)))"
proof (induction n arbitrary: j p t ys)
  case (Suc n)
  show ?case
  proof (cases "f = Some j")
    case True
    show ?thesis
      unfolding copy_entries.simps walk_entries.simps without.simps if_P [OF True] by (rule Suc.IH [OF Suc.prems])
  next
    case False
    let ?x = "(e_name b p, e_value b p)"
    note a = add_entry_building [OF Suc.prems, of "e_name b p" "e_value b p"]
    show ?thesis
    proof (cases "add_entry (e_name b p) (e_value b p) t")
      case None
      then show ?thesis
        using a False xattr_space_mono [of "ys @ [?x]" "without f (Suc j) (walk_entries b n (next_entry b p))"]
        by (simp add: e_name_len_less)
    next
      case (Some t')
      then have "building t' (ys @ [?x])" using a by (simp add: e_name_len_less)
      from Suc.IH [OF this, of "Suc j" "next_entry b p"] show ?thesis
        unfolding copy_entries.simps walk_entries.simps without.simps if_not_P [OF False] Some option.case append_assoc append_Cons append_Nil .
    qed
  qed
qed simp

text \<open>
  The attributes after a change, and the rebuild against them: it fails exactly when they do not fit,
  and otherwise gives a valid block that holds them.
\<close>

definition changed_xattrs :: "u8 list \<Rightarrow> u8 list option \<Rightarrow> (u8 list \<times> u8 list) list \<Rightarrow> (u8 list \<times> u8 list) list" where
  "changed_xattrs name v xs = filter (\<lambda>x. fst x \<noteq> name) xs @ (case v of None \<Rightarrow> [] | Some v \<Rightarrow> [(name, v)])"

lemma rebuild_correct:
  assumes "distinct (map fst (xattrs b))" "length name \<le> 255"
  shows "case rebuild_xattrs b (scan_entries b name (unat (h_count b)) 0 8 None) name v of
      None \<Rightarrow> 4096 < 8 + xattr_space (changed_xattrs name v (xattrs b))
    | Some c \<Rightarrow> valid_xattrs c \<and> xattrs c = changed_xattrs name v (xattrs b) \<and>
        8 + xattr_space (changed_xattrs name v (xattrs b)) \<le> 4096"
proof -
  let ?f = "scan_entries b name (unat (h_count b)) 0 8 None"
  let ?ys = "filter (\<lambda>x. fst x \<noteq> name) (xattrs b)"
  have fit: "8 + xattr_space zs \<le> 4096" if "building (c, e, lo) zs" for c e lo zs
    using that by (simp add: building_def)
  have w: "without ?f 0 (walk_entries b (unat (h_count b)) 8) = ?ys"
    unfolding scan_entries_list xattrs_def by (rule without_last_match) (use assms(1) in \<open>simp_all add: xattrs_def\<close>)
  have c: "case copy_entries b ?f (unat (h_count b)) 0 8 (empty_xattrs, 8, 4096) of
      None \<Rightarrow> 4096 < 8 + xattr_space ([] @ ?ys) | Some t \<Rightarrow> building t ([] @ ?ys)"
    unfolding w [symmetric]
    using copy_entries_building [OF building_empty, where b = b and f = ?f and n = "unat (h_count b)" and j = 0 and p = 8] .
  show ?thesis
  proof (cases "copy_entries b ?f (unat (h_count b)) 0 8 (empty_xattrs, 8, 4096)")
    case None
    then show ?thesis using c xattr_space_mono [of ?ys "case v of None \<Rightarrow> [] | Some v \<Rightarrow> [(name, v)]"]
      by (simp add: rebuild_xattrs_def changed_xattrs_def)
  next
    case (Some t)
    then have t: "building t ?ys" using c by simp
    obtain b1 e1 lo1 where t1: "t = (b1, e1, lo1)" by (metis prod_cases3)
    show ?thesis
    proof (cases v)
      case None
      then show ?thesis
        using Some t building_valid [of b1 e1 lo1 ?ys] fit [of b1 e1 lo1 ?ys]
        by (simp add: rebuild_xattrs_def changed_xattrs_def t1)
    next
      case (Some v')
      note a = add_entry_building [OF t assms(2), of v']
      then show ?thesis
        using Some \<open>copy_entries b ?f _ 0 8 _ = Some t\<close> building_valid fit
        by (auto simp: rebuild_xattrs_def changed_xattrs_def split: option.splits)
    qed
  qed
qed

section \<open>The attributes of an inode\<close>

definition xattrs_of :: "kst \<Rightarrow> u32 \<Rightarrow> (u8 list \<times> u8 list) list" where
  "xattrs_of s ino = (if i_xattr_block (inodes s ino) = 0 then [] else xattrs (cache s (i_xattr_block (inodes s ino))))"

definition xattr_ok :: "kst \<Rightarrow> u32 \<Rightarrow> bool" where
  "xattr_ok s ino \<longleftrightarrow> (let blk = i_xattr_block (inodes s ino) in
     meta_ok (sbi s) (if blk = 0 then [] else [blk]) \<and> distinct (map fst (xattrs_of s ino)) \<and>
     (blk \<noteq> 0 \<longrightarrow> valid_xattrs (cache s blk)))"

text \<open>
  From \<open>s\<close> to \<open>s'\<close> only the attributes of \<open>ino\<close> changed, and now are \<open>xs\<close>.
\<close>

definition xattr_step :: "u32 \<Rightarrow> (u8 list \<times> u8 list) list \<Rightarrow> kst \<Rightarrow> kst \<Rightarrow> bool" where
  "xattr_step ino xs s s' \<longleftrightarrow> uframe s s' \<and> xattr_ok s' ino \<and> xattrs_of s' ino = xs \<and>
     (i_xattr_block (inodes s ino) \<noteq> 0 \<longrightarrow> i_xattr_block (inodes s' ino) = i_xattr_block (inodes s ino)) \<and>
     (\<forall>m. m \<noteq> ino \<longrightarrow> inodes s' m = inodes s m) \<and>
     (\<forall>n. root_dir_block (sbi s) \<le> n \<longrightarrow> n \<noteq> i_xattr_block (inodes s' ino) \<longrightarrow> cache s' n = cache s n)"

lemma changed_distinct: "distinct (map fst xs) \<Longrightarrow> distinct (map fst (changed_xattrs name v xs))"
  by (auto simp: changed_xattrs_def distinct_map_filter split: option.split)

lemma empty_xattrs_valid: "valid_xattrs empty_xattrs" "xattrs empty_xattrs = []"
  using building_valid [OF building_empty] by auto

lemma put_meta:
  assumes "meta_ok sb []" "unat (root_dir_block sb) < unat bno" "puttable sb bno 1"
  shows "meta_ok (give_sb sb (unat bno) 1) []"
  using assms by (auto simp: meta_ok_def give_sb_def geom_ok_def root_dir_block_def bm_set_def)

lemma shrunk_meta:
  assumes "shrunk sb sb'"
  shows "meta_ok sb' bs = meta_ok sb bs"
proof -
  obtain p where "sb' = sb\<lparr>discard_pending := p\<rparr>" using assms by (auto simp: shrunk_def)
  then show ?thesis by (simp add: meta_ok_def geom_ok_def root_dir_block_def)
qed

lemma xattr_step_same:
  assumes "xattr_ok s ino" "uframe s s'" "meta_ok (sbi s') (if i_xattr_block (inodes s ino) = 0 then [] else [i_xattr_block (inodes s ino)])"
    "inodes s' = inodes s" "\<And>n. root_dir_block (sbi s) \<le> n \<Longrightarrow> cache s' n = cache s n"
  shows "xattr_step ino (xattrs_of s ino) s s'"
proof -
  have "cache s' (i_xattr_block (inodes s ino)) = cache s (i_xattr_block (inodes s ino))" if "i_xattr_block (inodes s ino) \<noteq> 0"
    using assms(1,5) that by (simp add: xattr_ok_def meta_ok_def Let_def)
  then show ?thesis using assms
    by (cases "i_xattr_block (inodes s ino) = 0") (simp_all add: xattr_step_def xattr_ok_def xattrs_of_def Let_def)
qed

lemma uframe_root: "uframe s s' \<Longrightarrow> root_dir_block (sbi s') = root_dir_block (sbi s)"
  unfolding uframe_def grows_def by (blast intro: geometry_root)

lemma xattr_step_trans:
  assumes "xattr_step ino xs s t" "xattr_step ino ys t u" "i_xattr_block (inodes t ino) \<noteq> 0"
  shows "xattr_step ino ys s u"
  using assms uframe_root [of s t] by (auto simp: xattr_step_def intro: uframe_trans)

lemma get_image_wp:
  assumes "\<And>e s'. sframe s s' \<Longrightarrow> grows s s' \<Longrightarrow> cache s' = cache s \<Longrightarrow> Q (Inl e) s'"
    and "\<And>s'. sframe s s' \<Longrightarrow> grows s s' \<Longrightarrow> cache s' = cache s \<Longrightarrow> Q (Inr (cache s n)) s'"
  shows "wp (simplefs_get_folio E n) Q s"
proof (rule wp_mono [OF wp_keeps [OF keeps_grows [OF get_folio_oframe]
      wp_keeps [OF keeps_sframe [OF get_folio_leaf get_folio_jframe] get_folio_spec]]], elim conjE)
  fix r :: "errno + block" and s'
  assume "grows s s'" "sframe s s'" "cache s' = cache s" "\<forall>b. r = Inr b \<longrightarrow> b = cache s n"
  then show "Q r s'" using assms by (cases r) auto
qed

lemma block_for_set_wp:
  assumes ok: "xattr_ok s ino" and h: "handle_ok s"
    and err: "\<And>e s'. xattr_step ino (xattrs_of s ino) s s' \<Longrightarrow> Q (Inl e) s'"
    and good: "\<And>s'. xattr_step ino (xattrs_of s ino) s s' \<Longrightarrow> i_xattr_block (inodes s' ino) \<noteq> 0 \<Longrightarrow>
      Q (Inr (cache s' (i_xattr_block (inodes s' ino)))) s'"
  shows "wp (xattr_block_for_set E ino) Q s"
proof (cases "i_xattr_block (inodes s ino) = 0")
  case blk: False
  have m: "meta_ok (sbi s) [i_xattr_block (inodes s ino)]" "valid_xattrs (cache s (i_xattr_block (inodes s ino)))"
    using ok blk by (simp_all add: xattr_ok_def Let_def)
  have st: "xattr_step ino (xattrs_of s ino) s s'" if "sframe s s'" "grows s s'" "cache s' = cache s" for s'
    by (rule xattr_step_same [OF ok]) (use that m blk sframe_fields [OF that(1)] in \<open>simp_all add: sframe_uframe\<close>)
  show ?thesis
    unfolding xattr_block_for_set_def wp_bind wp_gets if_not_P [OF blk]
  proof (rule get_image_wp)
    fix s' assume s': "sframe s s'" "grows s s'" "cache s' = cache s"
    then have "i_xattr_block (inodes s' ino) = i_xattr_block (inodes s ino)" using sframe_fields by simp
    then show "wp (ret (case Inr (cache s (i_xattr_block (inodes s ino))) of Inl e \<Rightarrow> Inl e
        | Inr b \<Rightarrow> if simplefs_xattr_validate b \<noteq> None then Inl EUCLEAN else Inr b)) Q s'"
      using good [OF st [OF s']] m(2) blk s'(3) by (simp add: wp_return valid_xattrs_def)
  qed (simp add: wp_return err st)
next
  case blk: True
  have m: "meta_ok (sbi s) []" and xs: "xattrs_of s ino = []" using ok blk by (simp_all add: xattr_ok_def Let_def xattrs_of_def)
  then have b0: "\<not> bfree_bitmap (sbi s) 0" by (simp add: meta_ok_def)
  have none: "xattr_step ino (xattrs_of s ino) s s'" if "uframe s s'" "meta_ok (sbi s') []" "inodes s' = inodes s" "oframe s s'" for s'
    by (rule xattr_step_same [OF ok]) (use that m blk in \<open>auto simp: meta_ok_def oframe_cache\<close>)
  show ?thesis
    unfolding xattr_block_for_set_def wp_bind wp_gets if_P [OF blk]
  proof (rule get_free_blocks_wp [OF b0])
    fix bno s1
    assume s1: "aframe s s1" "oframe s s1" "took s 1 bno s1"
    note tm = took_meta [OF s1(3) m]
    have u1: "uframe s s1" "inodes s1 = inodes s" using s1 by (simp_all add: aframe_uframe oframe_grows aframe_def)
    show "wp (if bno = 0 then ret (Inl ENOSPC) else do {
         data \<leftarrow> simplefs_get_folio E bno;
         (case data of Inl e \<Rightarrow> do { put_blocks E bno 1; ret (Inl e) }
          | Inr b \<Rightarrow> do { set_cache bno empty_xattrs; upd_inode ino (\<lambda>i. i\<lparr>i_xattr_block := bno\<rparr>);
              upd_inode ino (\<lambda>i. i\<lparr>i_blocks := i_blocks i + simplefs_blocks_to_sectors 1\<rparr>);
              note_call (Mark_inode_dirty ino); ret (Inr empty_xattrs) }) }) Q s1"
    proof (cases "bno = 0")
      case True
      then show ?thesis using err [OF none [OF u1(1) _ u1(2) s1(2)]] tm(1) by (simp add: wp_return)
    next
      case False
      have m1: "meta_ok (sbi s1) [bno]" using tm(1) False by simp
      then have m0: "meta_ok (sbi s1) []" by (simp add: meta_ok_def)
      have root: "root_dir_block (sbi s1) = root_dir_block (sbi s)" by (rule uframe_root [OF u1(1)])
      have gt: "unat (root_dir_block (sbi s1)) < unat bno"
        using tm(3) [OF False] m root by (auto simp: meta_ok_def free_blocks_def not_le [symmetric])
      show ?thesis
        unfolding if_not_P [OF False] wp_bind
      proof (rule get_image_wp)
        fix e s2 assume s2: "sframe s1 s2" "grows s1 s2" "cache s2 = cache s1"
        have sb2: "sbi s2 = sbi s1" "inodes s2 = inodes s1" using sframe_fields [OF s2(1)] by auto
        have o2: "oframe s1 s2" using s2 by (simp add: oframe_def grows_def)
        have "wp (put_blocks E bno 1) (\<lambda>_ s3. xattr_step ino (xattrs_of s ino) s s3) s2"
        proof (rule put_blocks_wp, rule none)
          fix s3 assume s3: "aframe s2 s3" "oframe s2 s3" "shrunk (gave E s2 bno 1) (sbi s3)"
          have u2: "uframe s s2" using uframe_trans [OF u1(1) sframe_uframe [OF s2(1,2)]] .
          show "uframe s s3" by (rule uframe_trans [OF u2 aframe_uframe [OF s3(1) oframe_grows [OF s3(2)]]])
          show "inodes s3 = inodes s" using s3(1) sb2(2) u1(2) by (simp add: aframe_def)
          show "oframe s s3" by (rule oframe_trans [OF oframe_trans [OF s1(2) o2] s3(2)])
          show "meta_ok (sbi s3) []"
            unfolding shrunk_meta [OF s3(3)] gave_def sb2 using put_meta [OF m0 gt] m0 by simp
        qed
        then show "wp (case Inl e of Inl e \<Rightarrow> do { put_blocks E bno 1; ret (Inl e) }
          | Inr b \<Rightarrow> do { set_cache bno empty_xattrs; upd_inode ino (\<lambda>i. i\<lparr>i_xattr_block := bno\<rparr>);
              upd_inode ino (\<lambda>i. i\<lparr>i_blocks := i_blocks i + simplefs_blocks_to_sectors 1\<rparr>);
              note_call (Mark_inode_dirty ino); ret (Inr empty_xattrs) }) Q s2"
          unfolding sum.case wp_bind by (rule wp_mono) (simp add: wp_return err)
      next
        fix s2 assume s2: "sframe s1 s2" "grows s1 s2" "cache s2 = cache s1"
        have sb2: "sbi s2 = sbi s1" "inodes s2 = inodes s1" using sframe_fields [OF s2(1)] by auto
        define s3 where "s3 = s2\<lparr>cache := (cache s2)(bno := empty_xattrs), inodes := (inodes s2)(ino := (inodes s2 ino)
          \<lparr>i_xattr_block := bno, i_blocks := i_blocks (inodes s2 ino) + simplefs_blocks_to_sectors 1\<rparr>),
          trace := (Mark_inode_dirty ino, None) # trace s2\<rparr>"
        have "uframe s2 s3" by (simp add: s3_def uframe_def grows_def suffix_ConsI)
        then have u3: "uframe s s3" using uframe_trans [OF uframe_trans [OF u1(1) sframe_uframe [OF s2(1,2)]]] by blast
        have c: "cache s2 n = cache s n" if "root_dir_block (sbi s) \<le> n" for n
          using oframe_cache [OF s1(2) _ that] m s2(3) by (simp add: meta_ok_def)
        have "xattr_step ino (xattrs_of s ino) s s3"
          unfolding xs xattr_step_def using u3 u1(2) c m1 False sb2 blk
          by (simp add: s3_def xattr_ok_def xattrs_of_def empty_xattrs_valid)
        from good [OF this] show "wp (case Inr (cache s1 bno) of Inl e \<Rightarrow> do { put_blocks E bno 1; ret (Inl e) }
          | Inr b \<Rightarrow> do { set_cache bno empty_xattrs; upd_inode ino (\<lambda>i. i\<lparr>i_xattr_block := bno\<rparr>);
              upd_inode ino (\<lambda>i. i\<lparr>i_blocks := i_blocks i + simplefs_blocks_to_sectors 1\<rparr>);
              note_call (Mark_inode_dirty ino); ret (Inr empty_xattrs) }) Q s2"
          using False by (simp add: wp_simps s3_def)
      qed
    qed
  qed
qed

lemma xattr_update_wp:
  fixes ino name v flags and s :: kst
  defines "xs \<equiv> xattrs_of s ino" and "ys \<equiv> changed_xattrs name v (xattrs_of s ino)"
  assumes ok: "xattr_ok s ino" and h: "handle_ok s" and blk: "i_xattr_block (inodes s ino) \<noteq> 0" and len: "length name \<le> 255"
    and err: "\<And>e s'. xattr_step ino xs s s' \<Longrightarrow> Q (Some e) s'"
    and dirty: "\<And>e s'. xattr_step ino ys s s' \<Longrightarrow> has_jbd2 (s_journal s) \<Longrightarrow> Q (Some e) s'"
    and good: "\<And>s'. xattr_step ino ys s s' \<Longrightarrow> (XATTR_CREATE flags \<longrightarrow> name \<notin> fst ` set xs) \<Longrightarrow>
      (XATTR_REPLACE flags \<longrightarrow> name \<in> fst ` set xs) \<Longrightarrow> 8 + xattr_space ys \<le> 4096 \<Longrightarrow> Q None s'"
  shows "wp (xattr_update E ino name v flags (cache s (i_xattr_block (inodes s ino)))) Q s"
proof -
  define b where "b = cache s (i_xattr_block (inodes s ino))"
  define f where "f = scan_entries b name (unat (h_count b)) 0 8 None"
  have xb: "xs = xattrs b" using blk by (simp add: xs_def xattrs_of_def b_def)
  have m: "meta_ok (sbi s) [i_xattr_block (inodes s ino)]" "distinct (map fst xs)"
    using ok blk by (simp_all add: xattr_ok_def Let_def xs_def)
  have found: "f \<noteq> None \<longleftrightarrow> name \<in> fst ` set xs"
    unfolding f_def scan_entries_list xb xattrs_def using last_match_found last_match_absent by metis
  have same: "xattr_step ino xs s s'" if "uframe s s'" "same_disk s s'" for s'
    unfolding xs_def by (rule xattr_step_same [OF ok that(1)]) (use that(2) m(1) blk in \<open>simp_all add: same_disk_def\<close>)
  have trace: "uframe s (s\<lparr>trace := (c, r) # trace s\<rparr>)" "same_disk s (s\<lparr>trace := (c, r) # trace s\<rparr>)" for c r
    by (simp_all add: uframe_def grows_def same_disk_def suffix_ConsI)
  note rb = rebuild_correct [OF m(2) [unfolded xb] len, of v, folded f_def xb]
  have fin: "wp (do { set_cache (i_xattr_block (inodes s ino)) c;
      r \<leftarrow> simplefs_journal_dirty_folio E (i_xattr_block (inodes s ino)) (i_xattr_block (inodes s ino));
      if r \<noteq> None then ret r else do { _ \<leftarrow> inode_set_ctime_current E ino; note_call (Mark_inode_dirty ino); ret None } }) Q s1"
    if c: "valid_xattrs c" "xattrs c = ys" "8 + xattr_space ys \<le> 4096" and s1: "uframe s s1" "same_disk s s1"
      and fl: "XATTR_CREATE flags \<longrightarrow> name \<notin> fst ` set xs" "XATTR_REPLACE flags \<longrightarrow> name \<in> fst ` set xs" for c s1
  proof -
    let ?n = "i_xattr_block (inodes s ino)"
    have d: "distinct (map fst ys)" unfolding ys_def by (rule changed_distinct) (use m(2) xs_def in simp)
    have st: "xattr_step ino ys s s3" if "uframe s s3" "sbi s3 = sbi s" "\<And>i. i \<noteq> ino \<Longrightarrow> inodes s3 i = inodes s i"
      "i_xattr_block (inodes s3 ino) = ?n" "cache s3 = (cache s)(?n := c)" for s3
      unfolding xattr_step_def xattr_ok_def using that m(1) blk c d by (simp add: xattrs_of_def Let_def)
    define s2 where "s2 = s1\<lparr>cache := (cache s1)(?n := c)\<rparr>"
    have u2: "uframe s1 s2" by (simp add: s2_def uframe_def grows_def)
    have j2: "has_jbd2 (s_journal s2) = has_jbd2 (s_journal s)" using s1(1) h by (simp add: s2_def uframe_def)
    have "wp (simplefs_journal_dirty_folio E ?n ?n) (\<lambda>r s3. sframe s2 s3 \<and> grows s2 s3 \<and> cache s3 = cache s2 \<and>
       (r \<noteq> None \<longrightarrow> has_jbd2 (s_journal s2))) s2"
    proof -
      have "wp (simplefs_journal_dirty_folio E ?n ?n) (\<lambda>r s3. r \<noteq> None \<longrightarrow> has_jbd2 (s_journal s2)) s2"
        by (cases "has_jbd2 (s_journal s2)", rule wpI, simp)
          (auto simp: simplefs_journal_dirty_folio_def simplefs_current_jbd2_handle_def has_jbd2_def wp_simps split: option.splits)
      from wp_keeps [OF keeps_grows [OF dirty_folio_oframe] wp_keeps [OF keeps_sframe [OF dirty_folio_leaf dirty_folio_jframe]
          wp_conj [OF dirty_folio_spec this]]]
      show ?thesis by (rule wp_mono) auto
    qed
    then show ?thesis
      unfolding wp_bind wp_set_cache s2_def [symmetric]
    proof (rule wp_mono, elim conjE)
      fix r :: status and s3
      assume s3: "sframe s2 s3" "grows s2 s3" "cache s3 = cache s2" "r \<noteq> None \<longrightarrow> has_jbd2 (s_journal s2)"
      have u3: "uframe s s3" using uframe_trans [OF uframe_trans [OF s1(1) u2] sframe_uframe [OF s3(1,2)]] .
      have f3: "sbi s3 = sbi s" "inodes s3 = inodes s" "cache s3 = (cache s)(?n := c)"
        using sframe_fields [OF s3(1)] s1(2) s3(3) by (simp_all add: s2_def same_disk_def)
      have tr: "uframe s (s3\<lparr>inodes := i, trace := x # y # z # trace s3\<rparr>)" for i x y z
        using u3 by (auto simp: uframe_def grows_def intro: suffix_ConsI)
      have good3: "wp (do { _ \<leftarrow> inode_set_ctime_current E ino; note_call (Mark_inode_dirty ino); ret None }) Q s3"
        unfolding inode_set_ctime_current_def current_time_def
        by (simp add: wp_simps, rule good [OF st fl c(3)]) (use tr f3 in simp_all)
      show "wp (if r \<noteq> None then ret r else do { _ \<leftarrow> inode_set_ctime_current E ino; note_call (Mark_inode_dirty ino); ret None }) Q s3"
        using dirty [OF st [OF u3]] f3 s3(4) j2 good3 by (cases r) (simp_all add: wp_return)
    qed
  qed
  show ?thesis
    unfolding xattr_update_def b_def [symmetric] f_def [symmetric] Let_def
    using found err [OF same [OF uframe_refl]] err [OF same [OF trace]] rb fin [OF _ _ _ trace]
    by (auto simp: wp_simps same_disk_def ys_def xs_def split: option.splits)
qed

section \<open>A store of named values\<close>

text \<open>
  What the block promises its users: a lookup sees the last change of that name, and a change of one
  name is not seen under another.
\<close>

locale attr_store =
  fixes inv :: "'b \<Rightarrow> bool" and look :: "'b \<Rightarrow> 'k \<Rightarrow> 'v option" and change :: "'b \<Rightarrow> 'k \<Rightarrow> 'v option \<Rightarrow> 'b option"
  assumes change_inv: "inv b \<Longrightarrow> change b k v = Some c \<Longrightarrow> inv c"
    and look_change: "inv b \<Longrightarrow> change b k v = Some c \<Longrightarrow> look c = (look b)(k := v)"
begin

text \<open>Two changes of different names commute as far as lookups go, and a second change of a name wins.\<close>

lemma look_twice:
  "inv b \<Longrightarrow> change b k v = Some c \<Longrightarrow> change c l w = Some d \<Longrightarrow> inv d \<and> look d = (look b)(k := v, l := w)"
  using change_inv look_change by metis

lemma look_commute:
  assumes "inv b" "k \<noteq> l" "change b k v = Some c" "change c l w = Some d" "change b l w = Some c'" "change c' k v = Some d'"
  shows "look d = look d'"
  using look_twice [OF assms(1,3,4)] look_twice [OF assms(1,5,6)] assms(2) by (simp add: fun_upd_twist)

lemma look_undo:
  assumes "inv b" "change b k v = Some c" "change c k (look b k) = Some d"
  shows "look d = look b"
  using look_twice [OF assms] by simp

end

definition xattr_store_ok :: "block \<Rightarrow> bool" where
  "xattr_store_ok b \<longleftrightarrow> valid_xattrs b \<and> distinct (map fst (xattrs b))"

definition xattr_look :: "block \<Rightarrow> u8 list \<Rightarrow> u8 list option" where
  "xattr_look b name = map_option (e_value b) (find_entry b name (unat (h_count b)) 8)"

definition xattr_change :: "block \<Rightarrow> u8 list \<Rightarrow> u8 list option \<Rightarrow> block option" where
  "xattr_change b name v = (if length name > 255 then None
     else rebuild_xattrs b (scan_entries b name (unat (h_count b)) 0 8 None) name v)"

lemma xattr_look_map: "xattr_look b = map_of (xattrs b)"
  by (rule HOL.ext) (simp add: xattr_look_def find_entry_map xattrs_def)

lemma map_of_changed: "map_of (changed_xattrs name v xs) = (map_of xs)(name := v)"
proof -
  have "map_of (filter (\<lambda>x. fst x \<noteq> name) xs) = (map_of xs)(name := None)"
    by (induction xs) (auto simp: fun_eq_iff)
  then show ?thesis by (cases v) (auto simp: changed_xattrs_def map_add_def fun_eq_iff split: option.split)
qed

interpretation xs: attr_store xattr_store_ok xattr_look xattr_change
proof
  fix b k v c
  assume b: "xattr_store_ok b" "xattr_change b k v = Some c"
  then have "length k \<le> 255" by (auto simp: xattr_change_def split: if_splits)
  from rebuild_correct [OF _ this, of b v] b have c: "valid_xattrs c" "xattrs c = changed_xattrs k v (xattrs b)"
    by (auto simp: xattr_store_ok_def xattr_change_def split: if_splits)
  show "xattr_store_ok c" using b c changed_distinct by (simp add: xattr_store_ok_def)
  show "xattr_look c = (xattr_look b)(k := v)" using c by (simp add: xattr_look_map map_of_changed)
qed

section \<open>Properties of the attribute calls\<close>

lemma xattr_same_disk:
  "same_disk s s1 \<Longrightarrow> xattrs_of s1 ino = xattrs_of s ino" "same_disk s s1 \<Longrightarrow> xattr_ok s1 ino = xattr_ok s ino"
  by (simp_all add: same_disk_def xattrs_of_def xattr_ok_def)

lemma xattr_step_bracket:
  assumes "same_disk s s1" "xattr_step ino zs s1 s2" "same_disk s2 s3" "uframe s s3"
  shows "xattr_step ino zs s s3"
  using assms xattr_same_disk [OF assms(3), of ino] by (simp add: xattr_step_def same_disk_def)

definition xattr_set_post :: "kst \<Rightarrow> u32 \<Rightarrow> u8 list \<Rightarrow> u8 list option \<Rightarrow> xattr_flags \<Rightarrow> status \<Rightarrow> kst \<Rightarrow> bool" where
  "xattr_set_post s ino name v flags r s' \<longleftrightarrow> (case r of
     None \<Rightarrow> xattr_step ino (changed_xattrs name v (xattrs_of s ino)) s s' \<and>
       (XATTR_CREATE flags \<longrightarrow> name \<notin> fst ` set (xattrs_of s ino)) \<and>
       (XATTR_REPLACE flags \<longrightarrow> name \<in> fst ` set (xattrs_of s ino)) \<and>
       8 + xattr_space (changed_xattrs name v (xattrs_of s ino)) \<le> 4096
   | Some e \<Rightarrow> xattr_step ino (xattrs_of s ino) s s' \<or>
       has_jbd2 (s_journal s) \<and> xattr_step ino (changed_xattrs name v (xattrs_of s ino)) s s')"

lemma xattr_set_spec:
  assumes ok: "xattr_ok s ino" and h: "handle_ok s"
  shows "wp (simplefs_xattr_set E ino name v flags) (xattr_set_post s ino name v flags) s" (is "wp _ ?Q s")
proof -
  let ?xs = "xattrs_of s ino" and ?ys = "changed_xattrs name v (xattrs_of s ino)"
  have refl: "xattr_step ino ?xs s s"
    by (rule xattr_step_same [OF ok uframe_refl]) (use ok in \<open>simp_all add: xattr_ok_def Let_def\<close>)
  have early: "?Q None s" if "i_xattr_block (inodes s ino) = 0" "v = None" "\<not> XATTR_REPLACE flags"
    using refl that by (simp add: xattr_set_post_def xattrs_of_def changed_xattrs_def xattr_space_def)
  have body: "wp (do { data \<leftarrow> xattr_block_for_set E ino;
      (case data of Inl e \<Rightarrow> ret (Some e) | Inr b \<Rightarrow> xattr_update E ino name v flags b) })
      (\<lambda>r s2. uframe s1 s2 \<and> (\<forall>r' s3. uframe s s3 \<longrightarrow> same_disk s2 s3 \<longrightarrow> grows s2 s3 \<longrightarrow> (r \<noteq> None \<longrightarrow> r' = r) \<longrightarrow>
        (r = None \<longrightarrow> r' = None \<or> has_jbd2 (s_journal s) \<and> (Jbd2_journal_stop, r') \<in> set (trace s3)) \<longrightarrow> ?Q r' s3)) s1"
    if len: "length name \<le> 255" and s1: "handle_ok s1" "grows s s1" "same_disk s s1" for s1
  proof -
    note x1 = xattr_same_disk [OF s1(3), of ino]
    have j1: "has_jbd2 (s_journal s1) = has_jbd2 (s_journal s)"
      using s1(2) by (auto simp: grows_def has_jbd2_def split: option.splits)
    have u: "uframe s1 s2" if "xattr_step ino zs s1 s2" for zs s2 using that by (simp add: xattr_step_def)
    note br = xattr_step_bracket [OF s1(3)]
    show ?thesis
      unfolding wp_bind
    proof (rule block_for_set_wp [OF _ s1(1)], goal_cases)
      case (2 e s2)
      then show ?case using u br x1 by (auto simp: wp_return xattr_set_post_def)
    next
      case (3 s2)
      note st2 = 3(1) [unfolded x1(1)]
      have h2: "handle_ok s2" "has_jbd2 (s_journal s2) = has_jbd2 (s_journal s)" "xattr_ok s2 ino" "xattrs_of s2 ino = ?xs"
        using st2 uframe_handle_ok [OF s1(1)] s1(1) j1 by (auto simp: xattr_step_def uframe_def)
      note b2 = xattr_step_trans [OF st2 _ 3(2)]
      show ?case
        unfolding sum.case
      proof (rule xattr_update_wp [OF h2(3,1) 3(2) len], unfold h2(2,4), goal_cases)
        case (1 e s')
        then show ?case using u [OF b2] br [OF b2] by (auto simp: xattr_set_post_def)
      next
        case (2 e s')
        then show ?case using u [OF b2] br [OF b2] by (auto simp: xattr_set_post_def)
      next
        case (3 s')
        note st3 = b2 [OF 3(1)]
        have "?Q r' s3" if "uframe s s3" "same_disk s' s3" "r' = None \<or> has_jbd2 (s_journal s)" for r' s3
          using br [OF st3 that(2,1)] that(3) 3(2-4) by (cases r') (auto simp: xattr_set_post_def)
        then show ?case using u [OF st3] by auto
      qed
    qed (simp add: x1 ok)
  qed
  have err: "?Q (Some e) s1" if "uframe s s1" "same_disk s s1" for e s1
    using xattr_step_bracket [OF _ refl that(2,1)] by (simp add: xattr_set_post_def same_disk_def)
  have "wp (with_handle E 3 (do { data \<leftarrow> xattr_block_for_set E ino;
      (case data of Inl e \<Rightarrow> ret (Some e) | Inr b \<Rightarrow> xattr_update E ino name v flags b) })) ?Q s" if "length name \<le> 255"
    by (rule with_handle_wp [OF h err body [OF that]])
  then show ?thesis
    unfolding simplefs_xattr_set_def
    using early err [OF uframe_refl] by (auto simp: wp_bind wp_gets wp_if wp_return same_disk_def)
qed

text \<open>
  C9. \<open>simplefs_xattr_set\<close> changes one name in a map. Whatever the kernel does, the attributes of the inode
  stay a valid block with distinct names, no other inode changes and no other block from
  \<open>root_dir_block\<close> on; on success the map from names to values is the old one with this name set to the
  value or removed, the flags allowed it and everything fits the block. On an error the map is as before,
  or, when the refusal came from JBD2 after the rebuild, it is the changed one.
\<close>
theorem xattr_set_correct:
  assumes "xattr_ok s ino" "handle_ok s"
    and "run_state (simplefs_xattr_set E ino name v flags) s = (r, s')"
  shows "xattr_ok s' ino \<and> (\<forall>m. m \<noteq> ino \<longrightarrow> inodes s' m = inodes s m) \<and>
    (\<forall>n. root_dir_block (sbi s) \<le> n \<longrightarrow> n \<noteq> i_xattr_block (inodes s' ino) \<longrightarrow> cache s' n = cache s n) \<and>
    (case r of
       None \<Rightarrow> map_of (xattrs_of s' ino) = (map_of (xattrs_of s ino))(name := v) \<and>
         (XATTR_CREATE flags \<longrightarrow> map_of (xattrs_of s ino) name = None) \<and>
         (XATTR_REPLACE flags \<longrightarrow> map_of (xattrs_of s ino) name \<noteq> None) \<and>
         8 + xattr_space (xattrs_of s' ino) \<le> 4096
     | Some e \<Rightarrow> xattrs_of s' ino = xattrs_of s ino \<or>
         has_jbd2 (s_journal s) \<and> map_of (xattrs_of s' ino) = (map_of (xattrs_of s ino))(name := v))"
  using wp_run [OF xattr_set_spec [OF assms(1,2)] assms(3)]
  by (cases r) (auto simp: xattr_set_post_def xattr_step_def map_of_changed map_of_eq_None_iff)

lemma xattr_ok_kst0: "xattr_ok kst0 1"
  by (simp add: xattr_ok_def xattrs_of_def demo_simps meta_ok_def geom_ok_def root_dir_block_def)

theorem xattr_set_correct_witness:
  "case run_state (simplefs_xattr_set env_ok 1 [117, 46, 97] (Some [1, 2, 3]) \<lparr>XATTR_CREATE = True, XATTR_REPLACE = False\<rparr>) kst0 of
     (r, s') \<Rightarrow> xattr_ok s' 1 \<and> (case r of
         None \<Rightarrow> map_of (xattrs_of s' 1) [117, 46, 97] = Some [1, 2, 3]
       | Some e \<Rightarrow> xattrs_of s' 1 = [])"
proof -
  let ?fl = "\<lparr>XATTR_CREATE = True, XATTR_REPLACE = False\<rparr>"
  obtain r s' where run: "run_state (simplefs_xattr_set env_ok 1 [117, 46, 97] (Some [1, 2, 3]) ?fl) kst0 = (r, s')"
    by fastforce
  have h: "handle_ok kst0" "\<not> has_jbd2 (s_journal kst0)" "xattrs_of kst0 1 = []"
    by (simp_all add: handle_ok_def has_jbd2_def xattrs_of_def demo_simps)
  show ?thesis using xattr_set_correct [OF xattr_ok_kst0 h(1) run] h(2,3) run by (cases r) auto
qed

definition xattr_got :: "env \<Rightarrow> kst \<Rightarrow> u32 \<Rightarrow> u8 list \<Rightarrow> nat option \<Rightarrow> errno + nat \<times> u8 list option \<Rightarrow> bool" where
  "xattr_got E s ino name room r \<longleftrightarrow> (case r of
       Inr (n, out) \<Rightarrow> (\<exists>v. map_of (xattrs_of s ino) name = Some v \<and> n = length v \<and>
         out = (case room of None \<Rightarrow> None | Some _ \<Rightarrow> Some v) \<and> (\<forall>sz. room = Some sz \<longrightarrow> length v \<le> sz))
     | Inl e \<Rightarrow> quiet E \<and> \<not> has_jbd2 (s_journal s) \<longrightarrow>
         (case map_of (xattrs_of s ino) name of None \<Rightarrow> e = ENODATA
          | Some v \<Rightarrow> e = ERANGE \<and> (\<exists>sz. room = Some sz \<and> sz < length v)))"

lemma xattr_get_spec:
  assumes "xattr_ok s ino" "length name \<le> 255"
  shows "wp (simplefs_xattr_get E ino name room) (\<lambda>r s'. same_disk s s' \<and> sframe s s' \<and> xattr_got E s ino name room r) s"
proof (cases "i_xattr_block (inodes s ino) = 0")
  case True
  then show ?thesis
    by (simp add: simplefs_xattr_get_def wp_simps xattr_got_def xattrs_of_def same_disk_def sframe_def)
next
  case False
  define b where "b = cache s (i_xattr_block (inodes s ino))"
  have v: "simplefs_xattr_validate b = None" "xattrs_of s ino = xattrs b"
    using assms(1) False by (simp_all add: xattr_ok_def Let_def valid_xattrs_def b_def xattrs_of_def)
  have look: "map_of (xattrs b) name = map_option (e_value b) (find_entry b name (unat (h_count b)) 8)"
    by (simp add: find_entry_map xattrs_def)
  have "wp (simplefs_get_folio E (i_xattr_block (inodes s ino))) (\<lambda>r s'. sframe s s' \<and> cache s' = cache s \<and>
      (case r of Inl e \<Rightarrow> \<not> (quiet E \<and> \<not> has_jbd2 (s_journal s)) | Inr c \<Rightarrow> c = b)) s"
  proof (rule wp_mono [OF wp_keeps [OF keeps_sframe [OF get_folio_leaf get_folio_jframe] wp_conj [OF get_folio_spec]]])
    show "wp (simplefs_get_folio E (i_xattr_block (inodes s ino))) (\<lambda>r s'. isl r \<longrightarrow> \<not> (quiet E \<and> \<not> has_jbd2 (s_journal s))) s"
      by (auto simp: simplefs_get_folio_def simplefs_read_metadata_def simplefs_journal_prepare_current_def
          simplefs_current_jbd2_handle_def has_jbd2_def quiet_def wp_simps split: option.splits)
  qed (auto simp: b_def split: sum.split)
  then show ?thesis
    unfolding simplefs_xattr_get_def wp_bind wp_gets if_not_P [OF False] same_disk_def xattr_got_def v(2)
    using assms(2) by (auto simp: wp_if wp_bind wp_return v(1) look elim!: wp_mono dest: sframe_fields split: sum.splits option.splits)
qed

text \<open>
  C35. \<open>simplefs_xattr_get\<close> reads that map and changes nothing: a result is the size of the stored value
  and, when a buffer was given, the value itself, which fits the buffer. If no kernel call fails,
  \<open>-ENODATA\<close> is returned exactly for a name that is not set, and \<open>-ERANGE\<close> only for a buffer that is too small.
\<close>
theorem xattr_get_correct:
  assumes "xattr_ok s ino" "length name \<le> 255" "run_state (simplefs_xattr_get E ino name room) s = (r, s')"
  shows "cache s' = cache s \<and> inodes s' = inodes s \<and> sbi s' = sbi s \<and>
    (case r of
       Inr (n, out) \<Rightarrow> (\<exists>v. map_of (xattrs_of s ino) name = Some v \<and> n = length v \<and>
         out = (case room of None \<Rightarrow> None | Some _ \<Rightarrow> Some v) \<and> (\<forall>sz. room = Some sz \<longrightarrow> length v \<le> sz))
     | Inl e \<Rightarrow> quiet E \<and> \<not> has_jbd2 (s_journal s) \<longrightarrow>
         (case map_of (xattrs_of s ino) name of None \<Rightarrow> e = ENODATA
          | Some v \<Rightarrow> e = ERANGE \<and> (\<exists>sz. room = Some sz \<and> sz < length v)))"
  using wp_run [OF xattr_get_spec [OF assms(1,2)] assms(3)] unfolding xattr_got_def same_disk_def by blast

theorem xattr_get_correct_witness:
  "fst (run_state (simplefs_xattr_get env_ok 1 [117] None) kst0) = Inl ENODATA"
proof -
  obtain r s' where run: "run_state (simplefs_xattr_get env_ok 1 [117] None) kst0 = (r, s')" by fastforce
  have "quiet env_ok" "\<not> has_jbd2 (s_journal kst0)" "map_of (xattrs_of kst0 1) [117] = None"
    by (simp_all add: quiet_def has_jbd2_def xattrs_of_def demo_simps)
  then show ?thesis using xattr_get_correct [OF xattr_ok_kst0 _ run] run by (cases r) auto
qed

text \<open>Runs without a journal.\<close>

lemma first_run_one:
  assumes "\<not> bfree_bitmap (sbi s) 0" "free_run (sbi s) q 1"
  obtains q' where "first_run (bfree_bitmap (sbi s)) (unat (nr_blocks (sbi s))) (unat (1 :: u32)) 0 = Some q'" "free_run (sbi s) q' 1"
proof -
  obtain q' where q: "first_run (bfree_bitmap (sbi s)) (unat (nr_blocks (sbi s))) (unat (1 :: u32)) 0 = Some q'"
    using assms(2) by (cases "first_run (bfree_bitmap (sbi s)) (unat (nr_blocks (sbi s))) (unat (1 :: u32)) 0")
      (auto simp: first_run_def find_None_iff free_run_def split: if_splits)
  then have "free_run (sbi s) q' 1"
    using assms(1) by (auto simp: first_run_def find_Some_iff free_run_def bm_all_iff split: if_splits)
  then show ?thesis using that q by blast
qed

lemma no_journal_folio:
  "s_journal t = None \<Longrightarrow> quiet E \<Longrightarrow>
   wp (simplefs_get_folio E n) Q t = Q (Inr (cache t n)) (t\<lparr>trace := (Read_mapping_folio n, None) # trace t\<rparr>)"
  by (simp add: simplefs_get_folio_def simplefs_read_metadata_def simplefs_journal_prepare_current_def
      simplefs_current_jbd2_handle_def quiet_def wp_simps)

lemma no_journal_handle:
  "s_journal s = None \<Longrightarrow> \<not> s_shutdown s \<Longrightarrow> wp (with_handle E n m) Q s = wp m Q s"
  by (simp add: with_handle_def simplefs_journal_start_sb_def simplefs_journal_stop_def has_jbd2_def wp_simps)

lemma scan_empty: "scan_entries empty_xattrs name (unat (h_count empty_xattrs)) 0 8 None = None"
  by (simp add: empty_xattrs_def h_count_def mem_simps)

text \<open>Without a journal and failing calls a change succeeds when the flags allow it and it fits.\<close>

lemma xattr_set_succeeds:
  assumes "s_journal s = None" "\<not> s_shutdown s" "quiet E" "xattr_ok s ino" "length name \<le> 255"
    and "i_xattr_block (inodes s ino) \<noteq> 0 \<or> free_run (sbi s) q 1"
    and "XATTR_CREATE flags \<longrightarrow> name \<notin> fst ` set (xattrs_of s ino)" "XATTR_REPLACE flags \<longrightarrow> name \<in> fst ` set (xattrs_of s ino)"
    and "8 + xattr_space (changed_xattrs name v (xattrs_of s ino)) \<le> 4096"
  shows "wp (simplefs_xattr_set E ino name v flags) (\<lambda>r s'. r = None) s"
proof -
  have upd: "wp (xattr_update E ino name v flags b) (\<lambda>r s'. r = None) t"
    if t: "s_journal t = None" "xattrs b = xattrs_of s ino" for b t
  proof -
    let ?f = "scan_entries b name (unat (h_count b)) 0 8 None"
    have d: "distinct (map fst (xattrs b))" using assms(4) t(2) by (simp add: xattr_ok_def Let_def)
    have "?f \<noteq> None \<longleftrightarrow> name \<in> fst ` set (xattrs_of s ino)"
      unfolding scan_entries_list t(2) [symmetric] xattrs_def using last_match_found last_match_absent by metis
    moreover have "rebuild_xattrs b ?f name v \<noteq> None"
      using rebuild_correct [OF d assms(5), of v] assms(9) t(2) by (auto split: option.splits)
    moreover have "wp (simplefs_journal_dirty_folio E n n) Q u = Q None (u\<lparr>trace := (Folio_mark_dirty n, None) # trace u\<rparr>)"
      if "s_journal u = None" for n Q u
      using that by (simp add: simplefs_journal_dirty_folio_def simplefs_current_jbd2_handle_def has_jbd2_def wp_simps)
    ultimately show ?thesis
      using assms(3,7,8) t(1)
      by (auto simp: xattr_update_def Let_def wp_simps quiet_def inode_set_ctime_current_def current_time_def split: option.splits)
  qed
  show ?thesis
  proof (cases "i_xattr_block (inodes s ino) = 0")
    case False
    then have "simplefs_xattr_validate (cache s (i_xattr_block (inodes s ino))) = None"
      using assms(4) by (simp add: xattr_ok_def Let_def valid_xattrs_def)
    then show ?thesis
      using False assms(1-3,5) upd by (simp add: simplefs_xattr_set_def no_journal_handle wp_simps xattr_block_for_set_def
          no_journal_folio xattrs_of_def)
  next
    case True
    then have b0: "\<not> bfree_bitmap (sbi s) 0" using assms(4) by (simp add: xattr_ok_def Let_def meta_ok_def)
    obtain q' where q: "first_run (bfree_bitmap (sbi s)) (unat (nr_blocks (sbi s))) (unat (1 :: u32)) 0 = Some q'"
      "free_run (sbi s) q' 1" using first_run_one [OF b0] assms(6) True by blast
    have get: "wp (get_free_blocks E 1) Q s = Q (of_nat q') (s\<lparr>sbi := take_sb (sbi s) q' 1\<rparr>)" for Q
      unfolding wp_def no_journal_get [OF assms(1,2) b0] q by simp
    have e: "xattrs empty_xattrs = xattrs_of s ino" using True by (simp add: xattrs_of_def empty_xattrs_valid)
    show ?thesis
      using True assms(1-3,5,8) upd [OF _ e] free_run_unat [OF q(2)]
      by (auto simp: simplefs_xattr_set_def no_journal_handle wp_simps xattr_block_for_set_def get no_journal_folio xattrs_of_def)
  qed
qed



end
