(* ===== verification/SFS_DirIndex.thy ===== *)
theory SFS_DirIndex
  imports SFS_Xattr
begin

text \<open>
  Directories, \<open>simplefs_dir_index.c\<close>: fixed-size records at stable slots in the blocks of an ordinary
  extent tree, with a name table, a slot array and a bitmap of used slots kept in memory as caches.

  The index belongs to the inode of its directory, \<open>dir_index\<close>. A record in memory is one object reached
  from the name table and from the slot array; the model keeps its value in both. The kernel's
  hash table can refuse an insertion for want of memory, which the environment decides. The names
  the VFS passes are byte strings without a zero byte.
\<close>

section \<open>Records on disk\<close>

definition SIMPLEFS_FILENAME_LEN :: nat where "SIMPLEFS_FILENAME_LEN = 255"

definition SIMPLEFS_MAX_DIR_BLOCKS :: u32 where "SIMPLEFS_MAX_DIR_BLOCKS = 0xFFFFFFFF div 4096"

text \<open>\<open>struct simplefs_file\<close> is 260 bytes: the inode number and 255 bytes for the name.\<close>

definition file_inode :: "block \<Rightarrow> nat \<Rightarrow> u32" where
  "file_inode b i = get32 b (260 * i)"

definition file_name :: "block \<Rightarrow> nat \<Rightarrow> u8 list" where
  "file_name b i = takeWhile (\<lambda>c. c \<noteq> 0) (bytes_at b (260 * i + 4) SIMPLEFS_FILENAME_LEN)"

text \<open>\<open>memset\<close> of the record and, for an entry, the two stores of \<open>simplefs_dir_set\<close>.\<close>

definition put_file :: "nat \<Rightarrow> u32 \<Rightarrow> u8 list \<Rightarrow> block \<Rightarrow> block" where
  "put_file i ino name b =
     (let b = mem_set b (260 * i) 0 260
      in if ino = 0 then b else store_bytes name (put32 ino b (260 * i)) (260 * i + 4))"

section \<open>The index\<close>

definition empty_index :: simplefs_dir_index where
  "empty_index = \<lparr>dx_mapping = empty_buffer, dx_names = (\<lambda>_. None), dx_entries = (\<lambda>_. None),
     dx_used = (\<lambda>_. False), dx_blocks = [], dx_nr_files = 0, dx_capacity = 0, dx_next_free = 0, dx_valid = False\<rparr>"

definition dir_slots :: "simplefs_dir_index \<Rightarrow> nat" where
  "dir_slots ix = length (dx_blocks ix) * SIMPLEFS_FILES_PER_BLOCK"

definition upd_index :: "u32 \<Rightarrow> (simplefs_dir_index \<Rightarrow> simplefs_dir_index) \<Rightarrow> (kst, unit) state" where
  "upd_index dir f = upd_inode dir (\<lambda>i. i\<lparr>dir_index := map_option f (dir_index i)\<rparr>)"

definition the_index :: "u32 \<Rightarrow> (kst, simplefs_dir_index) state" where
  "the_index dir = gets (\<lambda>s. case dir_index (inodes s dir) of None \<Rightarrow> empty_index | Some ix \<Rightarrow> ix)"

definition simplefs_dir_destroy :: "u32 \<Rightarrow> (kst, unit) state" where
  "simplefs_dir_destroy dir = upd_inode dir (\<lambda>i. i\<lparr>dir_index := None\<rparr>)"

text \<open>
  The loop that doubles the capacity. The source has only the first condition; the second says that
  the doubling still makes progress, which \<open>grow_capacity_enough\<close> below shows to hold until the
  first one fails.
\<close>

function grow_capacity :: "u32 \<Rightarrow> u32 \<Rightarrow> u32" where
  "grow_capacity capacity blocks =
     (if capacity < blocks \<and> capacity < min (capacity * 2) SIMPLEFS_MAX_DIR_BLOCKS
      then grow_capacity (min (capacity * 2) SIMPLEFS_MAX_DIR_BLOCKS) blocks
      else capacity)"
  by pat_completeness auto
termination
  by (relation "measure (\<lambda>(c, b). 2 ^ 32 - unat c)")
    (auto simp: word_less_nat_alt intro!: diff_less_mono2)

declare grow_capacity.simps [simp del]

text \<open>New arrays hold the old contents up to the blocks in use and are empty beyond.\<close>

definition simplefs_dir_reserve :: "env \<Rightarrow> u32 \<Rightarrow> simplefs_dir_index \<Rightarrow> (kst, status \<times> simplefs_dir_index) state" where
  "simplefs_dir_reserve E blocks ix =
     (if blocks > SIMPLEFS_MAX_DIR_BLOCKS then ret (Some ENOSPC, ix)
      else if blocks \<le> dx_capacity ix then ret (None, ix)
      else do {
        let capacity = grow_capacity (max 4 (dx_capacity ix)) blocks;
        map \<leftarrow> ext E Kmalloc;
        entries \<leftarrow> ext E Kmalloc;
        used \<leftarrow> ext E Kmalloc;
        if map \<noteq> None \<or> entries \<noteq> None \<or> used \<noteq> None then ret (Some ENOMEM, ix)
        else ret (None, ix\<lparr>dx_capacity := capacity,
          dx_entries := (\<lambda>i. if dx_capacity ix \<noteq> 0 \<and> i < dir_slots ix then dx_entries ix i else None),
          dx_used := (\<lambda>i. dx_capacity ix \<noteq> 0 \<and> i < dir_slots ix \<and> dx_used ix i)\<rparr>)
      })"

text \<open>\<open>rhashtable_lookup_insert_fast\<close> on the name table.\<close>

definition names_insert :: "env \<Rightarrow> simplefs_dir_name \<Rightarrow> simplefs_dir_index \<Rightarrow> (kst, status \<times> simplefs_dir_index) state" where
  "names_insert E e ix =
     (if dx_names ix (dn_name e) \<noteq> None then ret (Some EEXIST, ix)
      else do {
        r \<leftarrow> ext E (Other ''rhashtable_insert'' []);
        ret (r, if r = None then ix\<lparr>dx_names := (dx_names ix)(dn_name e \<mapsto> e)\<rparr> else ix)
      })"

definition names_remove :: "u8 list \<Rightarrow> simplefs_dir_index \<Rightarrow> simplefs_dir_index" where
  "names_remove name ix = ix\<lparr>dx_names := (dx_names ix)(name := None)\<rparr>"

section \<open>Building the index from disk\<close>

text \<open>The first loop: the extents must map the blocks of the directory from 0 on without a gap.\<close>

fun build_blocks :: "env \<Rightarrow> u32 \<Rightarrow> simplefs_extent list \<Rightarrow> simplefs_dir_index \<Rightarrow> (kst, status \<times> simplefs_dir_index) state" where
  "build_blocks E nr [] ix = ret (None, ix)"
| "build_blocks E nr (e # es) ix =
     (let len = simplefs_ext_len e in
      if len = 0 \<or> simplefs_ext_unwritten e \<or> ee_block e \<noteq> of_nat (length (dx_blocks ix)) \<or>
         ee_start e \<ge> nr \<or> len > nr - ee_start e
      then ret (Some EFSCORRUPTED, ix)
      else do {
        (r, ix) \<leftarrow> simplefs_dir_reserve E (of_nat (length (dx_blocks ix)) + len) ix;
        if r \<noteq> None then ret (r, ix)
        else build_blocks E nr es (ix\<lparr>dx_blocks := dx_blocks ix @ map (\<lambda>bi. ee_start e + of_nat bi) [0..<unat len]\<rparr>)
      })"

text \<open>The records \<open>i\<close> to 14 of a block, the first of them at \<open>slot\<close>.\<close>

fun build_records :: "env \<Rightarrow> u32 \<Rightarrow> block \<Rightarrow> nat list \<Rightarrow> nat \<Rightarrow> simplefs_dir_index \<Rightarrow> (kst, status \<times> simplefs_dir_index) state" where
  "build_records E nr b [] slot ix = ret (None, ix)"
| "build_records E nr b (i # is) slot ix =
     (if file_inode b i = 0 then build_records E nr b is (Suc slot) ix
      else if file_inode b i \<ge> nr \<or> b (260 * i + 4) = 0 then ret (Some EFSCORRUPTED, ix)
      else do {
        nomem \<leftarrow> ext E Kmalloc;
        if nomem \<noteq> None then ret (Some ENOMEM, ix)
        else do {
          let entry = \<lparr>dn_name = file_name b i, dn_ino = file_inode b i, dn_slot = of_nat slot\<rparr>;
          (r, ix) \<leftarrow> names_insert E entry ix;
          if r \<noteq> None then ret (if r = Some EEXIST then Some EFSCORRUPTED else r, ix)
          else build_records E nr b is (Suc slot)
            (ix\<lparr>dx_entries := (dx_entries ix)(slot \<mapsto> entry), dx_used := (dx_used ix)(slot := True),
               dx_nr_files := dx_nr_files ix + 1\<rparr>)
        }
      })"

fun build_entries :: "env \<Rightarrow> u32 \<Rightarrow> u32 list \<Rightarrow> nat \<Rightarrow> simplefs_dir_index \<Rightarrow> (kst, status \<times> simplefs_dir_index) state" where
  "build_entries E nr [] slot ix = ret (None, ix)"
| "build_entries E nr (bno # bs) slot ix = do {
     data \<leftarrow> simplefs_read_metadata E bno;
     (case data of
        Inl e \<Rightarrow> ret (Some e, ix)
      | Inr b \<Rightarrow> do {
          (r, ix) \<leftarrow> build_records E nr b [0..<SIMPLEFS_FILES_PER_BLOCK] slot ix;
          if r \<noteq> None then ret (r, ix)
          else build_entries E nr bs (slot + SIMPLEFS_FILES_PER_BLOCK) ix
        })
   }"

definition simplefs_dir_build :: "env \<Rightarrow> u32 \<Rightarrow> simplefs_dir_index \<Rightarrow> (kst, status \<times> simplefs_dir_index) state" where
  "simplefs_dir_build E dir ix = do {
     nr \<leftarrow> gets (\<lambda>s. nr_blocks (sbi s));
     ninodes \<leftarrow> gets (\<lambda>s. nr_inodes (sbi s));
     root \<leftarrow> gets (\<lambda>s. ei_block (inodes s dir));
     (r, mapping) \<leftarrow> simplefs_file_load_extents E root;
     let ix = ix\<lparr>dx_mapping := mapping\<rparr>;
     if r \<noteq> None then ret (r, ix)
     else do {
       (r, ix) \<leftarrow> build_blocks E nr (extents mapping) ix;
       if r \<noteq> None then ret (r, ix)
       else do {
         (r, ix) \<leftarrow> build_entries E ninodes (dx_blocks ix) 0 ix;
         ret (if r \<noteq> None then (r, ix) else (None, ix\<lparr>dx_valid := True\<rparr>))
       }
     }
   }"

text \<open>\<open>simplefs_dir_get\<close>; the result is the status of the pointer, the index is that of the inode.\<close>

definition simplefs_dir_get :: "env \<Rightarrow> u32 \<Rightarrow> (kst, status) state" where
  "simplefs_dir_get E dir = do {
     shutdown \<leftarrow> gets s_shutdown;
     index \<leftarrow> gets (\<lambda>s. dir_index (inodes s dir));
     if shutdown then ret (Some EIO)
     else if (case index of None \<Rightarrow> False | Some ix \<Rightarrow> dx_valid ix) then ret None
     else do {
       simplefs_dir_destroy dir;
       nomem \<leftarrow> ext E Kmalloc;
       if nomem \<noteq> None then ret (Some ENOMEM)
       else do {
         r \<leftarrow> ext E (Other ''rhashtable_init'' []);
         if r \<noteq> None then ret r
         else do {
           (r, ix) \<leftarrow> simplefs_dir_build E dir empty_index;
           if r \<noteq> None then ret r
           else do { upd_inode dir (\<lambda>i. i\<lparr>dir_index := Some ix\<rparr>); ret None }
         }
       }
     }
   }"

section \<open>Looking up and changing entries\<close>

text \<open>\<open>simplefs_dir_find\<close> returns the slot and the inode number; an \<open>ino\<close> of 0 matches any.\<close>

definition simplefs_dir_find :: "simplefs_dir_index \<Rightarrow> u8 list \<Rightarrow> u32 \<Rightarrow> errno + (u32 \<times> u32)" where
  "simplefs_dir_find ix name ino =
     (if length name > SIMPLEFS_FILENAME_LEN then Inl ENAMETOOLONG
      else (case dx_names ix name of
          None \<Rightarrow> Inl ENOENT
        | Some entry \<Rightarrow> if ino \<noteq> 0 \<and> ino \<noteq> dn_ino entry then Inl ENOENT
            else Inr (dn_slot entry, dn_ino entry)))"

text \<open>\<open>find_next_zero_bit\<close>.\<close>

definition next_zero :: "bitmap \<Rightarrow> nat \<Rightarrow> nat \<Rightarrow> nat" where
  "next_zero m n start = (case find (\<lambda>i. \<not> m i) [start..<n] of None \<Rightarrow> n | Some i \<Rightarrow> i)"

text \<open>
  A directory that has no free slot grows by one block, whose image is written before an extent
  points to it.
\<close>

definition dir_new_block :: "env \<Rightarrow> u32 \<Rightarrow> u32 \<Rightarrow> (kst, status) state" where
  "dir_new_block E dir bno = do {
     data \<leftarrow> simplefs_get_zeroed_folio E bno;
     (case data of
        Inl e \<Rightarrow> ret (Some e)
      | Inr b \<Rightarrow> do {
          r \<leftarrow> simplefs_journal_dirty_folio E bno bno;
          if r \<noteq> None then ret r
          else do {
            h \<leftarrow> simplefs_journal_has_current_handle E;
            r \<leftarrow> (if \<not> h then ext E (Filemap_write_and_wait_range bno 1) else ret None);
            if r \<noteq> None then ret r
            else do {
              ix \<leftarrow> the_index dir;
              (r, mapping) \<leftarrow> simplefs_file_append_extent E (dx_mapping ix)
                 (simplefs_ext_init (of_nat (length (dx_blocks ix))) 1 bno False);
              upd_index dir (\<lambda>ix. ix\<lparr>dx_mapping := mapping\<rparr>);
              ret r
            }
          }
        })
   }"

definition simplefs_dir_free_slot :: "env \<Rightarrow> u32 \<Rightarrow> (kst, errno + u32) state" where
  "simplefs_dir_free_slot E dir = do {
     ix \<leftarrow> the_index dir;
     let slots = dir_slots ix;
     let slot = next_zero (dx_used ix) slots (unat (dx_next_free ix));
     if slot < slots then ret (Inr (of_nat slot))
     else do {
       (r, ix) \<leftarrow> simplefs_dir_reserve E (of_nat (length (dx_blocks ix)) + 1) ix;
       upd_index dir (\<lambda>_. ix);
       (case r of
          Some e \<Rightarrow> ret (Inl e)
        | None \<Rightarrow> do {
            bno \<leftarrow> get_free_blocks E 1;
            shutdown \<leftarrow> gets s_shutdown;
            if bno = 0 then ret (Inl (if shutdown then EIO else ENOSPC))
            else do {
              r \<leftarrow> dir_new_block E dir bno;
              (case r of
                 Some e \<Rightarrow> do { _ \<leftarrow> simplefs_retire_metadata_blocks E bno 1; ret (Inl e) }
               | None \<Rightarrow> do {
                   ix \<leftarrow> the_index dir;
                   (r, mapping) \<leftarrow> simplefs_file_sync_extents E dir (dx_mapping ix);
                   upd_index dir (\<lambda>ix. ix\<lparr>dx_mapping := mapping\<rparr>);
                   (case r of
                      Some e \<Rightarrow> do {
                        upd_index dir (\<lambda>ix. ix\<lparr>dx_valid := False\<rparr>);
                        simplefs_journal_fail e;
                        ret (Inl e)
                      }
                    | None \<Rightarrow> do {
                        upd_index dir (\<lambda>ix. ix\<lparr>dx_blocks := dx_blocks ix @ [bno]\<rparr>);
                        ix \<leftarrow> the_index dir;
                        upd_inode dir (\<lambda>i. i\<lparr>i_blocks := i_blocks i + simplefs_blocks_to_sectors 1,
                          i_size := int (length (dx_blocks ix)) * 4096\<rparr>);
                        note_call (Mark_inode_dirty dir);
                        ret (Inr (of_nat slots))
                      })
                 })
            }
          })
     }
   }"

text \<open>The changes to the caches at the end of \<open>simplefs_dir_set\<close>.\<close>

definition set_caches :: "u32 \<Rightarrow> u32 \<Rightarrow> simplefs_dir_name option \<Rightarrow> simplefs_dir_index \<Rightarrow> simplefs_dir_index" where
  "set_caches slot ino entry ix =
     (let old = dx_entries ix (unat slot);
          (old, ix) = (case old of
             Some o' \<Rightarrow> if ino = 0 \<or> entry \<noteq> None then (None, names_remove (dn_name o') ix) else (Some o', ix)
           | None \<Rightarrow> (None, ix));
          now = (case entry of Some e \<Rightarrow> Some e | None \<Rightarrow> old);
          now = (if ino \<noteq> 0 then map_option (\<lambda>e. e\<lparr>dn_ino := ino\<rparr>) now else now);
          ix = ix\<lparr>dx_entries := (dx_entries ix)(unat slot := now),
             dx_names := (case now of None \<Rightarrow> dx_names ix | Some e \<Rightarrow> (dx_names ix)(dn_name e \<mapsto> e))\<rparr>
      in if ino \<noteq> 0
         then ix\<lparr>dx_used := (dx_used ix)(unat slot := True),
            dx_next_free := (if slot = dx_next_free ix then dx_next_free ix + 1 else dx_next_free ix)\<rparr>
         else ix\<lparr>dx_used := (dx_used ix)(unat slot := False), dx_next_free := min (dx_next_free ix) slot\<rparr>)"

text \<open>A new name for the slot is entered into the name table first and taken out again on failure.\<close>

definition set_new_name :: "env \<Rightarrow> u32 \<Rightarrow> u32 \<Rightarrow> u32 \<Rightarrow> u8 list option \<Rightarrow> (kst, status \<times> simplefs_dir_name option) state" where
  "set_new_name E dir slot ino name = do {
     ix \<leftarrow> the_index dir;
     let old = dx_entries ix (unat slot);
     (case name of
        Some n \<Rightarrow>
          if ino \<noteq> 0 \<and> (case old of None \<Rightarrow> True | Some o' \<Rightarrow> dn_name o' \<noteq> n)
          then do {
            nomem \<leftarrow> ext E Kmalloc;
            if nomem \<noteq> None then ret (Some ENOMEM, None)
            else do {
              let entry = \<lparr>dn_name = n, dn_ino = ino, dn_slot = slot\<rparr>;
              (r, ix) \<leftarrow> names_insert E entry ix;
              upd_index dir (\<lambda>_. ix);
              ret (r, if r = None then Some entry else None)
            }
          }
          else ret (None, None)
      | None \<Rightarrow> ret (None, None))
   }"

definition simplefs_dir_set :: "env \<Rightarrow> u32 \<Rightarrow> u32 \<Rightarrow> u32 \<Rightarrow> u8 list option \<Rightarrow> (kst, status) state" where
  "simplefs_dir_set E dir slot ino name = do {
     ix \<leftarrow> the_index dir;
     let old = dx_entries ix (unat slot);
     if unat slot \<ge> dir_slots ix then ret (Some EFSCORRUPTED)
     else if (case name of None \<Rightarrow> False | Some n \<Rightarrow> length n > SIMPLEFS_FILENAME_LEN) then ret (Some ENAMETOOLONG)
     else if ino \<noteq> 0 \<and> name = None \<and> old = None then ret (Some ENOENT)
     else do {
       (r, entry) \<leftarrow> set_new_name E dir slot ino name;
       if r \<noteq> None then ret r
       else do {
         let undo = (case entry of None \<Rightarrow> ret () | Some e \<Rightarrow> upd_index dir (names_remove (dn_name e)));
         let bno = dx_blocks ix ! (unat slot div SIMPLEFS_FILES_PER_BLOCK);
         data \<leftarrow> simplefs_get_folio E bno;
         (case data of
            Inl e \<Rightarrow> do { undo; ret (Some e) }
          | Inr b \<Rightarrow> do {
              let n = (case entry of Some e \<Rightarrow> dn_name e | None \<Rightarrow> (case old of None \<Rightarrow> [] | Some o' \<Rightarrow> dn_name o'));
              set_cache bno (put_file (unat slot mod SIMPLEFS_FILES_PER_BLOCK) ino n b);
              r \<leftarrow> simplefs_journal_dirty_folio E bno bno;
              (case r of
                 Some e \<Rightarrow> do {
                   upd_index dir (\<lambda>ix. ix\<lparr>dx_valid := False\<rparr>);
                   simplefs_journal_fail e;
                   undo;
                   ret (Some e)
                 }
               | None \<Rightarrow> do { upd_index dir (set_caches slot ino entry); ret None })
            })
       }
     }
   }"

definition simplefs_dir_add :: "env \<Rightarrow> u32 \<Rightarrow> u8 list \<Rightarrow> u32 \<Rightarrow> (kst, status) state" where
  "simplefs_dir_add E dir name ino = do {
     r \<leftarrow> simplefs_dir_get E dir;
     if r \<noteq> None then ret r
     else do {
       slot \<leftarrow> simplefs_dir_free_slot E dir;
       r \<leftarrow> (case slot of Inl e \<Rightarrow> ret (Some e) | Inr slot \<Rightarrow> simplefs_dir_set E dir slot ino (Some name));
       if r \<noteq> None then ret r
       else do {
         upd_index dir (\<lambda>ix. ix\<lparr>dx_nr_files := dx_nr_files ix + 1\<rparr>);
         note_call (Mark_inode_dirty dir);
         r \<leftarrow> simplefs_persist_inode E dir;
         (case r of
            None \<Rightarrow> ret None
          | Some e \<Rightarrow> do {
              upd_index dir (\<lambda>ix. ix\<lparr>dx_valid := False\<rparr>);
              simplefs_journal_fail e;
              ret (Some e)
            })
       }
     }
   }"

section \<open>Reading a directory\<close>

text \<open>
  The loop of \<open>simplefs_dir_emit\<close> over the slots from \<open>ctx->pos - 2\<close> on. The result is the entries that
  \<open>dir_emit\<close> accepted and the new position; the callback may refuse an entry, which ends the loop.
\<close>

fun emit_slots :: "env \<Rightarrow> simplefs_dir_index \<Rightarrow> nat list \<Rightarrow> (kst, (u8 list \<times> u32) list \<times> nat) state" where
  "emit_slots E ix [] = ret ([], dir_slots ix)"
| "emit_slots E ix (i # is) = (case dx_entries ix i of
     None \<Rightarrow> emit_slots E ix is
   | Some e \<Rightarrow> do {
       full \<leftarrow> ask E (Other ''dir_emit_full'' [int i]);
       if full then ret ([], i)
       else do {
         (out, pos) \<leftarrow> emit_slots E ix is;
         ret ((dn_name e, dn_ino e) # out, pos)
       }
     })"

text \<open>
  \<open>simplefs_dir_emit\<close>, called with \<open>ctx->pos\<close>; \<open>dir_emit_dots\<close> delivers the two dot entries first and
  moves the position to 2. The result is the emitted entries and the position.
\<close>

definition simplefs_dir_emit :: "env \<Rightarrow> u32 \<Rightarrow> nat \<Rightarrow> (kst, errno + ((u8 list \<times> u32) list \<times> nat)) state" where
  "simplefs_dir_emit E dir pos = do {
     r \<leftarrow> simplefs_dir_get E dir;
     (case r of
        Some e \<Rightarrow> ret (Inl e)
      | None \<Rightarrow> do {
          nodots \<leftarrow> (if pos < 2 then ask E (Other ''dir_emit_dots'' [int pos]) else ret False);
          if nodots then ret (Inr ([], pos))
          else do {
            ix \<leftarrow> the_index dir;
            (out, slot) \<leftarrow> emit_slots E ix [pos - 2..<dir_slots ix];
            ret (Inr (out, if pos - 2 < dir_slots ix then slot + 2 else max pos 2))
          }
        })
   }"

definition simplefs_dir_get_name :: "env \<Rightarrow> u32 \<Rightarrow> u32 \<Rightarrow> (kst, errno + u8 list) state" where
  "simplefs_dir_get_name E dir ino = do {
     r \<leftarrow> simplefs_dir_get E dir;
     (case r of
        Some e \<Rightarrow> ret (Inl e)
      | None \<Rightarrow> do {
          ix \<leftarrow> the_index dir;
          ret (case find (\<lambda>i. case dx_entries ix i of None \<Rightarrow> False | Some e \<Rightarrow> dn_ino e = ino) [0..<dir_slots ix] of
             None \<Rightarrow> Inl ENOENT
           | Some i \<Rightarrow> (case dx_entries ix i of None \<Rightarrow> Inl ENOENT | Some e \<Rightarrow> Inr (dn_name e)))
        })
   }"

section \<open>Trimming an empty directory\<close>

text \<open>
  One batch takes at most 16 blocks from the last extent: the mapping that is left, the first block
  taken and the number of blocks.
\<close>

definition trim_tail :: "simplefs_extent_buffer \<Rightarrow> simplefs_extent_buffer \<times> u32 \<times> u32" where
  "trim_tail m =
     (let e = last (extents m); len = simplefs_ext_len e; n = min len 16; start = ee_start e + len - n
      in (m\<lparr>extents := butlast (extents m) @ (if n = len then [] else [simplefs_ext_set_len e (len - n)])\<rparr>, start, n))"

definition trim_batch :: "env \<Rightarrow> u32 \<Rightarrow> (kst, status) state" where
  "trim_batch E dir = do {
     ix \<leftarrow> the_index dir;
     let (m, start, n) = trim_tail (dx_mapping ix);
     (r, mapping) \<leftarrow> simplefs_file_sync_extents E dir m;
     upd_index dir (\<lambda>ix. ix\<lparr>dx_mapping := mapping\<rparr>);
     r \<leftarrow> then_if_ok r (simplefs_retire_metadata_blocks E start n);
     r \<leftarrow> then_if_ok r (do {
         upd_index dir (\<lambda>ix. ix\<lparr>dx_blocks := take (length (dx_blocks ix) - unat n) (dx_blocks ix)\<rparr>);
         ix \<leftarrow> the_index dir;
         upd_inode dir (\<lambda>i. i\<lparr>i_blocks := i_blocks i - simplefs_blocks_to_sectors (ucast n),
           i_size := int (length (dx_blocks ix)) * 4096\<rparr>);
         note_call (Mark_inode_dirty dir);
         simplefs_persist_inode E dir
       });
     (case r of
        None \<Rightarrow> ret None
      | Some e \<Rightarrow> do {
          upd_index dir (\<lambda>ix. ix\<lparr>dx_valid := False\<rparr>);
          simplefs_journal_fail e;
          ret (Some e)
        })
   }"

text \<open>
  The loop, with a bound on the number of batches; \<open>None\<close> means that the bound was too small.
  Every batch takes a block or an extent from the mapping, so \<open>trim_bound\<close> is large enough.
\<close>

fun trim_loop :: "env \<Rightarrow> u32 \<Rightarrow> nat \<Rightarrow> (kst, status option) state" where
  "trim_loop E dir 0 = ret None"
| "trim_loop E dir (Suc n) = do {
     ix \<leftarrow> the_index dir;
     if extents (dx_mapping ix) = [] then ret (Some None)
     else do {
       handle \<leftarrow> simplefs_journal_start_sb E 32;
       (case handle of
          Inl e \<Rightarrow> ret (Some (Some e))
        | Inr h \<Rightarrow> do {
            r \<leftarrow> trim_batch E dir;
            stop_ret \<leftarrow> simplefs_journal_stop E h;
            if r \<noteq> None \<or> stop_ret \<noteq> None then ret (Some (if r \<noteq> None then r else stop_ret))
            else trim_loop E dir n
          })
     }
   }"

definition trim_bound :: "simplefs_extent list \<Rightarrow> nat" where
  "trim_bound xs = Suc (sum_list (map (\<lambda>e. Suc (unat (simplefs_ext_len e))) xs))"

definition simplefs_dir_trim :: "env \<Rightarrow> u32 \<Rightarrow> (kst, status option) state" where
  "simplefs_dir_trim E dir = do {
     r \<leftarrow> simplefs_dir_get E dir;
     if r \<noteq> None then ret (Some r)
     else do {
       ix \<leftarrow> the_index dir;
       if dx_nr_files ix \<noteq> 0 then ret (Some (Some ENOTEMPTY))
       else do {
         r \<leftarrow> trim_loop E dir (trim_bound (extents (dx_mapping ix)));
         when_true (r = Some None) (upd_index dir (\<lambda>ix. ix\<lparr>dx_next_free := 0\<rparr>));
         ret r
       }
     }
   }"

section \<open>Directory files\<close>

text \<open>
  \<open>simplefs_dir.c\<close>. The kernel's write-back of the inode's own metadata, \<open>sync_inode_metadata\<close>, is the
  argument \<open>sync_inode\<close>. \<open>simplefs_iterate\<close> is \<open>simplefs_dir_emit\<close>.
\<close>

definition simplefs_dir_fsync :: "env \<Rightarrow> (kst, status) state \<Rightarrow> (kst, status) state" where
  "simplefs_dir_fsync E sync_inode = do {
     err \<leftarrow> sync_inode;
     journal \<leftarrow> gets s_journal;
     if has_jbd2 journal then do {
       err2 \<leftarrow> simplefs_journal_force_commit E journal;
       ret (if err = None then err2 else err)
     } else do {
       err2 \<leftarrow> ext E (Other ''filemap_write_and_wait'' []);
       if err \<noteq> None then ret err
       else if err2 \<noteq> None then ret err2
       else ext E Blkdev_issue_flush
     }
   }"

end
