(* ===== verification/SFS_FileMap.thy ===== *)
theory SFS_FileMap
  imports SFS_ExtentProps
begin

text \<open>
  The block mapping of a file, the first half of \<open>simplefs_file.c\<close>: changing the state of part of an
  extent, converting and marking ranges, allocating on demand (\<open>simplefs_get_block\<close>), and the bookkeeping
  of the preallocated range. The file's extents are loaded, changed in memory and written back by
  \<open>simplefs_file_sync_extents\<close>; \<open>extent_lock\<close> is held around each of these functions. The messages and
  \<open>simplefs_dump_extents\<close> have no counterpart.
\<close>

section \<open>Splitting an extent\<close>

text \<open>
  \<open>memmove\<close> up by one from \<open>idx\<close> inside the array that \<open>simplefs_file_append_extent\<close> has grown,
  then the store at \<open>idx\<close>.
\<close>

definition move_up :: "'a list \<Rightarrow> nat \<Rightarrow> 'a list" where
  "move_up ys idx = (if idx < length ys - 1
     then take (Suc idx) ys @ take (length ys - idx - 1) (drop idx ys) else ys)"

definition simplefs_file_insert_extent :: "env \<Rightarrow> simplefs_extent_buffer \<Rightarrow> nat \<Rightarrow> simplefs_extent
    \<Rightarrow> (kst, status \<times> simplefs_extent_buffer) state" where
  "simplefs_file_insert_extent E buf insert_idx e = do {
     (r, buf) \<leftarrow> simplefs_file_append_extent E buf e;
     ret (if r \<noteq> None then (r, buf)
          else (None, buf\<lparr>extents := (move_up (extents buf) insert_idx)[insert_idx := e]\<rparr>))
   }"

text \<open>A part of an extent is inserted when it has blocks.\<close>

definition insert_part :: "env \<Rightarrow> simplefs_extent_buffer \<Rightarrow> nat \<Rightarrow> u32 \<Rightarrow> simplefs_extent
    \<Rightarrow> (kst, status \<times> simplefs_extent_buffer) state" where
  "insert_part E buf idx len e =
     (if len \<noteq> 0 then simplefs_file_insert_extent E buf idx e else ret (None, buf))"

text \<open>
  \<open>simplefs_convert_unwritten_extent\<close> and \<open>simplefs_mark_unwritten_extent\<close> are the same code with the
  two states exchanged: \<open>mark\<close> is the state the middle part gets.
\<close>

definition split_extent :: "env \<Rightarrow> bool \<Rightarrow> simplefs_extent_buffer \<Rightarrow> nat \<Rightarrow> u32 \<Rightarrow> u32
    \<Rightarrow> (kst, status \<times> simplefs_extent_buffer) state" where
  "split_extent E mark buf extent_idx iblock map_len = do {
     let orig = extents buf ! extent_idx;
     let orig_len = simplefs_ext_len orig;
     let head_len = iblock - ee_block orig;
     if simplefs_ext_unwritten orig = mark then ret (None, buf)
     else do {
       let map_len = min map_len (orig_len - head_len);
       let tail_len = orig_len - head_len - map_len;
       let buf = buf\<lparr>extents := (extents buf)[extent_idx := orig\<lparr>ee_block := iblock,
                   ee_start := ee_start orig + head_len, ee_len := map_len\<rparr>]\<rparr>;
       (r, buf) \<leftarrow> insert_part E buf extent_idx head_len
          (simplefs_ext_init (ee_block orig) head_len (ee_start orig) (\<not> mark));
       if r \<noteq> None then ret (r, buf)
       else do {
         let extent_idx = (if head_len \<noteq> 0 then Suc extent_idx else extent_idx);
         (r, buf) \<leftarrow> insert_part E buf (Suc extent_idx) tail_len
            (simplefs_ext_init (iblock + map_len) tail_len (ee_start orig + head_len + map_len) (\<not> mark));
         ret (if r \<noteq> None then (r, buf)
              else (None, buf\<lparr>extents := (extents buf)[extent_idx :=
                      simplefs_ext_set_unwritten (extents buf ! extent_idx) mark]\<rparr>))
       }
     }
   }"

definition simplefs_convert_unwritten_extent :: "env \<Rightarrow> simplefs_extent_buffer \<Rightarrow> nat \<Rightarrow> u32 \<Rightarrow> u32
    \<Rightarrow> (kst, status \<times> simplefs_extent_buffer) state" where
  "simplefs_convert_unwritten_extent E = split_extent E False"

definition simplefs_mark_unwritten_extent :: "env \<Rightarrow> simplefs_extent_buffer \<Rightarrow> nat \<Rightarrow> u32 \<Rightarrow> u32
    \<Rightarrow> (kst, status \<times> simplefs_extent_buffer) state" where
  "simplefs_mark_unwritten_extent E = split_extent E True"

text \<open>The parts into which a split replaces an extent.\<close>

definition split_parts :: "bool \<Rightarrow> simplefs_extent \<Rightarrow> u32 \<Rightarrow> u32 \<Rightarrow> simplefs_extent list" where
  "split_parts mark orig iblock map_len =
     (let head_len = iblock - ee_block orig;
          m = min map_len (simplefs_ext_len orig - head_len);
          tail_len = simplefs_ext_len orig - head_len - m
      in (if head_len \<noteq> 0 then [simplefs_ext_init (ee_block orig) head_len (ee_start orig) (\<not> mark)] else [])
         @ [simplefs_ext_set_unwritten (orig\<lparr>ee_block := iblock, ee_start := ee_start orig + head_len,
              ee_len := m\<rparr>) mark]
         @ (if tail_len \<noteq> 0 then [simplefs_ext_init (iblock + m) tail_len
              (ee_start orig + head_len + m) (\<not> mark)] else []))"

section \<open>Lemmas on insertion and splitting\<close>

text \<open>The loader and the growing of a buffer only add calls to the trace.\<close>

definition tframe :: "kst \<Rightarrow> kst \<Rightarrow> bool" where
  "tframe s s' \<longleftrightarrow> s' = s\<lparr>trace := trace s'\<rparr> \<and> suffix (trace s) (trace s')"

lemma tframe_refl: "tframe s s"
  by (simp add: tframe_def)

lemma tframe_trans: "tframe s t \<Longrightarrow> tframe t u \<Longrightarrow> tframe s u"
  unfolding tframe_def by (metis (no_types, lifting) kst.update_convs(7) kst.surjective suffix_order.trans)

interpretation tfr: frame tframe
  by unfold_locales (fact tframe_refl, erule tframe_trans)

lemmas [frame_rules] = tfr.keeps_return tfr.keeps_gets tfr.keeps_bind tfr.keeps_when tfr.keeps_then

lemma ext_tframe [frame_rules]: "keeps tframe (ext E c)"
  by (simp add: keeps_def tframe_def ext_def Let_def suffix_ConsI)

lemma asknum_tframe [frame_rules]: "keeps tframe (asknum E c)"
  by (simp add: keeps_def tframe_def asknum_def suffix_ConsI)

lemma note_call_tframe [frame_rules]: "keeps tframe (note_call c)"
  by (simp add: keeps_def tframe_def note_call_def suffix_ConsI)

lemma read_metadata_tframe [frame_rules]: "keeps tframe (simplefs_read_metadata E n)"
  unfolding simplefs_read_metadata_def by (intro frame_rules)

lemma grow_tframe [frame_rules]: "keeps tframe (simplefs_file_grow_extent_buffer E buf n)"
  unfolding simplefs_file_grow_extent_buffer_def by (intro frame_rules)

lemma append_tframe [frame_rules]: "keeps tframe (simplefs_file_append_extent E buf e)"
  unfolding simplefs_file_append_extent_def by (intro frame_rules)

lemma load_leaf_tframe [frame_rules]: "keeps tframe (simplefs_file_load_leaf E l buf)"
  unfolding simplefs_file_load_leaf_def by (intro frame_rules)

lemma load_leaves_tframe [frame_rules]: "keeps tframe (load_leaves E ls buf)"
proof (induction ls arbitrary: buf)
  case (Cons l ls)
  show ?case unfolding load_leaves.simps by (intro frame_rules Cons)
qed (simp, intro frame_rules)

lemma load_extents_tframe [frame_rules]: "keeps tframe (simplefs_file_load_extents E root)"
  unfolding simplefs_file_load_extents_def by (intro frame_rules)

lemma insert_extent_tframe [frame_rules]: "keeps tframe (simplefs_file_insert_extent E buf i e)"
  unfolding simplefs_file_insert_extent_def by (intro frame_rules)

lemma insert_part_tframe [frame_rules]: "keeps tframe (insert_part E buf i n e)"
  unfolding insert_part_def by (intro frame_rules)

lemma split_extent_tframe [frame_rules]: "keeps tframe (split_extent E mark buf i b l)"
  unfolding split_extent_def by (intro frame_rules)

lemma move_up_insert: "idx \<le> length xs \<Longrightarrow> (move_up (xs @ [e]) idx)[idx := e] = take idx xs @ e # drop idx xs"
proof (cases "idx < length xs")
  case True
  then have "take (Suc idx) (xs @ [e]) = take idx xs @ [xs ! idx]" "take (length xs - idx) (drop idx xs @ [e]) = drop idx xs"
    by (simp_all add: take_Suc_conv_app_nth)
  with True show ?thesis by (simp add: move_up_def list_update_append)
qed (simp add: move_up_def list_update_append)

lemma append_wp:
  assumes "\<And>r buf' s'. tframe s s' \<Longrightarrow> leaf_blocks buf' = leaf_blocks buf \<Longrightarrow> (quiet E \<Longrightarrow> r = None) \<Longrightarrow>
      extents buf' = (if r = None then extents buf @ [e] else extents buf) \<Longrightarrow> Q (r, buf') s'"
  shows "wp (simplefs_file_append_extent E buf e) Q s"
proof -
  have t: "tframe s (s\<lparr>trace := (c, r) # trace s\<rparr>)" for c r
    by (simp add: tframe_def suffix_ConsI)
  show ?thesis
    by (auto simp: simplefs_file_append_extent_def simplefs_file_grow_extent_buffer_def wp_simps Let_def
        intro!: assms t tframe_refl) (auto simp: quiet_def)
qed

lemma insert_extent_wp:
  assumes "idx \<le> length (extents buf)"
    and "\<And>r buf' s'. tframe s s' \<Longrightarrow> leaf_blocks buf' = leaf_blocks buf \<Longrightarrow> (quiet E \<Longrightarrow> r = None) \<Longrightarrow>
      (r = None \<Longrightarrow> extents buf' = take idx (extents buf) @ e # drop idx (extents buf)) \<Longrightarrow> Q (r, buf') s'"
  shows "wp (simplefs_file_insert_extent E buf idx e) Q s"
  unfolding simplefs_file_insert_extent_def wp_bind
  by (rule append_wp) (auto simp: wp_simps move_up_insert assms(1) intro!: assms(2))

lemma insert_part_wp:
  assumes "idx \<le> length (extents buf)"
    and "\<And>r buf' s'. tframe s s' \<Longrightarrow> leaf_blocks buf' = leaf_blocks buf \<Longrightarrow> (quiet E \<Longrightarrow> r = None) \<Longrightarrow>
      (r = None \<Longrightarrow> extents buf' = take idx (extents buf) @ (if n \<noteq> 0 then [e] else []) @ drop idx (extents buf)) \<Longrightarrow>
      Q (r, buf') s'"
  shows "wp (insert_part E buf idx n e) Q s"
  by (cases "n = 0")
    (auto simp: insert_part_def wp_simps intro!: insert_extent_wp [OF assms(1)] assms(2) tframe_refl)

lemma split_extent_wp:
  assumes xs: "extents buf = pre @ orig # post" "length pre = i" and other: "simplefs_ext_unwritten orig \<noteq> mark"
    and Q: "\<And>r buf' s'. tframe s s' \<Longrightarrow> leaf_blocks buf' = leaf_blocks buf \<Longrightarrow> (quiet E \<Longrightarrow> r = None) \<Longrightarrow>
      (r = None \<Longrightarrow> extents buf' = pre @ split_parts mark orig iblock map_len @ post) \<Longrightarrow> Q (r, buf') s'"
  shows "wp (split_extent E mark buf i iblock map_len) Q s"
proof -
  define h where "h = iblock - ee_block orig"
  define m where "m = min map_len (simplefs_ext_len orig - h)"
  define t where "t = simplefs_ext_len orig - h - m"
  define mid where "mid = orig\<lparr>ee_block := iblock, ee_start := ee_start orig + h, ee_len := m\<rparr>"
  define hd where "hd = simplefs_ext_init (ee_block orig) h (ee_start orig) (\<not> mark)"
  define tl where "tl = simplefs_ext_init (iblock + m) t (ee_start orig + h + m) (\<not> mark)"
  define hs where "hs = (if h \<noteq> 0 then [hd] else [])"
  define ts where "ts = (if t \<noteq> 0 then [tl] else [])"
  define j where "j = (if h \<noteq> 0 then Suc i else i)"
  note folds = h_def [symmetric] m_def [symmetric] t_def [symmetric] mid_def [symmetric] hd_def [symmetric]
    tl_def [symmetric] hs_def [symmetric] ts_def [symmetric] j_def [symmetric]
  have parts: "split_parts mark orig iblock map_len = hs @ [simplefs_ext_set_unwritten mid mark] @ ts"
    unfolding split_parts_def Let_def folds ..
  have j: "j = length (pre @ hs)" by (simp add: j_def hs_def xs)
  have second: "wp (insert_part E buf1 (Suc j) t tl) (\<lambda>p. wp (case p of (r, buf) \<Rightarrow>
      ret (if r \<noteq> None then (r, buf) else (None, buf\<lparr>extents := (extents buf)[j :=
        simplefs_ext_set_unwritten (extents buf ! j) mark]\<rparr>))) Q) s1"
    if s1: "tframe s s1" "leaf_blocks buf1 = leaf_blocks buf" "extents buf1 = (pre @ hs) @ mid # post" for buf1 s1
    by (rule insert_part_wp)
      (use s1 in \<open>auto simp: wp_simps j ts_def parts list_update_append intro!: Q dest: tframe_trans\<close>)
  have buf1: "(extents buf)[i := mid] = pre @ mid # post" by (simp add: xs list_update_append)
  have orig: "extents buf ! i = orig" "(simplefs_ext_unwritten orig = mark) = False" using other xs by auto
  show ?thesis
    unfolding split_extent_def Let_def orig if_False folds buf1 wp_bind
  proof (rule insert_part_wp, goal_cases)
    case (2 r buf1 s1)
    show ?case
      unfolding prod.case
      using Q [OF 2(1), of buf1 r] second [OF 2(1), of buf1] 2(2-4) xs
      by (cases "r = None") (simp_all add: wp_return wp_bind hs_def)
  qed (simp add: xs)
qed

section \<open>What a split does to the map\<close>

text \<open>The blocks of \<open>orig\<close> from \<open>iblock\<close> on that a split gives the new state.\<close>

definition split_len :: "simplefs_extent \<Rightarrow> u32 \<Rightarrow> u32 \<Rightarrow> nat" where
  "split_len orig iblock map_len =
     min (unat map_len) (unat (simplefs_ext_len orig) - (unat iblock - unat (ee_block orig)))"

lemma ext_len_raw: "ee_len e \<le> 8192 \<Longrightarrow> simplefs_ext_len e = ee_len e"
  by (auto simp: ext_len_take_bit take_bit_31_small not_less)

lemma split_arith:
  assumes "ext_ok orig" "covers orig (unat iblock)" and "h = iblock - ee_block orig"
    and "m = min map_len (simplefs_ext_len orig - h)" "t = simplefs_ext_len orig - h - m"
  shows "unat h = unat iblock - unat (ee_block orig)" "unat m = split_len orig iblock map_len"
    "unat t = unat (simplefs_ext_len orig) - unat h - unat m"
    "unat (iblock + m) = unat iblock + unat m" "unat (ee_start orig + h) = unat (ee_start orig) + unat h"
    "unat (ee_start orig + h + m) = unat (ee_start orig) + unat h + unat m"
    "unat h + unat m + unat t = unat (simplefs_ext_len orig)" "h \<le> 8192" "m \<le> 8192" "t \<le> 8192"
proof -
  have c: "unat (ee_block orig) \<le> unat iblock" "unat iblock < unat (ee_block orig) + unat (simplefs_ext_len orig)"
    using assms(2) by (simp_all add: covers_def)
  show h: "unat h = unat iblock - unat (ee_block orig)"
    unfolding assms(3) using c(1) by (simp add: unat_sub_le word_le_nat_alt)
  have "unat (simplefs_ext_len orig - h) = unat (simplefs_ext_len orig) - unat h"
    using c h by (simp add: unat_sub_le word_le_nat_alt)
  then show m: "unat m = split_len orig iblock map_len"
    using h by (auto simp: assms(4) split_len_def min_def word_le_nat_alt)
  have hm: "unat h + unat m \<le> unat (simplefs_ext_len orig)" using m c h by (simp add: split_len_def)
  have "h + m \<le> simplefs_ext_len orig"
    using hm unat_ext_len_le [of orig] by (simp add: word_le_nat_alt unat_add_no_wrap)
  then have "unat (simplefs_ext_len orig - (h + m)) = unat (simplefs_ext_len orig) - (unat h + unat m)"
    using hm unat_ext_len_le [of orig] by (simp add: unat_sub_le unat_add_no_wrap)
  then show t: "unat t = unat (simplefs_ext_len orig) - unat h - unat m"
    by (simp add: assms(5) diff_diff_eq)
  have "unat iblock + unat m < 2 ^ 32" using assms(1) c h hm unfolding ext_ok_def by linarith
  then show "unat (iblock + m) = unat iblock + unat m" by (simp add: unat_add_no_wrap)
  show sh: "unat (ee_start orig + h) = unat (ee_start orig) + unat h"
    using assms(1) hm by (simp add: unat_add_no_wrap ext_ok_def)
  show "unat (ee_start orig + h + m) = unat (ee_start orig) + unat h + unat m"
    using assms(1) hm sh by (simp add: unat_add_no_wrap [of "ee_start orig + h"] ext_ok_def)
  show sum: "unat h + unat m + unat t = unat (simplefs_ext_len orig)" using hm t by simp
  show "h \<le> 8192" "m \<le> 8192" "t \<le> 8192"
    using sum unat_ext_len_le [of orig] by (simp_all add: word_le_nat_alt)
qed

lemma split_parts_correct:
  assumes "ext_ok orig" "covers orig (unat iblock)" "0 < map_len" "simplefs_ext_unwritten orig \<noteq> mark"
  defines "ps \<equiv> split_parts mark orig iblock map_len"
  shows "normal ps"
    and "\<forall>e\<in>set ps. unat (ee_block orig) \<le> unat (ee_block e) \<and>
      unat (ee_block e) + unat (simplefs_ext_len e) \<le> unat (ee_block orig) + unat (simplefs_ext_len orig)"
    and "emap ps b = (if covers orig b then {(fst (target orig b),
      if unat iblock \<le> b \<and> b < unat iblock + split_len orig iblock map_len then mark
      else simplefs_ext_unwritten orig)} else {})"
proof -
  define h where "h = iblock - ee_block orig"
  define m where "m = min map_len (simplefs_ext_len orig - h)"
  define t where "t = simplefs_ext_len orig - h - m"
  note a = split_arith [OF assms(1,2) h_def m_def t_def]
  have c: "unat (ee_block orig) \<le> unat iblock" "unat iblock < unat (ee_block orig) + unat (simplefs_ext_len orig)"
    and ne: "ee_start orig \<noteq> 0" using assms(2) by (simp_all add: covers_def simplefs_extent_is_empty_def)
  have sz: "unat (ee_start orig) \<noteq> 0" using ne by (simp add: unat_eq_zero)
  have mp: "0 < unat m" using a(2) assms(3) c by (simp add: split_len_def word_less_nat_alt)
  define mid where "mid = simplefs_ext_set_unwritten (orig\<lparr>ee_block := iblock, ee_start := ee_start orig + h, ee_len := m\<rparr>) mark"
  have mid: "ee_block mid = iblock" "ee_start mid = ee_start orig + h" "simplefs_ext_len mid = m" "simplefs_ext_unwritten mid = mark"
    using a(9) by (simp_all add: mid_def ext_len_raw)
  define hs where "hs = simplefs_ext_init (ee_block orig) h (ee_start orig) (\<not> mark)"
  define ts where "ts = simplefs_ext_init (iblock + m) t (ee_start orig + h + m) (\<not> mark)"
  have hs: "ee_block hs = ee_block orig" "ee_start hs = ee_start orig" "simplefs_ext_len hs = h" "simplefs_ext_unwritten hs = (\<not> mark)"
    using a(8) by (simp_all add: hs_def)
  have ts: "ee_block ts = iblock + m" "ee_start ts = ee_start orig + h + m" "simplefs_ext_len ts = t" "simplefs_ext_unwritten ts = (\<not> mark)"
    using a(10) by (simp_all add: ts_def)
  have ps: "ps = (if h \<noteq> 0 then [hs] else []) @ [mid] @ (if t \<noteq> 0 then [ts] else [])"
    by (simp add: ps_def split_parts_def Let_def h_def m_def t_def mid_def hs_def ts_def)
  have ib: "unat iblock = unat (ee_block orig) + unat h" using a(1) c by simp
  note L = a(7) [symmetric]
  define p1 where "p1 = ee_start orig + h"
  define p2 where "p2 = ee_start orig + h + m"
  note u = a(4) [unfolded ib] a(5) [folded p1_def] a(6) [folded p2_def]
    mid [folded p1_def] hs ts [folded p2_def]
  have z: "h = 0 \<longleftrightarrow> unat h = 0" "t = 0 \<longleftrightarrow> unat t = 0" "m = 0 \<longleftrightarrow> unat m = 0" by (simp_all add: unat_eq_zero)
  have z2: "p1 \<noteq> 0" "p2 \<noteq> 0" using u(2,3) sz by (auto simp: word_unat_eq_iff)
  note ok = assms(1) [unfolded ext_ok_def L]
  show "\<forall>e\<in>set ps. unat (ee_block orig) \<le> unat (ee_block e) \<and>
      unat (ee_block e) + unat (simplefs_ext_len e) \<le> unat (ee_block orig) + unat (simplefs_ext_len orig)"
    using u by (auto simp: ps ib L)
  show "normal ps"
    using ok mp z(3) z2 ne by (simp add: ps normal_def ext_ok_def simplefs_extent_is_empty_def before_def u ib)
  have e: "\<not> simplefs_extent_is_empty mid" "h \<noteq> 0 \<Longrightarrow> \<not> simplefs_extent_is_empty hs" "t \<noteq> 0 \<Longrightarrow> \<not> simplefs_extent_is_empty ts"
    "\<not> simplefs_extent_is_empty orig"
    using z(3) z2 ne mp assms(2) by (auto simp: simplefs_extent_is_empty_def covers_def u)
  show "emap ps b = (if covers orig b then {(fst (target orig b),
      if unat iblock \<le> b \<and> b < unat iblock + split_len orig iblock map_len then mark
      else simplefs_ext_unwritten orig)} else {})"
    unfolding a(2) [symmetric]
    using e z(1,2) assms(4) by (auto simp: ps emap_append emap_Cons covers_def target_def u ib L)
qed

end
