(* ===== verification/SFS_SyncAlloc.thy ===== *)
theory SFS_SyncAlloc
  imports SFS_ExtentProps
begin

text \<open>
  Which blocks the synchronisation of an extent tree hands back to the allocator: only leaves of
  the old tree that the new one no longer has. So the blocks of the new tree, and every other block
  in use, stay allocated, and a synchronised file satisfies the conditions under which it can be
  synchronised again.
\<close>

section \<open>Only the blocks of a set become free\<close>

text \<open>The allocator never gives back block 0 or the root directory's block.\<close>

definition frees :: "nat set \<Rightarrow> kst \<Rightarrow> kst \<Rightarrow> bool" where
  "frees B s s' \<longleftrightarrow> geometry (sbi s') = geometry (sbi s) \<and> (\<not> bfree_bitmap (sbi s) 0 \<longrightarrow>
     (\<forall>i. bfree_bitmap (sbi s') i \<longrightarrow> bfree_bitmap (sbi s) i \<or>
        i \<in> B \<and> i \<noteq> 0 \<and> i \<noteq> unat (root_dir_block (sbi s))))"

interpretation ffr: frame "frees B" for B
proof unfold_locales
  fix s t u
  assume a: "frees B s t" "frees B t u"
  have "root_dir_block (sbi t) = root_dir_block (sbi s)" by (rule geometry_root) (use a(1) in \<open>simp add: frees_def\<close>)
  then show "frees B s u" using a unfolding frees_def by metis
qed (simp add: frees_def)

lemma keeps_same_frees: "(\<And>s s'. R s s' \<Longrightarrow> sbi s' = sbi s) \<Longrightarrow> keeps R m \<Longrightarrow> keeps (frees B) m"
  unfolding keeps_def frees_def by metis

lemma sframe_frees: "keeps sframe m \<Longrightarrow> keeps (frees B) m"
  by (rule keeps_same_frees [of sframe]) (rule sframe_sbi)

lemma jframe_frees: "keeps jframe m \<Longrightarrow> keeps (frees B) m"
  by (rule keeps_same_frees [of jframe]) (simp add: jframe_def)

lemma upd_inode_frees: "keeps (frees B) (upd_inode ino f)"
  by (auto simp: keeps_wp wp_simps frees_def)

lemma put_blocks_frees:
  assumes "{unat bno..<unat bno + unat len} \<subseteq> B"
  shows "keeps (frees B) (put_blocks E bno len)"
  unfolding keeps_wp
proof (intro allI, rule put_blocks_wp)
  fix s s' :: kst
  assume sh: "shrunk (gave E s bno len) (sbi s')"
  have "i \<noteq> 0 \<and> i \<noteq> unat (root_dir_block (sbi s))"
    if p: "puttable (sbi s) bno len" and i: "unat bno \<le> i" "i < unat bno + unat len" for i
  proof -
    have nb: "\<not> bad_range (sbi s) bno len" using p by (simp add: puttable_def)
    have "unat (bno + len) = unat bno + unat len"
      using le_less_trans [OF not_bad_range(3) [OF nb] unat_lt_u32] by (intro unat_add_no_wrap) simp
    then show ?thesis using p i not_bad_range(1) [OF nb] by (auto simp: puttable_def word_le_nat_alt word_less_nat_alt)
  qed
  moreover have "bfree_bitmap (sbi s') = bfree_bitmap (gave E s bno len)" "geometry (sbi s') = geometry (sbi s)"
    using sh by (auto simp: shrunk_def geometry_def gave_def give_sb_def)
  ultimately show "frees B s s'"
    using assms by (auto simp: frees_def gave_def give_sb_def bm_set_def split: if_splits)
qed

lemmas frees_rules = ffr.keeps_return ffr.keeps_gets ffr.keeps_bind ffr.keeps_when ffr.keeps_then
  keeps_if keeps_option keeps_sum keeps_prod upd_inode_frees
  sframe_frees [OF set_cache_sframe] jframe_frees [OF start_sb_jframe] jframe_frees [OF start_jframe]
  jframe_frees [OF stop_jframe] jframe_frees [OF has_current_jframe] jframe_frees [OF ext_jframe]
  jframe_frees [OF ask_jframe] jframe_frees [OF note_call_jframe] jframe_frees [OF dirty_folio_jframe]
  jframe_frees [OF get_folio_jframe] jframe_frees [OF read_metadata_jframe] jframe_frees [OF forget_current_jframe]
  sframe_frees [OF get_zeroed_folio_sframe]

lemma unat_eq: "unat a = unat b \<Longrightarrow> a = b"
  by (rule unsigned_word_eqI)

lemma get_free_blocks_frees: "keeps (frees B) (get_free_blocks E len)"
  unfolding keeps_wp
proof (intro allI)
  fix s
  show "wp (get_free_blocks E len) (\<lambda>_. frees B s) s"
  proof (cases "bfree_bitmap (sbi s) 0")
    case False
    then show ?thesis
      by (rule get_free_blocks_wp)
        (auto simp: took_def frees_def take_sb_def bm_clear_def geometry_def split: if_splits)
  next
    case True
    then show ?thesis
      by (intro wp_frame [OF get_free_blocks_oframe]) (simp add: frees_def oframe_def)
  qed
qed

lemma alloc_leaves_frees: "keeps (frees B) (alloc_leaves E k)"
proof (induction k)
  case (Suc k)
  show ?case unfolding alloc_leaves.simps by (intro frees_rules get_free_blocks_frees Suc)
qed (simp, intro frees_rules)

lemma forget_blocks_frees: "keeps (frees B) (forget_blocks E b n)"
proof (induction n arbitrary: b)
  case (Suc n)
  show ?case unfolding forget_blocks.simps by (intro frees_rules Suc)
qed (simp, intro frees_rules)

lemma retire_frees:
  assumes "{unat bno..<unat bno + unat len} \<subseteq> B"
  shows "keeps (frees B) (simplefs_retire_metadata_blocks E bno len)"
  unfolding simplefs_retire_metadata_blocks_def retire_with_handle_def
  by (intro frees_rules forget_blocks_frees put_blocks_frees [OF assms])

lemma retire_each_frees: "unat ` set ls \<subseteq> B \<Longrightarrow> keeps (frees B) (retire_each E ls)"
proof (induction ls)
  case (Cons l ls)
  then show ?case
    unfolding retire_each.simps by (intro frees_rules retire_frees) auto
qed (simp, intro frees_rules)

lemma sync_leaves_frees: "keeps (frees B) (sync_leaves E xs n ils ch)"
proof (induction ils arbitrary: ch)
  case (Cons il ils)
  show ?case
    by (cases il) (simp only: sync_leaves.simps Let_def, intro frees_rules Cons)
qed (simp, intro frees_rules)

lemma writeback_frees: "keeps (frees B) (writeback_blocks E ls)"
proof (induction ls)
  case (Cons l ls)
  show ?case
    unfolding writeback_blocks.simps simplefs_writeback_metadata_block_def by (intro frees_rules Cons)
qed (simp, intro frees_rules)

lemma sync_tree_frees:
  "unat ` set (drop (length new) old) \<subseteq> B \<Longrightarrow> keeps (frees B) (sync_tree E xs root new old)"
  unfolding sync_tree_def sync_root_def simplefs_writeback_metadata_block_def
  by (intro frees_rules sync_leaves_frees writeback_frees retire_each_frees)

lemma finish_ok_frees: "keeps (frees B) (sync_finish E ino buf n old fresh h (None, ch))"
  unfolding sync_finish_def prod.case option.case by (intro frees_rules)

section \<open>The blocks in use after a synchronisation\<close>

text \<open>
  After a success with the leaves \<open>ls\<close> the tree's blocks are different and in use, a leaf that was
  not one of the old ones was free before, and a block is free only when it was before or is an old
  leaf that is no longer one.
\<close>

definition blocks_after :: "u32 \<Rightarrow> u32 list \<Rightarrow> kst \<Rightarrow> u32 list \<Rightarrow> kst \<Rightarrow> bool" where
  "blocks_after root old s ls s' \<longleftrightarrow> distinct (root # ls) \<and>
     (\<forall>l\<in>set (root # ls). root_dir_block (sbi s) \<le> l \<and> \<not> bfree_bitmap (sbi s') (unat l)) \<and>
     unat ` (set ls - set old) \<subseteq> free_blocks s \<and>
     (\<forall>i. bfree_bitmap (sbi s') i \<longrightarrow> bfree_bitmap (sbi s) i \<or> 
       i \<in> unat ` (set old - set ls) \<and> i \<noteq> unat (root_dir_block (sbi s)))"

lemma blocks_after_tree:
  assumes meta: "meta_ok (sbi s2) ((root # old) @ fresh)" "root_dir_block (sbi s2) = root_dir_block (sbi s)"
    and fresh: "unat ` set fresh \<subseteq> free_blocks s" "\<And>i. bfree_bitmap (sbi s2) i \<Longrightarrow> bfree_bitmap (sbi s) i"
    and fr: "frees (unat ` set (drop n old)) s2 s'"
  shows "blocks_after root old s (take n old @ fresh) s'"
proof -
  have d: "distinct ((root # old) @ fresh)" using meta(1) by (simp add: meta_ok_def)
  have dr: "set (drop n old) \<inter> set (take n old @ fresh) = {}" "root \<notin> set (drop n old)"
    using d by (auto dest: in_set_dropD) (metis IntI distinct_append append_take_drop_id empty_iff)
  have "unat l \<notin> unat ` set (drop n old)" if "l \<in> set (root # take n old @ fresh)" for l
    using that dr by (auto dest!: unat_eq)
  moreover have "\<not> bfree_bitmap (sbi s2) (unat l)" "root_dir_block (sbi s) \<le> l"
    if "l \<in> set (root # take n old @ fresh)" for l
    using that meta by (auto simp: meta_ok_def dest: in_set_takeD)
  ultimately have use: "root_dir_block (sbi s) \<le> l \<and> \<not> bfree_bitmap (sbi s') (unat l)"
    if "l \<in> set (root # take n old @ fresh)" for l
    using fr meta_ok_zero [OF meta(1)] that unfolding frees_def by blast
  have "bfree_bitmap (sbi s) i \<or> i \<in> unat ` (set old - set (take n old @ fresh)) \<and> i \<noteq> unat (root_dir_block (sbi s))" if "bfree_bitmap (sbi s') i" for i
  proof -
    have "bfree_bitmap (sbi s2) i \<or> i \<in> unat ` set (drop n old) \<and> i \<noteq> unat (root_dir_block (sbi s))"
      unfolding meta(2) [symmetric] using fr meta_ok_zero [OF meta(1)] that unfolding frees_def by blast
    moreover have "set (drop n old) \<subseteq> set old - set (take n old @ fresh)"
      using dr(1) by (auto dest: in_set_dropD)
    ultimately show ?thesis using fresh(2) by blast
  qed
  then show ?thesis
    using use d fresh(1) unfolding blocks_after_def by (auto dest: in_set_takeD)
qed

lemma finish_keeps_error: "wp (sync_finish E ino b n old fresh h (Some e, ch)) (\<lambda>p _. fst p = Some e) s"
  by (simp add: sync_finish_def wp_def split_beta)

lemma tree_blocks_wp:
  assumes s2: "meta_ok (sbi s2) ((root # old) @ fresh)" "root_dir_block (sbi s2) = root_dir_block (sbi s)"
      "unat ` set fresh \<subseteq> free_blocks s" "\<And>i. bfree_bitmap (sbi s2) i \<Longrightarrow> bfree_bitmap (sbi s) i"
    and n: "ok \<Longrightarrow> length fresh = n - length old"
  shows "wp (do {
      p \<leftarrow> (if \<not> ok then ret (Some ENOSPC, False) else sync_tree E xs root (take n old @ fresh) old);
      sync_finish E ino buf n old fresh h p })
    (\<lambda>p s'. fst p = None \<longrightarrow> blocks_after root old s (leaf_blocks (snd p)) s') s2" (is "wp _ ?Q _")
proof -
  let ?B = "unat ` set (drop n old)"
  have "wp (sync_finish E ino buf n old fresh h p) ?Q s3" if f: "frees ?B s2 s3" for p s3
  proof (cases p)
    case (Pair r ch)
    have "wp (sync_finish E ino buf n old fresh h (None, ch)) (\<lambda>p s'. leaf_blocks (snd p) = take n old @ fresh) s3"
      by (simp add: sync_finish_def wp_def split_beta)
    from wp_keeps [OF finish_ok_frees this] have "wp (sync_finish E ino buf n old fresh h (None, ch)) ?Q s3"
      by (rule wp_mono) (auto intro!: blocks_after_tree [OF s2] ffr.trans [OF f])
    then show ?thesis
      unfolding Pair by (cases r) (simp, simp, rule wp_mono [OF finish_keeps_error], simp)
  qed
  moreover have "unat ` set (drop (length (take n old @ fresh)) old) \<subseteq> ?B" if ok
    using n [OF that] by (cases "n \<le> length old") auto
  ultimately show ?thesis
    unfolding wp_bind
    by (cases ok) (simp_all add: wp_return ffr.refl wp_frame [OF sync_tree_frees [where B = ?B]])
qed

lemma alloc_blocks_wp:
  assumes meta: "meta_ok (sbi s) (ei_block (inodes s ino) # old)" and s1: "jframe s s1"
  shows "wp (do {
      (ok, fresh) \<leftarrow> alloc_leaves E (n - length old);
      root \<leftarrow> gets (\<lambda>s. ei_block (inodes s ino));
      p \<leftarrow> (if \<not> ok then ret (Some ENOSPC, False) else sync_tree E xs root (take n old @ fresh) old);
      sync_finish E ino buf n old fresh h p })
    (\<lambda>p s'. fst p = None \<longrightarrow> blocks_after (ei_block (inodes s ino)) old s (leaf_blocks (snd p)) s') s1"
  (is "wp _ ?Q _")
  unfolding wp_bind [of "alloc_leaves E (n - length old)"]
proof (rule wp_mono [OF wp_keeps [OF alloc_leaves_frees [where B = "{}"] alloc_leaves_spec [of _ "ei_block (inodes s ino) # old"]]])
  have sb: "sbi s1 = sbi s" and ino: "inodes s1 = inodes s" using s1 by (simp_all add: jframe_def)
  show "meta_ok (sbi s1) (ei_block (inodes s ino) # old)" using meta sb by simp
  fix p :: "bool \<times> u32 list" and s2
  assume a0: "frees {} s1 s2 \<and> (case p of (ok, fresh) \<Rightarrow> \<lambda>s'. aframe s1 s' \<and> oframe s1 s' \<and>
    meta_ok (sbi s') ((ei_block (inodes s ino) # old) @ fresh) \<and> (ok \<longrightarrow> length fresh = n - length old) \<and>
    unat ` set fresh \<subseteq> free_blocks s1 \<and> free_blocks s' \<subseteq> free_blocks s1 - unat ` set fresh) s2"
  obtain ok fresh where p: "p = (ok, fresh)" by fastforce
  note a = a0 [unfolded p prod.case]
  have rd: "root_dir_block (sbi s2) = root_dir_block (sbi s)"
    using a sb geometry_root [OF oframe_geometry, of s1 s2] by simp
  have root: "ei_block (inodes s2 ino) = ei_block (inodes s ino)" using a ino by (simp add: aframe_def)
  have old: "bfree_bitmap (sbi s) i" if "bfree_bitmap (sbi s2) i" for i
    using a that meta_ok_zero [OF meta] sb by (auto simp: frees_def)
  show "wp (case p of (ok, fresh) \<Rightarrow> do {
      root \<leftarrow> gets (\<lambda>s. ei_block (inodes s ino));
      p \<leftarrow> (if \<not> ok then ret (Some ENOSPC, False)
         else sync_tree E xs root (take (n) old @ fresh) old);
      sync_finish E ino buf (n) old fresh h p }) ?Q s2"
    unfolding p prod.case wp_bind [of "gets f" for f] wp_gets root
    by (rule tree_blocks_wp [OF _ rd _ old]) (use a sb in \<open>simp_all add: free_blocks_def\<close>)
qed

lemma sync_blocks_spec:
  assumes meta: "meta_ok (sbi s) (ei_block (inodes s ino) # leaf_blocks buf)"
  shows "wp (simplefs_file_sync_extents E ino buf) (\<lambda>p s'. fst p = None \<longrightarrow>
    blocks_after (ei_block (inodes s ino)) (leaf_blocks buf) s (leaf_blocks (snd p)) s') s"
proof -
  let ?bufn = "simplefs_file_normalize_extents buf" and ?old = "leaf_blocks buf"
  let ?xs = "extents ?bufn" and ?root = "ei_block (inodes s ino)"
  let ?Q = "\<lambda>p s'. fst p = None \<longrightarrow> blocks_after ?root ?old s (leaf_blocks (snd p)) s'"
  define K where "K k = do {
    handle \<leftarrow> simplefs_journal_start_sb E k;
    (case handle of
      Inl e \<Rightarrow> ret (Some e, ?bufn)
    | Inr h \<Rightarrow> do {
        (ok, fresh) \<leftarrow> alloc_leaves E (leaf_count ?xs - length ?old);
        root \<leftarrow> gets (\<lambda>s. ei_block (inodes s ino));
        p \<leftarrow> (if \<not> ok then ret (Some ENOSPC, False)
           else sync_tree E ?xs root (take (leaf_count ?xs) ?old @ fresh) ?old);
        sync_finish E ino ?bufn (leaf_count ?xs) ?old fresh h p }) }" for k
  have K: "wp (K k) ?Q s0" if "jframe s s0" for k s0
    unfolding K_def wp_bind [of "simplefs_journal_start_sb E k"]
  proof (rule wp_frame [OF start_sb_jframe])
    fix r s1
    assume "jframe s0 s1"
    then have "jframe s s1" using jframe_trans that by blast
    from alloc_blocks_wp [OF meta this, of E "leaf_count ?xs" ?xs ?bufn] show "wp (case r of Inl e \<Rightarrow> ret (Some e, ?bufn) | Inr h \<Rightarrow> do {
        (ok, fresh) \<leftarrow> alloc_leaves E (leaf_count ?xs - length ?old);
        root \<leftarrow> gets (\<lambda>s. ei_block (inodes s ino));
        p \<leftarrow> (if \<not> ok then ret (Some ENOSPC, False)
           else sync_tree E ?xs root (take (leaf_count ?xs) ?old @ fresh) ?old);
        sync_finish E ino ?bufn (leaf_count ?xs) ?old fresh h p }) ?Q s1"
      by (cases r) (simp_all only: sum.case wp_return fst_conv option.distinct simp_thms)
  qed
  show ?thesis
    unfolding simplefs_file_sync_extents_def Let_def K_def [symmetric]
    by (simp add: wp_bind wp_return wp_ext K jframe_def)
qed

lemma blocks_after_meta:
  assumes "blocks_after root old s ls s'" "meta_ok (sbi s) (root # old)" "geometry (sbi s') = geometry (sbi s)"
  shows "meta_ok (sbi s') (root # ls)"
proof -
  have g: "geom_ok (sbi s')" "root_dir_block (sbi s') = root_dir_block (sbi s)"
    using assms(2) geometry_ok [OF assms(3)] geometry_root [OF assms(3)] by (simp_all add: meta_ok_def)
  have "\<not> bfree_bitmap (sbi s') k" if k: "k \<le> unat (root_dir_block (sbi s))" for k
  proof
    assume "bfree_bitmap (sbi s') k"
    moreover have "\<not> bfree_bitmap (sbi s) k" using assms(2) k by (simp add: meta_ok_def)
    ultimately obtain b where "b \<in> set old" "k = unat b" "k \<noteq> unat (root_dir_block (sbi s))"
      using assms(1) unfolding blocks_after_def by blast
    then show False using assms(2) k by (auto simp: meta_ok_def word_le_nat_alt)
  qed
  then show ?thesis using assms(1) g by (simp add: blocks_after_def meta_ok_def)
qed

end
