(* ===== verification/SFS_GetBlock.thy ===== *)
theory SFS_GetBlock
  imports SFS_FileMap SFS_SyncAlloc
begin

text \<open>
  Functions of \<open>simplefs_file.c\<close> that load the extents of a file, change them and write them back:
  \<open>simplefs_get_block\<close>, the conversion of written ranges, and the unwritten ranges of
  \<open>FALLOC_FL_ZERO_RANGE\<close>. Logical block numbers are 32 bits wide except in \<open>simplefs_get_block\<close>, whose
  \<open>sector_t\<close> argument is checked before it is narrowed.
\<close>

section \<open>Allocation with halving\<close>

text \<open>
  \<open>bno = get_free_blocks(sbi, len); while (!bno \&\& len > 1) ...\<close>: the block and the length obtained.
\<close>

function get_free_blocks_halving :: "env \<Rightarrow> u32 \<Rightarrow> (kst, u32 \<times> u32) state" where
  "get_free_blocks_halving E alloc_len = do {
     bno \<leftarrow> get_free_blocks E alloc_len;
     if bno = 0 \<and> alloc_len > 1 then get_free_blocks_halving E (alloc_len div 2) else ret (bno, alloc_len)
   }"
  by pat_completeness auto
termination
  by (relation "measure (\<lambda>(E, len). unat len)")
    (auto simp: word_less_nat_alt unat_div)

declare get_free_blocks_halving.simps [simp del]

section \<open>Mapping a block\<close>

text \<open>
  What \<open>simplefs_get_block\<close> returns on success: the number of blocks mapped, and what it stores through
  \<open>bno_res\<close>, \<open>new\<close> and \<open>unwritten\<close>. A hole is a count of 0; \<open>*bno_res\<close> is then not written and
  its callers do not use it.
\<close>

record block_map =
  gb_count :: u32
  gb_bno :: u32
  gb_new :: bool
  gb_unwritten :: bool

text \<open>
  The previous extent is extended in place, once the blocks after it have been taken.
\<close>

definition grow_taken :: "env \<Rightarrow> u32 \<Rightarrow> bool \<Rightarrow> bool \<Rightarrow> simplefs_extent_buffer \<Rightarrow> nat \<Rightarrow> u32
    \<Rightarrow> (kst, errno + block_map) state" where
  "grow_taken E ino exact_alloc create_unwritten buf prev grow_len = do {
     let p = extents buf ! prev;
     let ext_len = simplefs_ext_len p;
     let grow_start = ee_start p + ext_len;
     zeroed \<leftarrow> (if exact_alloc then ext E (Blkdev_issue_zeroout grow_start grow_len) else ret None);
     (case zeroed of
        Some e \<Rightarrow> do { put_blocks E grow_start grow_len; ret (Inl e) }
      | None \<Rightarrow> do {
          let buf = buf\<lparr>extents := (extents buf)[prev := simplefs_ext_set_len p (ext_len + grow_len)]\<rparr>;
          upd_inode ino (\<lambda>i. i\<lparr>i_blocks := i_blocks i + simplefs_blocks_to_sectors (ucast grow_len)\<rparr>);
          (r, buf) \<leftarrow> simplefs_file_sync_extents E ino buf;
          ret (case r of Some e \<Rightarrow> Inl e
             | None \<Rightarrow> Inr \<lparr>gb_count = grow_len, gb_bno = grow_start, gb_new = True,
                 gb_unwritten = create_unwritten\<rparr>)
        })
   }"

text \<open>
  The loop that tries ever shorter extensions. \<open>None\<close> is its end without a result, after which a new
  extent is allocated.
\<close>

function grow_prev :: "env \<Rightarrow> u32 \<Rightarrow> bool \<Rightarrow> bool \<Rightarrow> simplefs_extent_buffer \<Rightarrow> nat \<Rightarrow> u32
    \<Rightarrow> (kst, (errno + block_map) option) state" where
  "grow_prev E ino exact_alloc create_unwritten buf prev grow_len =
     (if grow_len = 0 then ret None
      else do {
        let p = extents buf ! prev;
        taken \<leftarrow> simplefs_take_exact_blocks E (ee_start p + simplefs_ext_len p) grow_len;
        if taken then do {
          res \<leftarrow> grow_taken E ino exact_alloc create_unwritten buf prev grow_len;
          ret (Some res)
        } else grow_prev E ino exact_alloc create_unwritten buf prev (grow_len div 2)
      })"
  by pat_completeness auto
termination
  by (relation "measure (\<lambda>(E, ino, x, c, buf, prev, n). unat n)")
    (auto simp: unat_div unat_gt_0)

declare grow_prev.simps [simp del]

text \<open>The allocation of a new extent, from \<open>bno = get_free_blocks(sbi, alloc_len)\<close> on.\<close>

definition alloc_extent :: "env \<Rightarrow> u32 \<Rightarrow> bool \<Rightarrow> bool \<Rightarrow> simplefs_extent_buffer \<Rightarrow> nat \<Rightarrow> u32 \<Rightarrow> u32
    \<Rightarrow> (kst, errno + block_map) state" where
  "alloc_extent E ino exact_alloc create_unwritten buf insert_idx iblock alloc_len = do {
     (bno, alloc_len) \<leftarrow> get_free_blocks_halving E alloc_len;
     if bno = 0 then ret (Inl ENOSPC)
     else do {
       when_true exact_alloc (note_call (Blkdev_issue_zeroout bno alloc_len));
       (r, buf) \<leftarrow> simplefs_file_insert_extent E buf insert_idx
                      (simplefs_ext_init iblock alloc_len bno create_unwritten);
       (case r of
          Some e \<Rightarrow> do { put_blocks E bno alloc_len; ret (Inl e) }
        | None \<Rightarrow> do {
            upd_inode ino (\<lambda>i. i\<lparr>i_blocks := i_blocks i + simplefs_blocks_to_sectors (ucast alloc_len)\<rparr>);
            (r, buf) \<leftarrow> simplefs_file_sync_extents E ino buf;
            (case r of
               Some e \<Rightarrow> do { put_blocks E bno alloc_len; ret (Inl e) }
             | None \<Rightarrow> ret (Inr \<lparr>gb_count = alloc_len, gb_bno = bno, gb_new = True,
                 gb_unwritten = create_unwritten\<rparr>))
          })
     }
   }"

text \<open>
  How many blocks may be allocated at \<open>iblock\<close> without reaching the next extent. The sum is one of
  64-bit numbers in the sources and does not wrap.
\<close>

definition room_at :: "simplefs_extent_buffer \<Rightarrow> nat \<Rightarrow> u32 \<Rightarrow> u32 \<Rightarrow> u32" where
  "room_at buf insert_idx iblock alloc_len =
     (if insert_idx < length (extents buf) \<and>
         unat (ee_block (extents buf ! insert_idx)) < unat iblock + unat alloc_len
      then ee_block (extents buf ! insert_idx) - iblock else alloc_len)"

text \<open>Can the extent before \<open>insert_idx\<close> be extended?\<close>

definition prev_extends :: "simplefs_extent_buffer \<Rightarrow> nat \<Rightarrow> u32 \<Rightarrow> bool \<Rightarrow> bool" where
  "prev_extends buf insert_idx iblock create_unwritten \<longleftrightarrow> insert_idx > 0 \<and>
     (let prev = extents buf ! (insert_idx - 1) in
      \<not> simplefs_extent_is_empty prev \<and> simplefs_ext_unwritten prev = create_unwritten \<and>
      simplefs_ext_end prev = iblock \<and> simplefs_ext_len prev < SIMPLEFS_MAX_BLOCKS_PER_EXTENT)"

definition get_block_hole :: "env \<Rightarrow> u32 \<Rightarrow> bool \<Rightarrow> bool \<Rightarrow> simplefs_extent_buffer \<Rightarrow> nat \<Rightarrow> u32 \<Rightarrow> u64
    \<Rightarrow> (kst, errno + block_map) state" where
  "get_block_hole E ino exact_alloc create_unwritten buf insert_idx iblock maxblocks = do {
     let alloc_len = room_at buf insert_idx iblock (min (ucast maxblocks) SIMPLEFS_MAX_BLOCKS_PER_EXTENT);
     grown \<leftarrow> (if prev_extends buf insert_idx iblock create_unwritten
        then grow_prev E ino exact_alloc create_unwritten buf (insert_idx - 1)
               (min alloc_len (SIMPLEFS_MAX_BLOCKS_PER_EXTENT -
                  simplefs_ext_len (extents buf ! (insert_idx - 1))))
        else ret None);
     (case grown of
        Some res \<Rightarrow> ret res
      | None \<Rightarrow> alloc_extent E ino exact_alloc create_unwritten buf insert_idx iblock alloc_len)
   }"

definition mapped_at :: "simplefs_extent \<Rightarrow> u32 \<Rightarrow> block_map" where
  "mapped_at mapped iblock = \<lparr>gb_count = simplefs_ext_len mapped - (iblock - ee_block mapped),
     gb_bno = ee_start mapped + iblock - ee_block mapped, gb_new = False,
     gb_unwritten = simplefs_ext_unwritten mapped\<rparr>"

definition get_block_mapped :: "env \<Rightarrow> u32 \<Rightarrow> bool \<Rightarrow> simplefs_extent_buffer \<Rightarrow> nat \<Rightarrow> u32 \<Rightarrow> u64
    \<Rightarrow> (kst, errno + block_map) state" where
  "get_block_mapped E ino convert buf extent_idx iblock maxblocks =
     (if convert \<and> simplefs_ext_unwritten (extents buf ! extent_idx) then do {
        (r, buf) \<leftarrow> simplefs_convert_unwritten_extent E buf extent_idx iblock (ucast maxblocks);
        (case r of
           Some e \<Rightarrow> ret (Inl e)
         | None \<Rightarrow> do {
             (r, buf) \<leftarrow> simplefs_file_sync_extents E ino buf;
             (case r of
                Some e \<Rightarrow> ret (Inl e)
              | None \<Rightarrow> ret (Inr (mapped_at (extents buf ! snd (simplefs_file_find_extent buf iblock)) iblock)))
           })
      } else ret (Inr (mapped_at (extents buf ! extent_idx) iblock)))"

definition simplefs_get_block :: "env \<Rightarrow> u32 \<Rightarrow> u64 \<Rightarrow> u64 \<Rightarrow> bool \<Rightarrow> bool \<Rightarrow> bool \<Rightarrow> bool
    \<Rightarrow> (kst, errno + block_map) state" where
  "simplefs_get_block E ino iblock maxblocks create exact_alloc create_unwritten convert_unwritten =
     (if unat iblock \<ge> unat SIMPLEFS_MAX_BLOCKS_PER_EXTENT * SIMPLEFS_MAX_FILE_EXTENTS then ret (Inl EFBIG)
      else do {
        root \<leftarrow> gets (\<lambda>s. ei_block (inodes s ino));
        (r, buf) \<leftarrow> simplefs_file_load_extents E root;
        (case r of
           Some e \<Rightarrow> ret (Inl e)
         | None \<Rightarrow> do {
             let iblock = (ucast iblock :: u32);
             let (found, idx) = simplefs_file_find_extent buf iblock;
             if found then get_block_mapped E ino (create \<and> convert_unwritten) buf idx iblock maxblocks
             else if \<not> create then ret (Inr \<lparr>gb_count = 0, gb_bno = 0, gb_new = False, gb_unwritten = False\<rparr>)
             else get_block_hole E ino exact_alloc create_unwritten buf idx iblock maxblocks
           })
      })"

section \<open>What the allocation loops leave\<close>

text \<open>
  From \<open>s\<close> to \<open>s'\<close> blocks may have been taken, no metadata block among them; \<open>claimed\<close> says
  that the run of \<open>n\<close> blocks at \<open>r\<close> is one of them.
\<close>

definition taking :: "kst \<Rightarrow> kst \<Rightarrow> bool" where
  "taking s s' \<longleftrightarrow> aframe s s' \<and> oframe s s' \<and> free_blocks s' \<subseteq> free_blocks s \<and>
     (\<forall>bs. meta_ok (sbi s) bs \<longrightarrow> meta_ok (sbi s') bs)"

definition claimed :: "kst \<Rightarrow> u32 \<Rightarrow> u32 \<Rightarrow> bool" where
  "claimed s r n \<longleftrightarrow> r \<noteq> 0 \<and> 0 < unat n \<and> unat r + unat n < 2 ^ 32 \<and> {unat r..<unat r + unat n} \<subseteq> free_blocks s"

lemma taking_refl: "taking s s"
  by (simp add: taking_def afr.refl oframe_refl)

lemma taking_trans: "taking s t \<Longrightarrow> taking t u \<Longrightarrow> taking s u"
  unfolding taking_def by (auto intro: afr.trans oframe_trans)

lemma claimed_mono: "claimed t r n \<Longrightarrow> free_blocks t \<subseteq> free_blocks s \<Longrightarrow> claimed s r n"
  by (auto simp: claimed_def)

lemma meta_ok_take_run:
  assumes "meta_ok sb bs" "free_run sb q n"
  shows "meta_ok (take_sb sb q n) bs"
proof -
  have "geom_ok (take_sb sb q n) = geom_ok sb" "root_dir_block (take_sb sb q n) = root_dir_block sb"
    by (simp_all add: geom_ok_def root_dir_block_def take_sb_def)
  then show ?thesis using assms(1) by (auto simp: meta_ok_def) (auto simp: take_sb_def bm_clear_def)
qed

lemma free_run_claimed:
  assumes "free_run (sbi s) q n" "r = of_nat q"
  shows "claimed s r n"
proof -
  have "q + unat n < 4294967296"
    using assms(1) unat_lt_u32 [of "nr_blocks (sbi s)"] unfolding free_run_def by linarith
  then show ?thesis
    using assms free_run_unat [OF assms(1)] by (auto simp: claimed_def free_run_def bm_all_iff free_blocks_def)
qed

lemma take_sb_taking:
  "aframe s s' \<Longrightarrow> oframe s s' \<Longrightarrow> free_run (sbi s) q n \<Longrightarrow> sbi s' = take_sb (sbi s) q n \<Longrightarrow> taking s s'"
  unfolding taking_def using meta_ok_take_run free_blocks_take [of s' s q n] by auto

lemma same_sbi_taking: "aframe s s' \<Longrightarrow> oframe s s' \<Longrightarrow> sbi s' = sbi s \<Longrightarrow> taking s s'"
  by (simp add: taking_def free_blocks_def)

lemma took_taking:
  assumes "aframe s s'" "oframe s s'" "took s n r s'"
  shows "taking s s'" "r \<noteq> 0 \<Longrightarrow> claimed s r n"
  using assms free_run_claimed by (auto simp: took_def intro: take_sb_taking same_sbi_taking)

lemma halving_wp:
  assumes "meta_ok (sbi s) bs"
    and "\<And>r n s'. taking s s' \<Longrightarrow> n \<le> len \<Longrightarrow> (r \<noteq> 0 \<Longrightarrow> claimed s r n) \<Longrightarrow> Q (r, n) s'"
  shows "wp (get_free_blocks_halving E len) Q s"
  using assms
proof (induction E len arbitrary: s rule: get_free_blocks_halving.induct)
  case (1 E len)
  show ?case
    unfolding get_free_blocks_halving.simps [of E len] wp_bind
  proof (rule get_free_blocks_wp [OF meta_ok_zero [OF 1(2)]])
    fix r s1
    assume s1: "aframe s s1" "oframe s s1" "took s len r s1"
    note t = took_taking [OF s1]
    have le: "len div 2 \<le> len" by (simp add: word_le_nat_alt unat_div)
    show "wp (if r = 0 \<and> 1 < len then get_free_blocks_halving E (len div 2) else ret (r, len)) Q s1"
    proof (cases "r = 0 \<and> 1 < len")
      case True
      have "wp (get_free_blocks_halving E (len div 2)) Q s1"
      proof (rule 1(1) [OF True])
        show "meta_ok (sbi s1) bs" using t(1) 1(2) by (simp add: taking_def)
        show "Q (r', n) s2" if "taking s1 s2" "n \<le> len div 2" "r' \<noteq> 0 \<Longrightarrow> claimed s1 r' n" for r' n s2
          using 1(3) [OF taking_trans [OF t(1) that(1)] order_trans [OF that(2) le]] that(3) t(1)
            claimed_mono [of s1 r' n s] by (simp add: taking_def)
      qed
      then show ?thesis using True by simp
    next
      case False
      show ?thesis
        unfolding if_not_P [OF False] wp_return by (rule 1(3) [OF t(1) order_refl t(2)])
    qed
  qed
qed

lemma take_exact_wp:
  assumes "\<And>ok s'. taking s s' \<Longrightarrow> (ok \<Longrightarrow> claimed s b n) \<Longrightarrow> Q ok s'"
  shows "wp (simplefs_take_exact_blocks E b n) Q s"
proof (rule wp_mono [OF wp_conj [OF take_exact_spec take_exact_oframe [unfolded keeps_wp, rule_format]]], elim conjE)
  fix ok s'
  assume s': "aframe s s'" "took_exact s b n ok s'" "oframe s s'"
  have "claimed s b n" if "free_run (sbi s) (unat b) n" using free_run_claimed [OF that] by simp
  then show "Q ok s'"
    using s' by (intro assms) (auto simp: took_exact_def intro: take_sb_taking same_sbi_taking)
qed

section \<open>Extents in a gap\<close>

text \<open>
  \<open>xs'\<close> maps what \<open>m\<close> says from logical block \<open>ib\<close> on and is the map of \<open>xs\<close> elsewhere;
  blocks that are not new keep their place, and new ones were not mapped.
\<close>

definition block_mapped :: "simplefs_extent list \<Rightarrow> nat \<Rightarrow> block_map \<Rightarrow> simplefs_extent list \<Rightarrow> bool" where
  "block_mapped xs ib m xs' \<longleftrightarrow> (\<forall>b. emap xs' b =
       (if ib \<le> b \<and> b < ib + unat (gb_count m) then {(unat (gb_bno m) + (b - ib), gb_unwritten m)} else emap xs b)) \<and>
     (\<forall>b. ib \<le> b \<longrightarrow> b < ib + unat (gb_count m) \<longrightarrow>
       fst ` emap xs b = (if gb_new m then {} else {unat (gb_bno m) + (b - ib)}))"

definition gap :: "simplefs_extent list \<Rightarrow> nat \<Rightarrow> nat \<Rightarrow> nat \<Rightarrow> bool" where
  "gap xs i ib n \<longleftrightarrow> i \<le> length xs \<and>
     (\<forall>e\<in>set (take i xs). unat (ee_block e) + unat (simplefs_ext_len e) \<le> ib) \<and>
     (\<forall>e\<in>set (drop i xs). ib + n \<le> unat (ee_block e))"

lemma normal_append:
  "normal (xs @ ys) \<longleftrightarrow> normal xs \<and> normal ys \<and> (\<forall>e\<in>set xs. \<forall>f\<in>set ys. before e f)"
  by (auto simp: normal_def sorted_wrt_append)

lemma normal_Cons:
  "normal (e # xs) \<longleftrightarrow> ext_ok e \<and> \<not> simplefs_extent_is_empty e \<and> normal xs \<and> (\<forall>f\<in>set xs. before e f)"
  by (auto simp: normal_def)

lemma gap_mono: "gap xs i ib n \<Longrightarrow> m \<le> n \<Longrightarrow> gap xs i ib m"
  by (fastforce simp: gap_def)

lemma gap_emap:
  assumes "gap xs i ib n" "ib \<le> b" "b < ib + n"
  shows "emap xs b = {}"
proof -
  have "emap (take i xs @ drop i xs) b = {}"
    using assms unfolding emap_append by (fastforce simp: gap_def emap_def covers_def)
  then show ?thesis by simp
qed

lemma gap_insert:
  assumes "normal xs" "gap xs i (unat ib) (unat n)" "ext_ok e" "\<not> simplefs_extent_is_empty e"
    and "ee_block e = ib" "simplefs_ext_len e = n" "xs' = take i xs @ e # drop i xs"
  shows "normal xs'" "block_mapped xs (unat ib)
    \<lparr>gb_count = n, gb_bno = ee_start e, gb_new = True, gb_unwritten = simplefs_ext_unwritten e\<rparr> xs'"
proof -
  have "normal (take i xs @ drop i xs)" using assms(1) by simp
  then show "normal xs'"
    using assms(2-) unfolding normal_append normal_Cons assms(7) by (auto simp: gap_def before_def)
  have "emap xs' b = (if covers e b then {target e b} else {}) \<union> emap (take i xs @ drop i xs) b" for b
    unfolding assms(7) emap_append emap_Cons by blast
  then show "block_mapped xs (unat ib)
    \<lparr>gb_count = n, gb_bno = ee_start e, gb_new = True, gb_unwritten = simplefs_ext_unwritten e\<rparr> xs'"
    using assms(4-6) gap_emap [OF assms(2)] by (auto simp: block_mapped_def covers_def target_def)
qed

lemma gap_grow:
  assumes "normal xs" "gap xs i (unat ib) (unat n)" "0 < i" "p = xs ! (i - 1)" "simplefs_ext_end p = ib"
    and "unat (simplefs_ext_len p) + unat n \<le> 8192" "unat (ee_start p) + unat (simplefs_ext_len p) + unat n < 2 ^ 32"
    and "unat ib + unat n < 2 ^ 32" "xs' = xs[i - 1 := simplefs_ext_set_len p (simplefs_ext_len p + n)]"
  shows "normal xs'" "block_mapped xs (unat ib) \<lparr>gb_count = n, gb_bno = ee_start p + simplefs_ext_len p, gb_new = True,
    gb_unwritten = simplefs_ext_unwritten p\<rparr> xs'"
proof -
  define pre where "pre = take (i - 1) xs"
  define post where "post = drop i xs"
  have i: "i - 1 < length xs" "Suc (i - 1) = i" using assms(2,3) by (auto simp: gap_def)
  have xs: "xs = pre @ p # post"
    using id_take_nth_drop [OF i(1)] i by (simp add: pre_def post_def assms(4))
  have p: "ext_ok p" "\<not> simplefs_extent_is_empty p" "normal pre" "normal post" "\<forall>e\<in>set pre. before e p" "\<forall>e\<in>set pre. \<forall>f\<in>set post. before e f"
    using assms(1) unfolding xs normal_append normal_Cons by auto
  have ib: "unat ib = unat (ee_block p) + unat (simplefs_ext_len p)" using ext_end_unat [OF p(1)] assms(5) by simp
  define q where "q = simplefs_ext_set_len p (simplefs_ext_len p + n)"
  have sum: "unat (simplefs_ext_len p + n) = unat (simplefs_ext_len p) + unat n"
    using assms(6) by (simp add: unat_add_no_wrap)
  have q: "ee_block q = ee_block p" "ee_start q = ee_start p" "unat (simplefs_ext_len q) = unat (simplefs_ext_len p) + unat n"
    "simplefs_ext_unwritten q = simplefs_ext_unwritten p"
    using assms(6) sum by (simp_all add: q_def word_le_nat_alt)
  have ne: "\<not> simplefs_extent_is_empty q" using p(2) q by (auto simp: simplefs_extent_is_empty_def word_unat_eq_iff)
  have "length pre = i - 1" using i by (simp add: pre_def)
  then have "(pre @ p # post)[i - 1 := q] = pre @ q # post" by (simp add: list_update_append)
  then have xs': "xs' = pre @ q # post" using assms(9) xs by (simp add: q_def)
  have bq: "\<forall>f\<in>set post. before q f" using assms(2) q ib by (auto simp: gap_def before_def post_def)
  have "ext_ok q" using q assms(7,8) ib by (simp add: ext_ok_def)
  then show "normal xs'"
    unfolding xs' normal_append normal_Cons using p ne bq q(1) by (auto simp: before_def)
  have st: "unat (ee_start p + simplefs_ext_len p) = unat (ee_start p) + unat (simplefs_ext_len p)"
    using assms(7) by (simp add: unat_add_no_wrap)
  have "emap xs' b = (if unat ib \<le> b \<and> b < unat ib + unat n then {target q b} else {}) \<union> emap xs b" for b
    using ne p(2) q ib unfolding xs xs' emap_append emap_Cons by (auto simp: covers_def target_def)
  then show "block_mapped xs (unat ib) \<lparr>gb_count = n, gb_bno = ee_start p + simplefs_ext_len p, gb_new = True,
    gb_unwritten = simplefs_ext_unwritten p\<rparr> xs'"
    using gap_emap [OF assms(2)] q(1,2,4) ib st by (auto simp: block_mapped_def target_def)
qed

lemma room_at_gap:
  assumes "normal (extents buf)" "simplefs_file_find_extent buf ib = (False, i)"
  shows "gap (extents buf) i (unat ib) (unat (room_at buf i ib len))" "room_at buf i ib len \<le> len"
    "0 < len \<Longrightarrow> 0 < room_at buf i ib len"
proof -
  let ?xs = "extents buf" and ?r = "room_at buf i ib len"
  note f = find_extent_loop_spec [OF assms(1) assms(2) [unfolded simplefs_file_find_extent_def]]
  have le: "unat (ee_block (?xs ! i)) \<le> unat (ee_block e)" if "e \<in> set (drop i ?xs)" "i < length ?xs" for e
  proof -
    note d = Cons_nth_drop_Suc [OF that(2), symmetric]
    have "normal (drop i ?xs)" using assms(1) append_take_drop_id [of i ?xs] by (metis normal_append)
    then show ?thesis using that(1) unfolding d normal_Cons by (auto simp: before_def)
  qed
  have ge: "ib < ee_block (?xs ! i)" "ib \<le> ee_block (?xs ! i)" if "i < length ?xs"
    using f Cons_nth_drop_Suc [OF that, symmetric] by (simp_all add: word_less_nat_alt word_le_nat_alt)
  have r: "unat ?r = (if i < length ?xs \<and> unat (ee_block (?xs ! i)) < unat ib + unat len
      then unat (ee_block (?xs ! i)) - unat ib else unat len)"
    using ge by (simp add: room_at_def unat_sub_le)
  show "gap ?xs i (unat ib) (unat ?r)"
    unfolding gap_def r using f le ge by (fastforce simp: word_le_nat_alt)
  show "?r \<le> len" "0 < len \<Longrightarrow> 0 < ?r"
    using r ge by (auto simp: word_le_nat_alt word_less_nat_alt split: if_splits)
qed

section \<open>Files and their synchronisation\<close>

text \<open>Inode \<open>ino\<close> has the extents \<open>xs\<close>, in a tree with the given leaves, and no handle is left open.\<close>

definition file_ok :: "kst \<Rightarrow> u32 \<Rightarrow> simplefs_extent list \<Rightarrow> u32 list \<Rightarrow> bool" where
  "file_ok s ino xs leaves \<longleftrightarrow> handle_ok s \<and> meta_ok (sbi s) (ei_block (inodes s ino) # leaves) \<and>
     tree_ok (cache s) (ei_block (inodes s ino)) xs leaves \<and> normal xs"

text \<open>After an error: the images from \<open>root_dir_block\<close> on are as before, or the file system has failed.\<close>

definition untouched :: "kst \<Rightarrow> kst \<Rightarrow> bool" where
  "untouched s s' \<longleftrightarrow> failed s' \<or> (\<forall>n. root_dir_block (sbi s) \<le> n \<longrightarrow> cache s' n = cache s n)"

lemma failed_grows: "failed s \<Longrightarrow> grows s s' \<Longrightarrow> failed s'"
  by (auto simp: failed_def grows_def suffix_def)

lemma oframe_untouched: "oframe s s' \<Longrightarrow> geom_ok (sbi s) \<Longrightarrow> untouched s s'"
  by (simp add: untouched_def oframe_cache)

lemma tframe_simps:
  assumes "tframe s s'"
  shows "cache s' = cache s" "sbi s' = sbi s" "inodes s' = inodes s" "s_journal s' = s_journal s"
    "s_fs_info s' = s_fs_info s" "s_shutdown s' = s_shutdown s" "suffix (trace s) (trace s')"
proof -
  obtain x where "s' = s\<lparr>trace := x\<rparr>" using assms unfolding tframe_def by blast
  then show "cache s' = cache s" "sbi s' = sbi s" "inodes s' = inodes s" "s_journal s' = s_journal s"
    "s_fs_info s' = s_fs_info s" "s_shutdown s' = s_shutdown s" by simp_all
  show "suffix (trace s) (trace s')" using assms by (simp add: tframe_def)
qed

lemma tframe_oframe: "tframe s s' \<Longrightarrow> oframe s s'"
  by (simp add: oframe_def tframe_simps)

lemma tframe_taking: "tframe s s' \<Longrightarrow> taking s s'"
  by (rule same_sbi_taking) (simp_all add: tframe_oframe tframe_simps aframe_def)

text \<open>Two states that differ by what lies between a load and a synchronisation.\<close>

definition edited :: "u32 \<Rightarrow> kst \<Rightarrow> kst \<Rightarrow> bool" where
  "edited ino s s' \<longleftrightarrow> taking s (s'\<lparr>inodes := inodes s\<rparr>) \<and> (\<forall>i. i \<noteq> ino \<longrightarrow> inodes s' i = inodes s i) \<and>
     ei_block (inodes s' ino) = ei_block (inodes s ino)"

lemma taking_inodes: "taking t u \<Longrightarrow> taking (t\<lparr>inodes := x\<rparr>) (u\<lparr>inodes := x\<rparr>)"
  by (simp add: taking_def aframe_def oframe_def handle_ok_def free_blocks_def)

lemma taking_same_inodes: "taking s t \<Longrightarrow> inodes t = inodes s"
  by (simp add: taking_def aframe_def)

lemma edited_taking: "taking s t \<Longrightarrow> edited ino s t"
proof -
  assume t: "taking s t"
  have "t\<lparr>inodes := inodes t\<rparr> = t" by simp
  then have "t\<lparr>inodes := inodes s\<rparr> = t" by (simp only: taking_same_inodes [OF t])
  then show ?thesis using t taking_same_inodes [OF t] by (simp only: edited_def) simp
qed

lemma edited_trans:
  assumes "edited ino s t" "taking t u"
  shows "edited ino s u"
  using assms taking_trans [OF _ taking_inodes [OF assms(2), of "inodes s"]] taking_same_inodes [OF assms(2)]
  by (simp add: edited_def)

lemma edited_inode:
  "edited ino s t \<Longrightarrow> edited ino s (t\<lparr>inodes := (inodes t)(ino := (inodes t ino)\<lparr>i_blocks := v\<rparr>)\<rparr>)"
  by (simp add: edited_def)

lemmas edited_upd = edited_inode [OF edited_taking]

lemma edited_file:
  assumes "file_ok s ino xs leaves" "edited ino s t"
  shows "handle_ok t" "meta_ok (sbi t) (ei_block (inodes t ino) # leaves)" "ei_block (inodes t ino) = ei_block (inodes s ino)"
    "root_dir_block (sbi t) = root_dir_block (sbi s)" "\<And>n. root_dir_block (sbi s) \<le> n \<Longrightarrow> cache t n = cache s n"
    "grows s t" "geom_ok (sbi t)"
proof -
  define u where "u = t\<lparr>inodes := inodes s\<rparr>"
  have fr: "aframe s u" "oframe s u" "\<And>bs. meta_ok (sbi s) bs \<Longrightarrow> meta_ok (sbi u) bs"
    using assms(2) by (simp_all add: edited_def taking_def u_def)
  have t: "sbi t = sbi u" "cache t = cache u" "s_journal t = s_journal u" "trace t = trace u" "s_shutdown t = s_shutdown u"
    by (simp_all add: u_def)
  note f = assms(1) [unfolded file_ok_def]
  have geom: "geom_ok (sbi s)" using f by (simp add: meta_ok_def)
  show "handle_ok t" using handle_ok_aframe [OF _ fr(1)] f t by (simp add: handle_ok_def)
  show root: "ei_block (inodes t ino) = ei_block (inodes s ino)" using assms(2) by (simp add: edited_def)
  show "meta_ok (sbi t) (ei_block (inodes t ino) # leaves)" unfolding root t using f fr(3) by blast
  show "root_dir_block (sbi t) = root_dir_block (sbi s)" "geom_ok (sbi t)"
    using geometry_root [OF oframe_geometry [OF fr(2)]] geometry_ok [OF oframe_geometry [OF fr(2)]] t geom by simp_all
  show "cache t n = cache s n" if "root_dir_block (sbi s) \<le> n" for n using oframe_cache [OF fr(2) geom that] t by simp
  show "grows s t" using oframe_grows [OF fr(2)] t by (simp add: grows_def)
qed

lemma synced_file_ok:
  assumes "handle_ok t" "meta_ok (sbi t) (ei_block (inodes t ino) # leaf_blocks buf)"
    and "synced ino buf t (None, buf') s'" "normal (extents (simplefs_file_normalize_extents buf))"
    and "blocks_after (ei_block (inodes t ino)) (leaf_blocks buf) t (leaf_blocks buf') s'"
  shows "file_ok s' ino (extents buf') (leaf_blocks buf')"
proof -
  note y = assms(3) [unfolded synced_def Let_def fst_conv snd_conv]
  have "geometry (sbi s') = geometry (sbi t)" using y by (simp add: grows_def)
  from blocks_after_meta [OF assms(5,2) this] show ?thesis
    using y assms(1,4) by (simp add: file_ok_def handle_ok_def)
qed

lemma sync_file_wp:
  assumes "file_ok s ino xs leaves" "edited ino s t" "leaf_blocks buf = leaves" "exts_ok (extents buf)"
    and "\<And>r buf' s'. untouched s s' \<Longrightarrow> grows s s' \<Longrightarrow> geom_ok (sbi s') \<Longrightarrow> r \<noteq> None \<Longrightarrow> Q (r, buf') s'"
    and "\<And>buf' s'. file_ok s' ino (extents buf') (leaf_blocks buf') \<Longrightarrow> emap (extents buf') = emap (extents buf) \<Longrightarrow>
      ei_block (inodes s' ino) = ei_block (inodes s ino) \<Longrightarrow>
      extents buf' = extents (simplefs_file_normalize_extents buf) \<Longrightarrow> Q (None, buf') s'"
  shows "wp (simplefs_file_sync_extents E ino buf) Q t"
proof -
  note e = edited_file [OF assms(1,2)]
  have meta: "meta_ok (sbi t) (ei_block (inodes t ino) # leaf_blocks buf)" using e(2) assms(3) by simp
  have Q: "Q p s'" if p: "synced ino buf t p s'" and b: "fst p = None \<longrightarrow>
      blocks_after (ei_block (inodes t ino)) (leaf_blocks buf) t (leaf_blocks (snd p)) s'" for p s'
  proof (cases p)
    case (Pair r buf')
    note y = p [unfolded synced_def Let_def Pair fst_conv snd_conv e(3,4)]
    have g: "grows s s'" using grows_trans [OF e(6)] y by blast
    have geom: "geom_ok (sbi s')" using y e(7) geometry_ok [of "sbi s'" "sbi t"] by (simp add: grows_def)
    show ?thesis
    proof (cases r)
      case None
      have "file_ok s' ino (extents buf') (leaf_blocks buf')"
        using synced_file_ok [OF e(1) meta] p b normalize_normal(1) [OF assms(4)] by (simp add: Pair None)
      then show ?thesis
        unfolding Pair None using y normalize_normal [OF assms(4)] e(3) None by (auto intro!: assms(6))
    next
      case (Some er)
      have "untouched s s'" using y e(5) Some by (auto simp: untouched_def)
      then show ?thesis unfolding Pair Some by (rule assms(5)) (use g geom in simp_all)
    qed
  qed
  show ?thesis
    by (rule wp_mono [OF wp_conj [OF sync_extents_spec [OF e(1) meta] sync_blocks_spec [OF meta]]])
      (elim conjE, rule Q)
qed

section \<open>The block mapping is right\<close>

definition get_block_post :: "kst \<Rightarrow> u32 \<Rightarrow> simplefs_extent list \<Rightarrow> nat \<Rightarrow> errno + block_map \<Rightarrow> kst \<Rightarrow> bool" where
  "get_block_post s ino xs ib res s' = (case res of
     Inl e \<Rightarrow> untouched s s'
   | Inr m \<Rightarrow> (\<exists>xs' leaves'. file_ok s' ino xs' leaves' \<and>
        block_mapped xs ib m xs') \<and> ei_block (inodes s' ino) = ei_block (inodes s ino) \<and> 0 < gb_count m \<and>
        (gb_new m \<longrightarrow> claimed s (gb_bno m) (gb_count m)))"

lemma block_mapped_emap: "block_mapped xs ib m ys \<Longrightarrow> emap zs = emap ys \<Longrightarrow> block_mapped xs ib m zs"
  by (simp add: block_mapped_def)

lemma get_block_postI:
  "file_ok s' ino xs' leaves' \<Longrightarrow> block_mapped xs ib m xs' \<Longrightarrow>
   ei_block (inodes s' ino) = ei_block (inodes s ino) \<Longrightarrow> 0 < gb_count m \<Longrightarrow>
   (gb_new m \<Longrightarrow> claimed s (gb_bno m) (gb_count m)) \<Longrightarrow> get_block_post s ino xs ib (Inr m) s'"
  by (auto simp: get_block_post_def)

lemma put_after_failure_wp:
  assumes "untouched s t" "grows s t" "geom_ok (sbi t)" "\<And>s'. untouched s s' \<Longrightarrow> Q () s'"
  shows "wp (put_blocks E b n) Q t"
proof (rule put_blocks_wp)
  fix s'
  assume "oframe t s'"
  moreover have "root_dir_block (sbi t) = root_dir_block (sbi s)"
    using assms(2) by (intro geometry_root) (simp add: grows_def)
  ultimately have "untouched s s'"
    using assms(1,3) failed_grows [OF _ oframe_grows] oframe_cache by (auto simp: untouched_def)
  then show "Q () s'" by (rule assms(4))
qed

lemma file_ok_geom: "file_ok s ino xs leaves \<Longrightarrow> geom_ok (sbi s)"
  by (simp add: file_ok_def meta_ok_def)

lemma taking_untouched: "file_ok s ino xs leaves \<Longrightarrow> taking s t \<Longrightarrow> untouched s t \<and> grows s t \<and> geom_ok (sbi t)"
  using file_ok_geom [of s ino xs leaves] geometry_ok [OF oframe_geometry, of s t]
  by (simp add: taking_def oframe_untouched oframe_grows)

lemma note_when_wp: "(\<And>s'. tframe s s' \<Longrightarrow> Q () s') \<Longrightarrow> wp (when_true c (note_call x)) Q s"
  by (auto simp: wp_simps tframe_def suffix_ConsI)

lemma alloc_extent_wp:
  assumes f: "file_ok s ino xs leaves" and t: "taking s t"
    and buf: "extents buf = xs" "leaf_blocks buf = leaves"
    and g: "gap xs i (unat ib) (unat len)" "len \<le> 8192" "unat ib + unat len < 2 ^ 32"
  shows "wp (alloc_extent E ino exact cu buf i ib len) (get_block_post s ino xs (unat ib)) t"
  unfolding alloc_extent_def wp_bind
proof (rule halving_wp, goal_cases)
  case 1
  show "meta_ok (sbi t) (ei_block (inodes s ino) # leaves)" using f t by (simp add: taking_def file_ok_def)
next
  case (2 r n u)
  note u = 2(1) and n = 2(2) and c = 2(3)
  have su: "taking s u" by (rule taking_trans [OF t u])
  define e where "e = simplefs_ext_init ib n r cu"
  define m where "m = \<lparr>gb_count = n, gb_bno = r, gb_new = True, gb_unwritten = cu\<rparr>"
  have e: "ee_block e = ib" "ee_start e = r" "simplefs_ext_len e = n" "simplefs_ext_unwritten e = cu"
    using n g(2) by (simp_all add: e_def)
  have cs: "claimed s r n" if "r \<noteq> 0" using claimed_mono [OF c [OF that]] t by (simp add: taking_def)
  have gap: "gap xs i (unat ib) (unat n)" by (rule gap_mono [OF g(1)]) (use n in \<open>simp add: word_le_nat_alt\<close>)
  have eok: "ext_ok e" "\<not> simplefs_extent_is_empty e" if "r \<noteq> 0"
    using cs [OF that] n g(3) by (auto simp: e ext_ok_def simplefs_extent_is_empty_def claimed_def word_le_nat_alt)
  have fin: "wp (simplefs_file_sync_extents E ino buf1) (\<lambda>p. wp (case p of (r', buf) \<Rightarrow> case r' of
        Some er \<Rightarrow> do { put_blocks E r n; ret (Inl er) } | None \<Rightarrow> ret (Inr m)) (get_block_post s ino xs (unat ib)))
      (v\<lparr>inodes := (inodes v)(ino := (inodes v ino)\<lparr>i_blocks := k\<rparr>)\<rparr>)"
    if r: "r \<noteq> 0" and v: "taking s v" and b1: "extents buf1 = take i xs @ e # drop i xs" "leaf_blocks buf1 = leaves" for v buf1 k
  proof -
    have nx: "normal xs" using f by (simp add: file_ok_def)
    note ins = gap_insert [OF nx gap eok [OF r] e(1,3) b1(1)]
    have bm: "block_mapped xs (unat ib) m (extents buf1)" using ins(2) by (simp add: e m_def)
    show ?thesis
    proof (rule sync_file_wp [OF f edited_upd [OF v] b1(2) normal_exts_ok [OF ins(1)]], goal_cases)
      case (1 r' buf' s')
      then obtain er where "r' = Some er" by blast
      then show ?case
        using put_after_failure_wp [OF 1(1-3)] by (simp add: wp_simps get_block_post_def)
    next
      case (2 buf' s')
      then show ?case
        using block_mapped_emap [OF bm 2(2)] cs [OF r]
        by (auto simp: wp_simps get_block_post_def m_def claimed_def word_less_nat_alt)
    qed
  qed
  show ?case
  proof (cases "r = 0")
    case True
    then show ?thesis using taking_untouched [OF f su] by (simp add: wp_return get_block_post_def)
  next
    case r: False
    show ?thesis
      unfolding prod.case if_not_P [OF r] wp_bind e_def [symmetric] m_def [symmetric]
    proof (rule note_when_wp, rule insert_extent_wp, goal_cases)
      case 1
      show ?case using gap buf by (simp add: gap_def)
    next
      case (2 w r' buf1 v)
      have v: "taking s v" using taking_trans [OF su] tframe_taking 2(1,2) tframe_trans by blast
      show ?case
      proof (cases r')
        case None
        then show ?thesis using fin [OF r v] 2(3,5) buf by (simp add: wp_bind wp_upd_inode)
      next
        case (Some er)
        then show ?thesis
          using put_after_failure_wp [of s v] taking_untouched [OF f v]
          by (simp add: wp_bind get_block_post_def wp_return)
      qed
    qed
  qed
qed

lemma grow_taken_wp:
  assumes f: "file_ok s ino xs leaves" and t: "taking s t"
    and buf: "extents buf = xs" "leaf_blocks buf = leaves"
    and i: "0 < i" "p = xs ! (i - 1)" "simplefs_ext_end p = ib" "simplefs_ext_unwritten p = cu"
    and g: "gap xs i (unat ib) (unat len)" "unat (simplefs_ext_len p) + unat len \<le> 8192" "unat ib + unat len < 2 ^ 32"
    and c: "claimed s (ee_start p + simplefs_ext_len p) len"
  shows "wp (grow_taken E ino exact cu buf (i - 1) len) (get_block_post s ino xs (unat ib)) t"
proof -
  define b where "b = ee_start p + simplefs_ext_len p"
  define q where "q = simplefs_ext_set_len p (simplefs_ext_len p + len)"
  define m where "m = \<lparr>gb_count = len, gb_bno = b, gb_new = True, gb_unwritten = cu\<rparr>"
  have nx: "normal xs" using f by (simp add: file_ok_def)
  have p_in: "p \<in> set xs" using i(1,2) g(1) by (auto simp: gap_def intro!: nth_mem)
  have ub: "unat b = unat (ee_start p) + unat (simplefs_ext_len p)"
    using nx p_in by (simp add: b_def unat_add_no_wrap normal_def list_all_iff ext_ok_def)
  have nrm: "normal (xs[i - 1 := q])" "block_mapped xs (unat ib) m (xs[i - 1 := q])"
    using gap_grow [OF nx g(1) i(1-3) g(2) _ g(3) refl] c ub by (simp_all add: claimed_def q_def m_def b_def i(4))
  have fin: "wp (simplefs_file_sync_extents E ino (buf\<lparr>extents := xs[i - 1 := q]\<rparr>)) (\<lambda>x. wp (case x of (r, buf) \<Rightarrow>
      ret (case r of None \<Rightarrow> Inr m | Some e \<Rightarrow> Inl e)) (get_block_post s ino xs (unat ib)))
      (v\<lparr>inodes := (inodes v)(ino := (inodes v ino)\<lparr>i_blocks := k\<rparr>)\<rparr>)" if v: "taking s v" for v k
  proof (rule sync_file_wp [OF f edited_upd [OF v]], goal_cases)
    case (3 r' buf' s')
    then show ?case by (auto simp: wp_return get_block_post_def not_None_eq)
  next
    case (4 buf' s')
    have "get_block_post s ino xs (unat ib) (Inr m) s'"
      by (rule get_block_postI [OF 4(1) block_mapped_emap [OF nrm(2)] 4(3)])
        (use 4(2) c in \<open>simp_all add: m_def b_def claimed_def word_less_nat_alt\<close>)
    then show ?case by (simp add: wp_return)
  qed (use normal_exts_ok [OF nrm(1)] in \<open>simp_all add: buf\<close>)
  have zero: "wp (if exact then ext E (Blkdev_issue_zeroout b len) else ret None) R t"
    if "\<And>r v. taking s v \<Longrightarrow> R r v" for R
  proof -
    have "taking s (t\<lparr>trace := x # trace t\<rparr>)" for x
      by (rule taking_trans [OF t tframe_taking]) (simp add: tframe_def suffix_ConsI)
    then show ?thesis using that t by (simp add: wp_ext wp_return)
  qed
  show ?thesis
    unfolding grow_taken_def Let_def buf(1) i(2) [symmetric] b_def [symmetric] q_def [symmetric] m_def [symmetric] wp_bind
  proof (rule zero, goal_cases)
    case (1 r v)
    then show ?case
      using fin [OF 1] put_after_failure_wp [of s v] taking_untouched [OF f 1]
      by (cases r) (simp_all add: wp_bind wp_upd_inode get_block_post_def wp_return)
  qed
qed

lemma grow_prev_wp:
  assumes f: "file_ok s ino xs leaves" and t: "taking s t"
    and buf: "extents buf = xs" "leaf_blocks buf = leaves"
    and i: "0 < i" "p = xs ! (i - 1)" "simplefs_ext_end p = ib" "simplefs_ext_unwritten p = cu"
    and g: "gap xs i (unat ib) (unat len)" "unat (simplefs_ext_len p) + unat len \<le> 8192" "unat ib + unat len < 2 ^ 32"
    and Q: "\<And>res s'. get_block_post s ino xs (unat ib) res s' \<Longrightarrow> Q (Some res) s'" "\<And>s'. taking s s' \<Longrightarrow> Q None s'"
  shows "wp (grow_prev E ino exact cu buf (i - 1) len) Q t"
  using t g
proof (induction "unat len" arbitrary: len t rule: less_induct)
  case less
  note t = less.prems(1)
  show ?case
  proof (cases "len = 0")
    case True
    then show ?thesis using Q(2) [OF t] by (subst grow_prev.simps) (simp add: wp_return)
  next
    case pos: False
    have p: "extents buf ! (i - 1) = p" by (simp add: buf i)
    have half: "unat (len div 2) < unat len" "len div 2 \<le> len"
      using pos by (simp_all add: unat_div unat_gt_0 word_le_nat_alt)
    show ?thesis
      unfolding grow_prev.simps [of E ino exact cu buf "i - 1" len] if_not_P [OF pos] Let_def p wp_bind
    proof (rule take_exact_wp, goal_cases)
      case (1 ok u)
      note u = taking_trans [OF t 1(1)]
      have again: "wp (grow_prev E ino exact cu buf (i - 1) (len div 2)) Q u"
        by (rule less.hyps [OF half(1) u])
          (use less.prems half(2) gap_mono in \<open>auto simp: word_le_nat_alt\<close>)
      have "claimed s (ee_start p + simplefs_ext_len p) len" if ok
        using claimed_mono [OF 1(2) [OF that]] t by (simp add: taking_def)
      note taken = wp_mono [OF grow_taken_wp [OF f u buf i less.prems(2-4) this]]
      show ?case
      proof (cases ok)
        case True
        show ?thesis unfolding if_P [OF True] wp_bind by (rule taken [OF True]) (simp add: wp_return Q(1))
      qed (use again in simp)
    qed
  qed
qed

text \<open>Normalising never cuts an extent.\<close>

lemma merge_extents_contains:
  "sorted_ok xs \<Longrightarrow> e \<in> set xs \<Longrightarrow> \<not> simplefs_extent_is_empty e \<Longrightarrow>
   \<exists>g\<in>set (merge_extents xs). unat (ee_block g) \<le> unat (ee_block e) \<and>
     unat (ee_block e) + unat (simplefs_ext_len e) \<le> unat (ee_block g) + unat (simplefs_ext_len g)"
proof (induction xs arbitrary: e rule: merge_extents.induct)
  case (3 cur nxt rest)
  note ok = 3(4) [unfolded sorted_ok_Cons [of cur]]
  show ?case
  proof (cases "simplefs_extent_is_empty cur")
    case True
    then show ?thesis using 3(1) [OF True] 3(5,6) ok by auto
  next
    case ne: False
    show ?thesis
    proof (cases "mergeable cur nxt")
      case m: True
      have oks: "ext_ok cur" "ext_ok nxt" using 3(4) by (simp_all add: sorted_ok_Cons)
      note mu = mergeable_unat [OF oks(1) ne m] merge_two_ok(2) [OF oks ne m]
      note IH = 3(2) [OF ne m sorted_ok_merge [OF 3(4) ne m]]
      define f where "f = (if e \<in> set rest then e else merge_two cur nxt)"
      have "f \<in> set (merge_two cur nxt # rest)" "\<not> simplefs_extent_is_empty f" using 3(6) mu by (auto simp: f_def)
      from IH [OF this] obtain g where g: "g \<in> set (merge_extents (merge_two cur nxt # rest))"
        "unat (ee_block g) \<le> unat (ee_block f)"
        "unat (ee_block f) + unat (simplefs_ext_len f) \<le> unat (ee_block g) + unat (simplefs_ext_len g)" by blast
      then show ?thesis
        using 3(5) mu ne m by (intro bexI [of _ g]) (auto simp: f_def merge_two_len [OF m] split: if_splits)
    next
      case False
      then show ?thesis using 3(3) [OF ne False] 3(5,6) ok ne by fastforce
    qed
  qed
qed auto

lemma normalize_contains:
  assumes "exts_ok (extents buf)" "e \<in> set (extents buf)" "\<not> simplefs_extent_is_empty e"
  shows "\<exists>g\<in>set (extents (simplefs_file_normalize_extents buf)). unat (ee_block g) \<le> unat (ee_block e) \<and>
     unat (ee_block e) + unat (simplefs_ext_len e) \<le> unat (ee_block g) + unat (simplefs_ext_len g)"
proof -
  have "e \<in> set (exchange_sort (extents buf))" using assms(2) mset_eq_setD [OF exchange_sort_mset] by blast
  from merge_extents_contains [OF sorted_ok_sort [OF assms(1)] this assms(3)] show ?thesis
    by (simp add: simplefs_file_normalize_extents_def)
qed

lemma covers_emap: "normal xs \<Longrightarrow> e \<in> set xs \<Longrightarrow> covers e b \<Longrightarrow> emap xs b = {target e b}"
proof -
  assume a: "normal xs" "e \<in> set xs" "covers e b"
  then have "target e b \<in> emap xs b" by (auto simp: emap_def)
  then show ?thesis using exts_ok_unique [OF normal_exts_ok [OF a(1)]] by blast
qed

lemma mapped_at_count:
  assumes "covers e (unat ib)" "ext_ok e"
  shows "unat ib + unat (gb_count (mapped_at e ib)) = unat (ee_block e) + unat (simplefs_ext_len e)"
    "0 < gb_count (mapped_at e ib)" "unat (gb_bno (mapped_at e ib)) = unat (ee_start e) + (unat ib - unat (ee_block e))"
proof -
  have c: "unat (ee_block e) \<le> unat ib" "unat ib < unat (ee_block e) + unat (simplefs_ext_len e)"
    using assms(1) by (simp_all add: covers_def)
  have h: "unat (ib - ee_block e) = unat ib - unat (ee_block e)"
    using c by (simp add: unat_sub_le word_le_nat_alt)
  then have k: "unat (simplefs_ext_len e - (ib - ee_block e)) = unat (simplefs_ext_len e) - (unat ib - unat (ee_block e))"
    using c by (simp add: unat_sub_le word_le_nat_alt)
  then show "unat ib + unat (gb_count (mapped_at e ib)) = unat (ee_block e) + unat (simplefs_ext_len e)"
    using c by (simp add: mapped_at_def)
  show "0 < gb_count (mapped_at e ib)" using k c by (simp add: mapped_at_def word_less_nat_alt)
  have "unat (ee_start e + (ib - ee_block e)) = unat (ee_start e) + unat (ib - ee_block e)"
    using assms(2) c h by (intro unat_add_no_wrap) (simp add: ext_ok_def, linarith)
  then show "unat (gb_bno (mapped_at e ib)) = unat (ee_start e) + (unat ib - unat (ee_block e))"
    using h by (simp add: mapped_at_def add_diff_eq)
qed

lemma mapped_at_emap:
  assumes "normal xs" "e \<in> set xs" "covers e (unat ib)" "unat ib \<le> b" "b < unat ib + unat (gb_count (mapped_at e ib))"
  shows "emap xs b = {(unat (gb_bno (mapped_at e ib)) + (b - unat ib), gb_unwritten (mapped_at e ib))}"
proof -
  have ok: "ext_ok e" using assms(1,2) by (simp add: normal_def list_all_iff)
  note m = mapped_at_count [OF assms(3) ok]
  have "covers e b" using assms(3-5) m(1) by (auto simp: covers_def)
  from covers_emap [OF assms(1,2) this] show ?thesis
    using m(3) assms(3,4) by (simp add: target_def covers_def mapped_at_def)
qed

lemma split_list:
  assumes "normal (pre @ orig # post)" "covers orig (unat ib)" "0 < map_len" "simplefs_ext_unwritten orig \<noteq> mark"
    and "ys = pre @ split_parts mark orig ib map_len @ post"
  shows "normal ys" "emap ys b = (if unat ib \<le> b \<and> b < unat ib + split_len orig ib map_len
    then (\<lambda>(p, u). (p, mark)) ` emap (pre @ orig # post) b else emap (pre @ orig # post) b)"
proof -
  note n = assms(1) [unfolded normal_append normal_Cons]
  have ok: "ext_ok orig" using n by blast
  note sp = split_parts_correct [OF ok assms(2-4)]
  show "normal ys"
    unfolding assms(5) normal_append using n sp(1,2) by (fastforce simp: before_def)
  show "emap ys b = (if unat ib \<le> b \<and> b < unat ib + split_len orig ib map_len
    then (\<lambda>(p, u). (p, mark)) ` emap (pre @ orig # post) b else emap (pre @ orig # post) b)"
  proof (cases "covers orig b")
    case True
    have "emap pre b = {}" "emap post b = {}"
      using n True by (fastforce simp: emap_def covers_def before_def)+
    then show ?thesis
      unfolding assms(5) emap_append emap_Cons sp(3) using True by (auto simp: target_def)
  next
    case False
    then have out: "\<not> (unat ib \<le> b \<and> b < unat ib + split_len orig ib map_len)"
      using assms(2) by (auto simp: split_len_def covers_def)
    show ?thesis unfolding if_not_P [OF out] unfolding assms(5) emap_append emap_Cons sp(3) using False by simp
  qed
qed

lemma normal_unique:
  assumes "normal xs" "e \<in> set xs" "f \<in> set xs" "covers e b" "covers f b"
  shows "e = f"
  using assms
proof (induction xs)
  case (Cons x xs)
  have "\<not> covers y b" if "y \<in> set xs" "covers x b" for y
    using Cons.prems(1) that by (fastforce simp: normal_Cons before_def covers_def)
  then show ?case using Cons by (auto simp: normal_Cons)
qed simp

lemma find_covered:
  assumes "normal (extents buf)" "simplefs_file_find_extent buf b = (found, i)" "e \<in> set (extents buf)" "covers e (unat b)"
  shows "found" "i < length (extents buf)" "extents buf ! i = e"
proof -
  let ?xs = "extents buf"
  note f = find_extent_loop_spec [OF assms(1) assms(2) [unfolded simplefs_file_find_extent_def]]
  have "set ?xs = set (take i ?xs) \<union> set (drop i ?xs)" by (metis append_take_drop_id set_append)
  then show found: "found" using f assms(3,4) by (auto simp: covers_def split: if_splits)
  then show "i < length ?xs" using f by simp
  then show "?xs ! i = e" using normal_unique [OF assms(1) _ assms(3) _ assms(4)] f found by simp
qed

lemma converted_map:
  assumes "normal xs" "i < length xs" "covers (xs ! i) (unat ib)" "0 < n" "simplefs_ext_unwritten (xs ! i)"
    and "ys = take i xs @ split_parts False (xs ! i) ib n @ drop (Suc i) xs"
    and "extents buf = ys" "zs = extents (simplefs_file_normalize_extents buf)"
    and "simplefs_file_find_extent buf' ib = (found, j)" "extents buf' = zs"
  shows "exts_ok ys" "block_mapped xs (unat ib) (mapped_at (zs ! j) ib) zs" "0 < gb_count (mapped_at (zs ! j) ib)"
proof -
  let ?o = "xs ! i" and ?m = "mapped_at (zs ! j) ib"
  have xs: "xs = take i xs @ ?o # drop (Suc i) xs" by (rule id_take_nth_drop [OF assms(2)])
  have nys: "normal ys" and em: "emap ys b = (if unat ib \<le> b \<and> b < unat ib + split_len ?o ib n
      then (\<lambda>(p, u). (p, False)) ` emap xs b else emap xs b)" for b
    using split_list [of "take i xs" ?o "drop (Suc i) xs", folded xs, OF assms(1,3,4) _ assms(6)] assms(5) by simp_all
  show "exts_ok ys" by (rule normal_exts_ok [OF nys])
  then have z: "normal zs" "emap zs = emap ys" using normalize_normal [of buf] assms(7,8) by simp_all
  have "ext_ok ?o" using assms(1,2) by (simp add: normal_def list_all_length)
  note a = split_arith [where map_len = n, OF this assms(3) refl refl refl]
  define mid where "mid = simplefs_ext_set_unwritten (?o\<lparr>ee_block := ib, ee_start := ee_start ?o + (ib - ee_block ?o),
    ee_len := min n (simplefs_ext_len ?o - (ib - ee_block ?o))\<rparr>) False"
  have mid: "mid \<in> set ys" "ee_block mid = ib" "unat (simplefs_ext_len mid) = split_len ?o ib n"
    using a(2,9) by (auto simp: assms(6) split_parts_def Let_def mid_def ext_len_raw)
  have ne: "\<not> simplefs_extent_is_empty mid" using nys mid(1) by (simp add: normal_def list_all_iff)
  obtain g where g: "g \<in> set zs" "unat (ee_block g) \<le> unat ib" "unat ib + split_len ?o ib n \<le> unat (ee_block g) + unat (simplefs_ext_len g)"
    using normalize_contains [of buf mid] mid ne \<open>exts_ok ys\<close> assms(7,8) by auto
  have "0 < split_len ?o ib n" using assms(3,4) by (auto simp: split_len_def covers_def word_less_nat_alt)
  then have gc: "covers g (unat ib)" using g z(1) by (auto simp: covers_def normal_def list_all_iff)
  have j: "zs ! j = g" using find_covered(3) [OF _ assms(9), of g] z(1) g(1) gc by (simp add: assms(10))
  have gok: "ext_ok g" using z(1) g(1) by (simp add: normal_def list_all_iff)
  note cnt = mapped_at_count [OF gc gok]
  show "0 < gb_count ?m" using cnt(2) by (simp add: j)
  note me = mapped_at_emap [OF z(1) g(1) gc]
  have "fst ` emap xs b = {unat (gb_bno ?m) + (b - unat ib)}" if "unat ib \<le> b" "b < unat ib + unat (gb_count ?m)" for b
  proof -
    have "fst ` emap zs b = fst ` emap xs b" unfolding z(2) em by (force simp: image_image)
    then show ?thesis using me that by (simp add: j)
  qed
  moreover have "emap zs b = emap xs b" if "\<not> (unat ib \<le> b \<and> b < unat ib + unat (gb_count ?m))" for b
    unfolding z(2) em using that g(3) cnt(1) by (auto simp: j)
  moreover have "gb_new ?m = False" by (simp add: mapped_at_def)
  ultimately show "block_mapped xs (unat ib) ?m zs"
    unfolding block_mapped_def using me by (simp add: j)
qed

lemma tframe_file_ok: "file_ok s ino xs leaves \<Longrightarrow> tframe s t \<Longrightarrow> file_ok t ino xs leaves"
  by (simp add: file_ok_def tframe_simps handle_ok_def)

lemma get_block_mapped_wp:
  assumes f: "file_ok s ino xs leaves" and t: "tframe s t"
    and buf: "extents buf = xs" "leaf_blocks buf = leaves"
    and i: "i < length xs" "covers (xs ! i) (unat ib)" and mb: "0 < (ucast mb :: u32)"
  shows "wp (get_block_mapped E ino conv buf i ib mb) (get_block_post s ino xs (unat ib)) t"
proof (cases "conv \<and> simplefs_ext_unwritten (extents buf ! i)")
  case False
  have nx: "normal xs" "ext_ok (xs ! i)" using f i(1) by (auto simp: file_ok_def normal_def list_all_length)
  have new: "gb_new (mapped_at (xs ! i) ib) = False" by (simp add: mapped_at_def)
  have "block_mapped xs (unat ib) (mapped_at (xs ! i) ib) xs"
    unfolding block_mapped_def using mapped_at_emap [OF nx(1) nth_mem [OF i(1)] i(2)] by (simp add: new)
  then have "get_block_post s ino xs (unat ib) (Inr (mapped_at (xs ! i) ib)) t"
    by (rule get_block_postI [OF tframe_file_ok [OF f t]])
      (use new mapped_at_count(2) [OF i(2) nx(2)] in \<open>simp_all add: tframe_simps [OF t]\<close>)
  then show ?thesis
    unfolding get_block_mapped_def if_not_P [OF False] wp_return by (simp add: buf)
next
  case True
  have nx: "normal xs" using f by (simp add: file_ok_def)
  have split: "extents buf = take i xs @ xs ! i # drop (Suc i) xs" unfolding buf by (rule id_take_nth_drop [OF i(1)])
  show ?thesis
    unfolding get_block_mapped_def if_P [OF True] simplefs_convert_unwritten_extent_def wp_bind
  proof (rule split_extent_wp [OF split], goal_cases)
    case (3 r buf1 u)
    have u: "taking s u" by (rule tframe_taking [OF tframe_trans [OF t 3(1)]])
    show ?case
    proof (cases r)
      case (Some e)
      then show ?thesis using taking_untouched [OF f u] by (simp add: wp_return get_block_post_def)
    next
      case None
      note conv = converted_map [OF nx i(1,2) mb _ 3(4) [OF None] refl refl]
      have unw: "simplefs_ext_unwritten (xs ! i)" using True buf by simp
      have lb: "leaf_blocks buf1 = leaves" using 3(2) buf by simp
      show ?thesis
        unfolding None prod.case option.case wp_bind
      proof (rule sync_file_wp [OF f edited_taking [OF u] lb], goal_cases)
        case 1
        obtain found k where fk: "simplefs_file_find_extent (simplefs_file_normalize_extents buf1) ib = (found, k)" by fastforce
        from conv(1) [OF unw fk refl] show ?case .
      next
        case (2 r' buf' s')
        then show ?case by (auto simp: wp_return get_block_post_def not_None_eq)
      next
        case (3 buf' s')
        obtain found k where fk: "simplefs_file_find_extent buf' ib = (found, k)" by fastforce
        note c = conv(2,3) [OF unw fk 3(4)]
        have "get_block_post s ino xs (unat ib) (Inr (mapped_at (extents buf' ! k) ib)) s'"
          by (rule get_block_postI [OF 3(1) _ 3(3)])
            (use c 3(4) in \<open>simp_all add: mapped_at_def\<close>)
        then show ?case by (simp add: wp_return fk)
      qed
    qed
  qed (use True buf i in simp_all)
qed

lemma get_block_hole_wp:
  assumes f: "file_ok s ino xs leaves" and t: "tframe s t"
    and buf: "extents buf = xs" "leaf_blocks buf = leaves"
    and i: "simplefs_file_find_extent buf ib = (False, i)" and ib: "unat ib < 8192 * 86700"
  shows "wp (get_block_hole E ino exact cu buf i ib mb) (get_block_post s ino xs (unat ib)) t"
proof -
  define len where "len = room_at buf i ib (min (ucast mb) SIMPLEFS_MAX_BLOCKS_PER_EXTENT)"
  have nx: "normal xs" using f by (simp add: file_ok_def)
  have "normal (extents buf)" using nx buf by simp
  note room = room_at_gap [OF this i, where len = "min (ucast mb) SIMPLEFS_MAX_BLOCKS_PER_EXTENT", folded len_def]
  have len: "len \<le> 8192" using room(2) by (simp add: min_le_iff_disj)
  have w: "unat ib + unat n < 2 ^ 32" if "n \<le> 8192" for n :: u32
    using that ib by (simp add: word_le_nat_alt)
  have alloc: "wp (alloc_extent E ino exact cu buf i ib len) (get_block_post s ino xs (unat ib)) u" if "taking s u" for u
    by (rule alloc_extent_wp [OF f that buf]) (use room(1) buf len w in simp_all)
  show ?thesis
  proof (cases "prev_extends buf i ib cu")
    case False
    then show ?thesis
      unfolding get_block_hole_def Let_def len_def [symmetric] if_not_P [OF False] wp_bind wp_return
      by (simp add: alloc tframe_taking [OF t])
  next
    case True
    define p where "p = xs ! (i - 1)"
    have p: "0 < i" "simplefs_ext_end p = ib" "simplefs_ext_unwritten p = cu" "simplefs_ext_len p < 8192"
      using True by (simp_all add: prev_extends_def Let_def p_def buf)
    define g where "g = min len (SIMPLEFS_MAX_BLOCKS_PER_EXTENT - simplefs_ext_len p)"
    have "unat (8192 - simplefs_ext_len p) = 8192 - unat (simplefs_ext_len p)" using p(4) by (simp add: unat_sub_le)
    then have g: "g \<le> len" "g \<le> 8192" "unat (simplefs_ext_len p) + unat g \<le> 8192"
      using p(4) len by (auto simp: g_def min_def word_le_nat_alt word_less_nat_alt)
    have gap: "gap xs i (unat ib) (unat g)" using gap_mono [OF room(1)] g(1) buf by (simp add: word_le_nat_alt)
    have "wp (grow_prev E ino exact cu buf (i - 1) g) (\<lambda>grown. wp (case grown of Some res \<Rightarrow> ret res
        | None \<Rightarrow> alloc_extent E ino exact cu buf i ib len) (get_block_post s ino xs (unat ib))) t"
      by (rule grow_prev_wp [OF f tframe_taking [OF t] buf p(1) p_def p(2,3) gap g(3) w [OF g(2)]])
        (simp_all add: wp_return alloc)
    then show ?thesis
      unfolding get_block_hole_def Let_def len_def [symmetric] if_P [OF True] wp_bind buf(1) p_def [symmetric]
        g_def [symmetric] .
  qed
qed

lemma get_block_mapped_tframe [frame_rules]: "\<not> conv \<Longrightarrow> keeps tframe (get_block_mapped E ino conv buf i ib mb)"
  by (simp add: get_block_mapped_def tfr.keeps_return)

lemma get_block_lookup_tframe: "keeps tframe (simplefs_get_block E ino ib mb False exact cu conv)"
  unfolding simplefs_get_block_def by (intro frame_rules) simp_all

lemma get_block_spec:
  assumes f: "file_ok s ino xs leaves" and mb: "0 < (ucast mb :: u32)"
  shows "wp (simplefs_get_block E ino iblock mb create exact cu conv) (\<lambda>res s'. get_block_post s ino xs (unat iblock) res s' \<or>
     \<not> create \<and> emap xs (unat iblock) = {} \<and> tframe s s' \<and> (\<exists>m. res = Inr m \<and> gb_count m = 0)) s"
proof (cases "unat iblock \<ge> unat SIMPLEFS_MAX_BLOCKS_PER_EXTENT * SIMPLEFS_MAX_FILE_EXTENTS")
  case True
  then show ?thesis by (simp add: simplefs_get_block_def wp_return get_block_post_def untouched_def)
next
  case False
  define ib where "ib = (ucast iblock :: u32)"
  have ib: "unat ib = unat iblock" "unat ib < 8192 * 86700"
    using False by (simp_all add: ib_def unsigned_ucast_eq take_bit_nat_eq_self)
  have tree: "tree_ok (cache s) (ei_block (inodes s ino)) xs leaves" and nx: "normal xs" using f by (simp_all add: file_ok_def)
  define Q where "Q = (\<lambda>res s'. get_block_post s ino xs (unat ib) res s' \<or>
     \<not> create \<and> emap xs (unat ib) = {} \<and> tframe s s' \<and> (\<exists>m. res = Inr m \<and> gb_count m = 0))"
  have load: "wp (simplefs_file_load_extents E (ei_block (inodes s ino))) (\<lambda>p s'. tframe s s' \<and>
      loaded E (cache s) empty_buffer xs leaves p s') s"
    using load_extents_tframe load_extents_spec [OF tree] by (auto simp: keeps_wp intro: wp_conj)
  have "wp (simplefs_get_block E ino iblock mb create exact cu conv) Q s"
    unfolding simplefs_get_block_def if_not_P [OF False] wp_bind wp_gets ib_def [symmetric]
  proof (rule wp_mono [OF load], elim conjE)
    fix p t
    assume t: "tframe s t" "loaded E (cache s) empty_buffer xs leaves p t"
    obtain r buf where p: "p = (r, buf)" by fastforce
    show "wp (case p of (r, buf) \<Rightarrow> case r of None \<Rightarrow> do {
          let iblock = ib; let (found, idx) = simplefs_file_find_extent buf iblock;
          if found then get_block_mapped E ino (create \<and> conv) buf idx iblock mb
          else if \<not> create then ret (Inr \<lparr>gb_count = 0, gb_bno = 0, gb_new = False, gb_unwritten = False\<rparr>)
          else get_block_hole E ino exact cu buf idx iblock mb }
        | Some e \<Rightarrow> ret (Inl e)) Q t"
    proof (cases r)
      case (Some e)
      then show ?thesis
        using taking_untouched [OF f tframe_taking [OF t(1)]] by (simp add: p wp_return Q_def get_block_post_def)
    next
      case None
      have buf: "extents buf = xs" "leaf_blocks buf = leaves" using t(2) None p by (simp_all add: loaded_def empty_buffer_def)
      obtain found i where fd: "simplefs_file_find_extent buf ib = (found, i)" by fastforce
      have nb: "normal (extents buf)" using nx buf by simp
      note fs = find_extent_loop_spec [OF nb fd [unfolded simplefs_file_find_extent_def]]
      have hole: "emap xs (unat ib) = {}" if "\<not> found"
        using gap_emap [of xs i "unat ib" 1 "unat ib"] fs that buf by (simp add: gap_def Suc_le_eq)
      show ?thesis
        unfolding p None prod.case option.case Let_def fd
        using hole t(1) wp_mono [OF get_block_mapped_wp [OF f t(1) buf _ _ mb, of i ib E "create \<and> conv"], of Q]
          wp_mono [OF get_block_hole_wp [OF f t(1) buf _ ib(2), of i E exact cu mb], of Q] fs fd buf
        by (cases found; cases create) (simp_all add: wp_return Q_def)
    qed
  qed
  then show ?thesis by (simp add: Q_def ib)
qed

text \<open>A file with a written and an unwritten extent.\<close>

definition demo_map :: "simplefs_extent list" where
  "demo_map = [simplefs_ext_init 0 6 10 False, simplefs_ext_init 9 1 20 True]"

definition kst_map :: kst where
  "kst_map = kst_file\<lparr>cache := (cache kst_file)(4 := fill_root demo_map [] zero_block)\<rparr>"

lemma kst_map_file: "file_ok kst_map 1 demo_map []"
proof -
  have "root_ok demo_map [] (fill_root demo_map [] zero_block)" by (rule fill_root_ok) (simp_all add: demo_map_def)
  then have "tree_ok (cache kst_map) 4 demo_map []"
    by (simp add: tree_ok_def kst_map_def leaf_count_def demo_map_def)
  moreover have "normal demo_map"
    by (simp add: demo_map_def normal_def ext_ok_def before_def simplefs_extent_is_empty_def)
  ultimately show ?thesis
    using demo_pre(1,2,4) by (simp add: file_ok_def kst_map_def handle_ok_def demo_buffer_def empty_buffer_def)
qed

lemma kst_map_lookup:
  "wp (simplefs_get_block env_ok 1 2 8 create exact cu conv) (\<lambda>res _. res = Inr \<lparr>gb_count = 4, gb_bno = 12,
     gb_new = False, gb_unwritten = False\<rparr>) kst_map"
proof -
  have load: "wp (simplefs_file_load_extents env_ok 4) (loaded env_ok (cache kst_map) empty_buffer demo_map []) kst_map"
    by (rule load_extents_spec) (use kst_map_file demo_pre(4) in \<open>simp add: file_ok_def kst_map_def\<close>)
  have root: "ei_block (inodes kst_map 1) = 4" using demo_pre(4) by (simp add: kst_map_def)
  have find: "simplefs_file_find_extent buf 2 = (True, 0)" if "extents buf = demo_map" for buf
    using that by (simp add: simplefs_file_find_extent_def demo_map_def simplefs_ext_end_def)
  have at: "mapped_at (demo_map ! 0) 2 = \<lparr>gb_count = 4, gb_bno = 12, gb_new = False, gb_unwritten = False\<rparr>"
    "\<not> simplefs_ext_unwritten (demo_map ! 0)"
    by (simp_all add: mapped_at_def demo_map_def)
  show ?thesis
    unfolding simplefs_get_block_def wp_if wp_bind wp_gets root
    by (simp, rule wp_mono [OF load])
      (use demo_pre(5) find at in \<open>auto simp: loaded_def empty_buffer_def get_block_mapped_def wp_return split: option.split\<close>)
qed

text \<open>
  C5. \<open>simplefs_get_block\<close> maps blocks correctly. On a file with extents \<open>xs\<close>: a result with a
  count of 0 is returned only to a lookup of a block that is not mapped, and nothing changes. A result
  with a positive count \<open>n\<close> at physical block \<open>p\<close> means that afterwards the file satisfies
  \<open>file_ok\<close> again, with extents in normal form in which logical block \<open>iblock + k\<close> lies at \<open>p + k\<close> in the reported state for
  all \<open>k < n\<close>, every other logical block is mapped as before, blocks not reported as new already
  were at that place, and blocks reported as new were holes and their physical blocks were free. A
  lookup changes no image, no inode and no allocation. After an error the images from
  \<open>root_dir_block\<close> on are as before, or the file system has failed.
\<close>
theorem get_block_maps:
  assumes "file_ok s ino xs leaves" "0 < (ucast maxblocks :: u32)"
    and "run_state (simplefs_get_block E ino iblock maxblocks create exact cu conv) s = (res, s')"
  shows "(case res of
     Inl e \<Rightarrow> failed s' \<or> (\<forall>n. root_dir_block (sbi s) \<le> n \<longrightarrow> cache s' n = cache s n)
   | Inr m \<Rightarrow> if gb_count m = 0 then \<not> create \<and> emap xs (unat iblock) = {}
      else (\<exists>xs' leaves'. file_ok s' ino xs' leaves' \<and>
        (\<forall>b. emap xs' b = (if unat iblock \<le> b \<and> b < unat iblock + unat (gb_count m)
           then {(unat (gb_bno m) + (b - unat iblock), gb_unwritten m)} else emap xs b)) \<and>
        (\<forall>b. unat iblock \<le> b \<longrightarrow> b < unat iblock + unat (gb_count m) \<longrightarrow>
           fst ` emap xs b = (if gb_new m then {} else {unat (gb_bno m) + (b - unat iblock)}))) \<and>
        (gb_new m \<longrightarrow> {unat (gb_bno m)..<unat (gb_bno m) + unat (gb_count m)} \<subseteq> free_blocks s)) \<and>
    (\<not> create \<longrightarrow> cache s' = cache s \<and> inodes s' = inodes s \<and> sbi s' = sbi s)"
proof -
  note post = wp_run [OF get_block_spec [OF assms(1,2)] assms(3)]
  have "tframe s s'" if "\<not> create"
    using keepsD [OF get_block_lookup_tframe, of E ino iblock maxblocks exact cu conv s res s'] assms(3) that by simp
  then have ro: "\<not> create \<longrightarrow> cache s' = cache s \<and> inodes s' = inodes s \<and> sbi s' = sbi s"
    using tframe_simps [of s s'] by simp
  show ?thesis
    unfolding block_mapped_def [symmetric] untouched_def [symmetric]
  proof (cases res)
    case (Inr m)
    then have "gb_count m = 0 \<Longrightarrow> \<not> create \<and> emap xs (unat iblock) = {}"
      "gb_count m \<noteq> 0 \<Longrightarrow> get_block_post s ino xs (unat iblock) (Inr m) s'"
      using post by (auto simp: get_block_post_def)
    then show "(case res of Inl e \<Rightarrow> untouched s s' | Inr m \<Rightarrow> if gb_count m = 0 then \<not> create \<and> emap xs (unat iblock) = {}
      else (\<exists>xs' leaves'. file_ok s' ino xs' leaves' \<and>
        block_mapped xs (unat iblock) m xs') \<and>
        (gb_new m \<longrightarrow> {unat (gb_bno m)..<unat (gb_bno m) + unat (gb_count m)} \<subseteq> free_blocks s)) \<and>
      (\<not> create \<longrightarrow> cache s' = cache s \<and> inodes s' = inodes s \<and> sbi s' = sbi s)"
      using ro by (simp add: Inr get_block_post_def claimed_def)
  qed (use post ro in \<open>simp add: get_block_post_def\<close>)
qed

theorem get_block_maps_witness:
  "\<exists>s'. run_state (simplefs_get_block env_ok 1 2 8 True True False False) kst_map =
       (Inr \<lparr>gb_count = 4, gb_bno = 12, gb_new = False, gb_unwritten = False\<rparr>, s') \<and>
     (\<exists>xs' leaves'. file_ok s' 1 xs' leaves' \<and> emap xs' 3 = {(13, False)} \<and>
        emap xs' 9 = emap demo_map 9)"
proof -
  obtain res s' where run: "run_state (simplefs_get_block env_ok 1 2 8 True True False False) kst_map = (res, s')"
    by fastforce
  have res: "res = Inr \<lparr>gb_count = 4, gb_bno = 12, gb_new = False, gb_unwritten = False\<rparr>"
    by (rule wp_run [OF kst_map_lookup run])
  from get_block_maps [OF kst_map_file _ run] obtain xs' leaves' where
    x: "file_ok s' 1 xs' leaves'"
      "\<forall>b. emap xs' b = (if 2 \<le> b \<and> b < 6 then {(12 + (b - 2), False)} else emap demo_map b)"
    by (auto simp: res)
  then have "emap xs' 3 = {(13, False)}" "emap xs' 9 = emap demo_map 9" by simp_all
  then show ?thesis using run res x(1) by blast
qed

end
