(* ===== verification/SFS_DirProps.thy ===== *)
theory SFS_DirProps
  imports SFS_DirIndex SFS_GetBlock
begin

text \<open>
  The invariant of a directory: the caches of its index agree with each other and with the records on
  disk, and its extent tree maps its blocks. The directory as a map from names to inode numbers, and what
  an update of the caches does to it.
\<close>

section \<open>Records\<close>

definition name_ok :: "u8 list \<Rightarrow> bool" where
  "name_ok n \<longleftrightarrow> n \<noteq> [] \<and> length n \<le> 255 \<and> 0 \<notin> set n"

lemma put_file_outside:
  assumes "length n \<le> 255" "k < 260 * i \<or> 260 * i + 260 \<le> k"
  shows "put_file i ino n b k = b k"
  using assms by (auto simp: put_file_def Let_def store_bytes_def put32_def mem_set_def)

lemma file_cong:
  assumes "\<And>k. 260 * i \<le> k \<Longrightarrow> k < 260 * i + 260 \<Longrightarrow> b k = c k"
  shows "file_inode b i = file_inode c i" "file_name b i = file_name c i"
proof -
  show "file_inode b i = file_inode c i"
    unfolding file_inode_def by (rule get32_cong) (use assms in simp)
  have "bytes_at b (260 * i + 4) 255 = bytes_at c (260 * i + 4) 255"
    by (rule bytes_at_cong) (use assms in simp)
  then show "file_name b i = file_name c i" by (simp add: file_name_def SIMPLEFS_FILENAME_LEN_def)
qed

lemma put_file_other:
  assumes "length n \<le> 255" "i \<noteq> j"
  shows "file_inode (put_file i ino n b) j = file_inode b j" "file_name (put_file i ino n b) j = file_name b j"
  by (rule file_cong, rule put_file_outside [OF assms(1)], use assms(2) in linarith)+

lemma file_inode_put: "length n \<le> 255 \<Longrightarrow> file_inode (put_file i ino n b) i = ino"
proof (cases "ino = 0")
  case True
  have "get32 (mem_set b (260 * i) 0 260) (260 * i) = get32 zero_block 0"
    by (simp add: get32_def mem_set_def zero_block_def)
  then show ?thesis using True by (simp add: file_inode_def put_file_def get32_def zero_block_def)
qed (simp add: file_inode_def put_file_def Let_def store_bytes_get mem_simps)

lemma file_name_put:
  assumes "name_ok n" "ino \<noteq> 0"
  shows "file_name (put_file i ino n b) i = n"
proof -
  define m :: nat where "m = 255"
  define c where "c = put_file i ino n b"
  have n: "length n \<le> m" "0 \<notin> set n" using assms(1) by (simp_all add: name_ok_def m_def)
  have "c (260 * i + 4 + j) = (if j < length n then n ! j else 0)" if "j < m" for j
    using assms that by (auto simp: c_def m_def put_file_def Let_def store_bytes_def put32_def mem_set_def)
  then have "bytes_at c (260 * i + 4) m = n @ replicate (m - length n) 0"
    using n(1) by (intro nth_equalityI) (auto simp: bytes_at_def nth_append)
  moreover have "takeWhile (\<lambda>x. x \<noteq> 0) (n @ replicate (m - length n) 0) = n"
    using n(2) by (subst takeWhile_append2) (auto simp: takeWhile_replicate)
  ultimately show ?thesis by (simp add: file_name_def SIMPLEFS_FILENAME_LEN_def m_def c_def)
qed

lemma file_name_first:
  assumes "file_name b i \<noteq> []"
  shows "b (260 * i + 4) \<noteq> 0"
proof -
  define m :: nat where "m = 255"
  define xs where "xs = bytes_at b (260 * i + 4) m"
  have "takeWhile (\<lambda>c. c \<noteq> 0) xs \<noteq> []" using assms by (simp add: file_name_def SIMPLEFS_FILENAME_LEN_def m_def xs_def)
  then have "hd xs \<noteq> 0" by (cases xs) (auto split: if_splits)
  moreover have "hd xs = b (260 * i + 4)" by (simp add: xs_def bytes_at_def hd_map m_def)
  ultimately show ?thesis by simp
qed

section \<open>The invariant of an index\<close>

text \<open>
  The record of a slot on disk and the entry in memory agree; the caches agree with each other: every
  entry is in the name table under its name and at its slot, the bitmap marks the slots in use, and
  there is no free slot below \<open>next_free\<close>. The arrays are large enough for the blocks of the directory.
\<close>

definition record_ok :: "block \<Rightarrow> nat \<Rightarrow> simplefs_dir_name option \<Rightarrow> bool" where
  "record_ok b i x = (case x of
     None \<Rightarrow> file_inode b i = 0
   | Some e \<Rightarrow> file_inode b i = dn_ino e \<and> file_name b i = dn_name e)"

definition entry_ok :: "u32 \<Rightarrow> simplefs_dir_index \<Rightarrow> nat \<Rightarrow> simplefs_dir_name \<Rightarrow> bool" where
  "entry_ok nr ix i e \<longleftrightarrow> i < dir_slots ix \<and> unat (dn_slot e) = i \<and> dn_ino e \<noteq> 0 \<and> dn_ino e < nr \<and> name_ok (dn_name e)"

definition index_ok :: "u32 \<Rightarrow> simplefs_dir_index \<Rightarrow> bool" where
  "index_ok nr ix \<longleftrightarrow> length (dx_blocks ix) \<le> unat (dx_capacity ix) \<and> dx_capacity ix \<le> SIMPLEFS_MAX_DIR_BLOCKS \<and>
     (\<forall>i e. dx_entries ix i = Some e \<longrightarrow> entry_ok nr ix i e \<and> dx_names ix (dn_name e) = Some e) \<and>
     (\<forall>n e. dx_names ix n = Some e \<longrightarrow> dn_name e = n \<and> dx_entries ix (unat (dn_slot e)) = Some e) \<and>
     (\<forall>i. dx_used ix i \<longleftrightarrow> dx_entries ix i \<noteq> None) \<and>
     unat (dx_next_free ix) \<le> dir_slots ix \<and> (\<forall>i<unat (dx_next_free ix). dx_used ix i)"

definition disk_ok :: "(u32 \<Rightarrow> block) \<Rightarrow> simplefs_dir_index \<Rightarrow> bool" where
  "disk_ok c ix \<longleftrightarrow> (\<forall>i<dir_slots ix. record_ok (c (dx_blocks ix ! (i div 15))) (i mod 15) (dx_entries ix i))"

text \<open>The directory as its users see it.\<close>

definition contents :: "simplefs_dir_index \<Rightarrow> u8 list \<Rightarrow> u32 option" where
  "contents ix n = map_option dn_ino (dx_names ix n)"

text \<open>
  Directory \<open>dir\<close> has the valid index \<open>ix\<close>: its extent tree on disk maps its blocks in order, tree and
  blocks are different blocks in use, and its inode lies in the inode table.
\<close>

definition maps_blocks :: "simplefs_extent list \<Rightarrow> u32 list \<Rightarrow> bool" where
  "maps_blocks xs bs \<longleftrightarrow> (\<forall>k. emap xs k = (if k < length bs then {(unat (bs ! k), False)} else {}))"

definition dir_ok :: "kst \<Rightarrow> u32 \<Rightarrow> simplefs_dir_index \<Rightarrow> bool" where
  "dir_ok s dir ix \<longleftrightarrow> dir_index (inodes s dir) = Some ix \<and> dx_valid ix \<and>
     dir < nr_inodes (sbi s) \<and> unat (nr_inodes (sbi s)) \<le> 39 * unat (nr_istore_blocks (sbi s)) \<and>
     index_ok (nr_inodes (sbi s)) ix \<and> disk_ok (cache s) ix \<and>
     file_ok s dir (extents (dx_mapping ix)) (leaf_blocks (dx_mapping ix)) \<and>
     meta_ok (sbi s) (ei_block (inodes s dir) # leaf_blocks (dx_mapping ix) @ dx_blocks ix) \<and>
     (\<forall>b\<in>set (dx_blocks ix). b < nr_blocks (sbi s)) \<and> maps_blocks (extents (dx_mapping ix)) (dx_blocks ix)"

lemma grow_capacity_enough:
  assumes "blocks \<le> SIMPLEFS_MAX_DIR_BLOCKS" "0 < capacity" "capacity \<le> SIMPLEFS_MAX_DIR_BLOCKS"
  shows "blocks \<le> grow_capacity capacity blocks \<and> capacity \<le> grow_capacity capacity blocks \<and>
    grow_capacity capacity blocks \<le> SIMPLEFS_MAX_DIR_BLOCKS"
  using assms
proof (induction capacity blocks rule: grow_capacity.induct)
  case (1 c n)
  have u: "unat SIMPLEFS_MAX_DIR_BLOCKS = 1048575" by (simp add: SIMPLEFS_MAX_DIR_BLOCKS_def)
  have "unat (c * 2) = unat c * 2"
    using 1(4) u by (simp add: word_le_nat_alt unat_word_ariths)
  then have more: "c < min (c * 2) SIMPLEFS_MAX_DIR_BLOCKS" if "c < n"
    using that 1(2,3) by (auto simp: word_less_nat_alt word_le_nat_alt)
  show ?case
  proof (cases "c < n")
    case True
    have g: "grow_capacity c n = grow_capacity (min (c * 2) SIMPLEFS_MAX_DIR_BLOCKS) n"
      using True more by (subst grow_capacity.simps) simp
    have "0 < min (c * 2) SIMPLEFS_MAX_DIR_BLOCKS" using less_trans [OF 1(3) more [OF True]] .
    from 1(1) [OF conjI [OF True more [OF True]] 1(2) this min.cobounded2] show ?thesis
      unfolding g using less_imp_le [OF more [OF True]] by (blast intro: order_trans)
  next
    case False
    then have "grow_capacity c n = c" by (subst grow_capacity.simps) simp
    then show ?thesis using False 1(4) by (simp add: not_less)
  qed
qed

section \<open>Changing the caches\<close>

text \<open>Slot \<open>i\<close> gets the entry \<open>x\<close>; the name it had is forgotten.\<close>

definition put_entry :: "nat \<Rightarrow> simplefs_dir_name option \<Rightarrow> simplefs_dir_index \<Rightarrow> simplefs_dir_index" where
  "put_entry i x ix = ix\<lparr>dx_entries := (dx_entries ix)(i := x),
     dx_names := (\<lambda>n. if map_option dn_name x = Some n then x
       else if map_option dn_name (dx_entries ix i) = Some n then None else dx_names ix n),
     dx_used := (dx_used ix)(i := x \<noteq> None),
     dx_next_free := (if x = None then min (dx_next_free ix) (of_nat i)
       else if i = unat (dx_next_free ix) then dx_next_free ix + 1 else dx_next_free ix)\<rparr>"

lemma dir_slots_small: "index_ok nr ix \<Longrightarrow> dir_slots ix \<le> 15728625"
  by (auto simp: index_ok_def dir_slots_def SIMPLEFS_MAX_DIR_BLOCKS_def word_le_nat_alt)

lemma dir_slots_put [simp]: "dir_slots (put_entry i x ix) = dir_slots ix" "dx_blocks (put_entry i x ix) = dx_blocks ix"
  "dx_mapping (put_entry i x ix) = dx_mapping ix" "dx_valid (put_entry i x ix) = dx_valid ix"
  by (simp_all add: dir_slots_def put_entry_def)

lemma contents_put: "contents (put_entry i x ix) = (\<lambda>n. if map_option dn_name x = Some n then map_option dn_ino x
    else if map_option dn_name (dx_entries ix i) = Some n then None else contents ix n)"
  by (simp add: contents_def put_entry_def fun_eq_iff del: map_option_eq_Some)

definition fits_slot :: "u32 \<Rightarrow> simplefs_dir_index \<Rightarrow> nat \<Rightarrow> simplefs_dir_name option \<Rightarrow> bool" where
  "fits_slot nr ix i x = (case x of None \<Rightarrow> True | Some e \<Rightarrow> entry_ok nr ix i e \<and>
     (dx_names ix (dn_name e) = None \<or> map_option dn_name (dx_entries ix i) = Some (dn_name e)))"

lemma put_entry_ok:
  assumes ok: "index_ok nr ix" and i: "i < dir_slots ix" and x: "fits_slot nr ix i x"
  shows "index_ok nr (put_entry i x ix)"
proof -
  note o = ok [unfolded index_ok_def]
  have ent: "entry_ok nr ix j e" "dx_names ix (dn_name e) = Some e" if "dx_entries ix j = Some e" for j e
    using o that by blast+
  have nam: "dn_name e = n" "dx_entries ix (unat (dn_slot e)) = Some e" if "dx_names ix n = Some e" for n e
    using o that by blast+
  have same: "entry_ok nr (put_entry i x ix) = entry_ok nr ix" by (simp add: entry_ok_def fun_eq_iff)
  have small: "i < 4294967296" "unat (of_nat i :: u32) = i"
    using i dir_slots_small [OF ok] by (simp_all add: unat_of_nat_u32)
  have suc: "unat (dx_next_free ix + 1) = Suc i" if "i = unat (dx_next_free ix)"
    using that i dir_slots_small [OF ok] by (subst unat_add_no_wrap) simp_all
  have free: "unat (dx_next_free ix) \<le> dir_slots ix" using o by blast
  have used: "dx_used ix j" if "j < unat (dx_next_free ix)" for j using o that by blast
  have nf: "unat (dx_next_free (put_entry i x ix)) \<le> dir_slots ix \<and>
      (\<forall>j<unat (dx_next_free (put_entry i x ix)). dx_used (put_entry i x ix) j)"
    using free used i suc small by (auto simp: put_entry_def less_Suc_eq min_def word_le_nat_alt split: if_splits)
  have e: "entry_ok nr ix j e \<and> dx_names (put_entry i x ix) (dn_name e) = Some e"
    if j: "dx_entries (put_entry i x ix) j = Some e" for j e
  proof (cases "j = i")
    case True
    then have "x = Some e" using j by (simp add: put_entry_def)
    then show ?thesis using x True by (simp add: put_entry_def fits_slot_def)
  next
    case False
    then have j': "dx_entries ix j = Some e" using j by (simp add: put_entry_def)
    have "dn_name o' \<noteq> dn_name e" if "dx_entries ix i = Some o'" for o'
    proof
      assume "dn_name o' = dn_name e"
      then have "o' = e" using ent(2) [OF that] ent(2) [OF j'] by (metis option.inject)
      then show False using ent(1) [OF that] ent(1) [OF j'] False unfolding entry_ok_def by metis
    qed
    then have m: "map_option dn_name (dx_entries ix i) \<noteq> Some (dn_name e)" by auto
    then have "map_option dn_name x \<noteq> Some (dn_name e)"
      using x ent(2) [OF j'] by (cases x) (simp_all add: fits_slot_def, metis option.distinct(1))
    then show ?thesis using ent [OF j'] m by (simp add: put_entry_def del: map_option_eq_Some)
  qed
  have n: "dn_name e = n \<and> dx_entries (put_entry i x ix) (unat (dn_slot e)) = Some e"
    if "dx_names (put_entry i x ix) n = Some e" for n e
  proof (cases "map_option dn_name x = Some n")
    case True
    then show ?thesis using that x by (auto simp: put_entry_def fits_slot_def entry_ok_def)
  next
    case False
    then have n': "dx_names ix n = Some e" "map_option dn_name (dx_entries ix i) \<noteq> Some n"
      using that by (simp_all add: put_entry_def del: map_option_eq_Some split: if_splits)
    then have "unat (dn_slot e) \<noteq> i" using nam [OF n'(1)] by auto
    then show ?thesis using nam [OF n'(1)] by (simp add: put_entry_def)
  qed
  have u: "\<forall>j. dx_used (put_entry i x ix) j \<longleftrightarrow> dx_entries (put_entry i x ix) j \<noteq> None"
    using o by (simp add: put_entry_def)
  have c: "dx_capacity (put_entry i x ix) = dx_capacity ix" by (simp add: put_entry_def)
  show ?thesis
    unfolding index_ok_def same dir_slots_put c using e n u nf o by blast
qed

text \<open>The cases of \<open>set_caches\<close>: a slot is emptied, gets a new name, or keeps its name.\<close>

lemma set_caches_remove: "set_caches slot 0 None ix = put_entry (unat slot) None ix"
  by (cases "dx_entries ix (unat slot)")
    (auto simp: set_caches_def put_entry_def names_remove_def Let_def fun_eq_iff)

lemma set_caches_new:
  assumes "ino \<noteq> 0" "dx_names ix (dn_name e) = None" "dn_ino e = ino" "dn_slot e = slot" "index_ok nr ix"
  shows "set_caches slot ino (Some e) (ix\<lparr>dx_names := (dx_names ix)(dn_name e \<mapsto> e)\<rparr>) = put_entry (unat slot) (Some e) ix"
proof -
  have e: "e\<lparr>dn_ino := ino\<rparr> = e" using assms(3) by (cases e) simp
  have "dn_name o' \<noteq> dn_name e" if "dx_entries ix (unat slot) = Some o'" for o'
    using that assms(2,5) unfolding index_ok_def by (metis option.distinct(1))
  then show ?thesis
    using assms(1) e
    by (cases "dx_entries ix (unat slot)")
      (auto simp: set_caches_def put_entry_def names_remove_def Let_def fun_eq_iff word_unat_eq_iff)
qed

lemma set_caches_keep:
  assumes "ino \<noteq> 0" "dx_entries ix (unat slot) = Some o'"
  shows "set_caches slot ino None ix = put_entry (unat slot) (Some (o'\<lparr>dn_ino := ino\<rparr>)) ix"
  using assms
  by (auto simp: set_caches_def put_entry_def Let_def fun_eq_iff word_unat_eq_iff)

lemma put_entry_disk:
  assumes "disk_ok c ix" "distinct (dx_blocks ix)" "i < dir_slots ix" "length n \<le> 255"
    and "bno = dx_blocks ix ! (i div 15)" "record_ok (put_file (i mod 15) ino n (c bno)) (i mod 15) x"
  shows "disk_ok (c(bno := put_file (i mod 15) ino n (c bno))) (put_entry i x ix)"
  unfolding disk_ok_def dir_slots_put
proof (intro allI impI)
  fix j
  assume j: "j < dir_slots ix"
  have d: "i div 15 < length (dx_blocks ix)" "j div 15 < length (dx_blocks ix)"
    using assms(3) j by (auto simp: dir_slots_def less_mult_imp_div_less)
  have old: "record_ok (c (dx_blocks ix ! (j div 15))) (j mod 15) (dx_entries ix j)" using assms(1) j by (simp add: disk_ok_def)
  consider "j = i" | "j \<noteq> i" "j div 15 = i div 15" | "j div 15 \<noteq> i div 15" by blast
  then show "record_ok ((c(bno := put_file (i mod 15) ino n (c bno))) (dx_blocks ix ! (j div 15))) (j mod 15)
      (dx_entries (put_entry i x ix) j)"
  proof cases
    case 1
    then show ?thesis using assms(5,6) by (simp add: put_entry_def)
  next
    case 2
    then have "i mod 15 \<noteq> j mod 15" by (metis div_mult_mod_eq)
    then show ?thesis
      using 2 old put_file_other [OF assms(4), of "i mod 15" "j mod 15"] assms(5)
      by (cases "dx_entries ix j") (simp_all add: put_entry_def record_ok_def)
  next
    case 3
    then have "dx_blocks ix ! (j div 15) \<noteq> bno" using d assms(2,5) by (simp add: nth_eq_iff_index_eq)
    then show ?thesis using 3 old by (auto simp: put_entry_def)
  qed
qed

section \<open>States with the same directory\<close>

lemma wp_upd_index: "wp (upd_index dir f) Q s =
    Q () (s\<lparr>inodes := (inodes s)(dir := (inodes s dir)\<lparr>dir_index := map_option f (dir_index (inodes s dir))\<rparr>)\<rparr>)"
  by (simp add: upd_index_def wp_simps)

lemma wp_the_index: "dir_index (inodes s dir) = Some ix \<Longrightarrow> wp (the_index dir) Q s = Q ix s"
  by (simp add: the_index_def wp_simps)

text \<open>Only the index of \<open>dir\<close>, images and the history have changed.\<close>

definition dir_moved :: "kst \<Rightarrow> u32 \<Rightarrow> simplefs_dir_index \<Rightarrow> (u32 \<Rightarrow> block) \<Rightarrow> kst \<Rightarrow> bool" where
  "dir_moved s dir ix c s' \<longleftrightarrow> grows s s' \<and> sbi s' = sbi s \<and> s_journal s' = s_journal s \<and> s_fs_info s' = s_fs_info s \<and>
     inodes s' = (inodes s)(dir := (inodes s dir)\<lparr>dir_index := Some ix\<rparr>) \<and> cache s' = c"

lemma dir_moved_refl: "dir_index (inodes s dir) = Some ix \<Longrightarrow> dir_moved s dir ix (cache s) s"
  by (simp add: dir_moved_def grows_refl fun_eq_iff)

lemma dir_moved_sframe:
  "dir_moved s dir ix c t \<Longrightarrow> sframe t u \<Longrightarrow> grows t u \<Longrightarrow> cache u = cache t \<Longrightarrow> dir_moved s dir ix c u"
  by (auto simp: dir_moved_def sframe_def jframe_def intro: grows_trans)

lemma dir_moved_trace: "dir_moved s dir ix c t \<Longrightarrow> dir_moved s dir ix c (t\<lparr>trace := x # trace t\<rparr>)"
  by (auto simp: dir_moved_def grows_def intro: suffix_ConsI)

lemma dir_moved_index:
  "dir_moved s dir ix c t \<Longrightarrow>
   dir_moved s dir ix' c (t\<lparr>inodes := (inodes t)(dir := (inodes t dir)\<lparr>dir_index := Some ix'\<rparr>)\<rparr>)"
  by (auto simp: dir_moved_def grows_def)

lemma dir_moved_get: "dir_moved s dir ix c t \<Longrightarrow> dir_index (inodes t dir) = Some ix"
  by (simp add: dir_moved_def)

lemma dir_ok_blocks:
  assumes "dir_ok s dir ix"
  shows "distinct (dx_blocks ix)" "ei_block (inodes s dir) \<notin> set (dx_blocks ix)"
    "set (leaf_blocks (dx_mapping ix)) \<inter> set (dx_blocks ix) = {}" "\<And>b. b \<in> set (dx_blocks ix) \<Longrightarrow> root_dir_block (sbi s) \<le> b"
  using assms by (auto simp: dir_ok_def meta_ok_def)

lemma dir_moved_ok:
  assumes ok: "dir_ok s dir ix" and m: "dir_moved s dir ix' c s'"
    and c: "\<And>n. n \<notin> set (dx_blocks ix) \<Longrightarrow> root_dir_block (sbi s) \<le> n \<Longrightarrow> c n = cache s n"
    and ix': "dx_blocks ix' = dx_blocks ix" "dx_mapping ix' = dx_mapping ix" "dx_valid ix'"
      "index_ok (nr_inodes (sbi s)) ix'" "disk_ok c ix'"
  shows "dir_ok s' dir ix'"
proof -
  let ?root = "ei_block (inodes s dir)" and ?xs = "extents (dx_mapping ix)" and ?ls = "leaf_blocks (dx_mapping ix)"
  note o = ok [unfolded dir_ok_def]
  have meta: "meta_ok (sbi s) (?root # ?ls @ dx_blocks ix)" and fok: "file_ok s dir ?xs ?ls" using o by auto
  have same: "c n = cache s n" if "n \<in> set (?root # ?ls)" for n
    by (rule c) (use that meta in \<open>auto simp: meta_ok_def\<close>)
  have "tree_ok c ?root ?xs ?ls"
    by (rule tree_ok_cong [of "cache s"]) (use fok same in \<open>simp_all add: file_ok_def\<close>)
  then have "file_ok s' dir ?xs ?ls"
    using fok m by (simp add: file_ok_def dir_moved_def handle_ok_def)
  then show ?thesis using o m ix' by (simp add: dir_ok_def dir_moved_def)
qed

end
