(* ===== verification/SFS_DirSet.thy ===== *)
theory SFS_DirSet
  imports SFS_DirProps
begin

text \<open>
  \<open>simplefs_dir_set\<close> enters, replaces and removes entries: it writes the record of the slot and brings
  the caches in line, or leaves the directory as it was.
\<close>

section \<open>The effect on the index\<close>

definition new_entry :: "u32 \<Rightarrow> u32 \<Rightarrow> u8 list option \<Rightarrow> simplefs_dir_name option \<Rightarrow> simplefs_dir_name option" where
  "new_entry slot ino name old = (if ino = 0 then None else (case name of
     Some n \<Rightarrow> Some \<lparr>dn_name = n, dn_ino = ino, dn_slot = slot\<rparr>
   | None \<Rightarrow> map_option (\<lambda>e. e\<lparr>dn_ino := ino\<rparr>) old))"

definition entry_name :: "simplefs_dir_name option \<Rightarrow> u8 list" where
  "entry_name x = (case x of None \<Rightarrow> [] | Some e \<Rightarrow> dn_name e)"

definition set_post :: "kst \<Rightarrow> u32 \<Rightarrow> simplefs_dir_index \<Rightarrow> nat \<Rightarrow> u32 \<Rightarrow> simplefs_dir_name option \<Rightarrow> status \<Rightarrow> kst \<Rightarrow> bool" where
  "set_post s dir ix i ino x r s' = (case r of
     None \<Rightarrow> fits_slot (nr_inodes (sbi s)) ix i x \<and> map_option dn_ino x = (if ino = 0 then None else Some ino) \<and>
       dir_moved s dir (put_entry i x ix) ((cache s)(dx_blocks ix ! (i div 15) :=
         put_file (i mod 15) ino (entry_name x) (cache s (dx_blocks ix ! (i div 15))))) s'
   | Some e \<Rightarrow> failed s' \<or> dir_moved s dir ix (cache s) s')"

lemma put_file_zero: "put_file i 0 n = put_file i 0 m"
  by (simp add: put_file_def fun_eq_iff)

lemma set_new_name_wp:
  assumes ix: "dir_index (inodes s dir) = Some ix"
    and err: "\<And>e t. dir_moved s dir ix (cache s) t \<Longrightarrow> Q (Some e, None) t"
    and old: "ino = 0 \<or> name = None \<or> map_option dn_name (dx_entries ix (unat slot)) = name \<Longrightarrow> Q (None, None) s"
    and new: "\<And>n e t. ino \<noteq> 0 \<Longrightarrow> name = Some n \<Longrightarrow> dx_names ix n = None \<Longrightarrow> e = \<lparr>dn_name = n, dn_ino = ino, dn_slot = slot\<rparr> \<Longrightarrow>
      dir_moved s dir (ix\<lparr>dx_names := (dx_names ix)(n \<mapsto> e)\<rparr>) (cache s) t \<Longrightarrow> Q (None, Some e) t"
  shows "wp (set_new_name E dir slot ino name) Q s"
proof (cases "ino \<noteq> 0 \<and> name \<noteq> None \<and> map_option dn_name (dx_entries ix (unat slot)) \<noteq> name")
  case False
  then show ?thesis
    using old by (auto simp: set_new_name_def wp_bind wp_the_index [OF ix] wp_return Let_def split: option.split)
next
  case True
  then obtain n where n: "name = Some n" by blast
  have c: "ino \<noteq> 0 \<and> (case dx_entries ix (unat slot) of None \<Rightarrow> True | Some o' \<Rightarrow> dn_name o' \<noteq> n)"
    using True n by (auto split: option.split)
  note m = dir_moved_refl [OF ix]
  have d: "dir_moved s dir ix (cache s) (s\<lparr>trace := x # trace s\<rparr>)" for x by (rule dir_moved_trace [OF m])
  show ?thesis
    unfolding set_new_name_def wp_bind wp_the_index [OF ix] Let_def n option.case if_P [OF c]
    using err [OF d] err [OF dir_moved_index [OF d]] err [OF dir_moved_index [OF dir_moved_trace [OF d]]] c ix
      new [OF _ n _ refl dir_moved_index [OF dir_moved_trace [OF d]]]
    by (auto simp: wp_simps names_insert_def wp_upd_index)
qed

text \<open>The part after the name is entered, with the clean-up of the error paths.\<close>

definition set_rest :: "env \<Rightarrow> u32 \<Rightarrow> u32 \<Rightarrow> u32 \<Rightarrow> simplefs_dir_index \<Rightarrow> simplefs_dir_name option \<Rightarrow> (kst, status) state" where
  "set_rest E dir slot ino ix entry = do {
     let undo = (case entry of None \<Rightarrow> ret () | Some e \<Rightarrow> upd_index dir (names_remove (dn_name e)));
     let bno = dx_blocks ix ! (unat slot div SIMPLEFS_FILES_PER_BLOCK);
     data \<leftarrow> simplefs_get_folio E bno;
     (case data of
        Inl e \<Rightarrow> do { undo; ret (Some e) }
      | Inr b \<Rightarrow> do {
          let n = (case entry of Some e \<Rightarrow> dn_name e
             | None \<Rightarrow> (case dx_entries ix (unat slot) of None \<Rightarrow> [] | Some o' \<Rightarrow> dn_name o'));
          set_cache bno (put_file (unat slot mod SIMPLEFS_FILES_PER_BLOCK) ino n b);
          r \<leftarrow> simplefs_journal_dirty_folio E bno bno;
          (case r of
             Some e \<Rightarrow> do {
               upd_index dir (\<lambda>ix. ix\<lparr>dx_valid := False\<rparr>);
               simplefs_journal_fail e;
               undo;
               ret (Some e)
             }
           | None \<Rightarrow> do { upd_index dir (set_caches slot ino entry); ret None })
        })
   }"

lemma fail_wp: "(\<And>s'. s_shutdown s' \<Longrightarrow> Q () s') \<Longrightarrow> wp (simplefs_journal_fail e) Q s"
  by (auto simp: simplefs_journal_fail_def wp_simps)

lemma set_rest_wp:
  assumes t: "dir_moved s dir ix1 (cache s) t"
    and undo: "case entry of None \<Rightarrow> ix1 = ix | Some e \<Rightarrow> names_remove (dn_name e) ix1 = ix"
    and fin: "set_caches slot ino entry ix1 = put_entry (unat slot) x ix"
    and x: "fits_slot (nr_inodes (sbi s)) ix (unat slot) x" "map_option dn_ino x = (if ino = 0 then None else Some ino)"
    and n: "ino \<noteq> 0 \<Longrightarrow> (case entry of Some e \<Rightarrow> dn_name e
      | None \<Rightarrow> (case dx_entries ix (unat slot) of None \<Rightarrow> [] | Some o' \<Rightarrow> dn_name o')) = entry_name x"
  shows "wp (set_rest E dir slot ino ix entry) (set_post s dir ix (unat slot) ino x) t"
proof -
  let ?bno = "dx_blocks ix ! (unat slot div 15)" and ?i = "unat slot mod 15"
  define nm where "nm = (case entry of Some e \<Rightarrow> dn_name e
    | None \<Rightarrow> (case dx_entries ix (unat slot) of None \<Rightarrow> [] | Some o' \<Rightarrow> dn_name o'))"
  let ?c = "(cache s)(?bno := put_file ?i ino (entry_name x) (cache s ?bno))"
  have p: "put_file ?i ino nm = put_file ?i ino (entry_name x)"
    using n put_file_zero by (cases "ino = 0") (auto simp: nm_def)
  have undone: "dir_moved s dir ix (cache s) (u\<lparr>inodes := (inodes u)(dir := (inodes u dir)\<lparr>dir_index :=
      map_option (names_remove (dn_name e)) (dir_index (inodes u dir))\<rparr>)\<rparr>)"
    if "dir_moved s dir ix1 (cache s) u" "entry = Some e" for u e
    using dir_moved_index [OF that(1), of "names_remove (dn_name e) ix1"] undo that by (simp add: dir_moved_get)
  have moved: "dir_moved s dir (put_entry (unat slot) x ix) ?c (v\<lparr>inodes := (inodes v)(dir := (inodes v dir)\<lparr>dir_index :=
      map_option (set_caches slot ino entry) (dir_index (inodes v dir))\<rparr>)\<rparr>)"
    if u: "dir_moved s dir ix1 (cache s) u" and v: "sframe (u\<lparr>cache := ?c\<rparr>) v" "oframe (u\<lparr>cache := ?c\<rparr>) v" "cache v = ?c" for u v
  proof -
    have "dir_moved s dir ix1 ?c (u\<lparr>cache := ?c\<rparr>)" using u by (simp add: dir_moved_def grows_def)
    then have w: "dir_moved s dir ix1 ?c v" by (rule dir_moved_sframe) (use v in \<open>simp_all add: oframe_grows\<close>)
    show ?thesis unfolding dir_moved_get [OF w] option.map fin by (rule dir_moved_index [OF w])
  qed
  show ?thesis
    unfolding set_rest_def Let_def wp_bind nm_def [symmetric] format_constants
  proof (rule get_image_wp, goal_cases)
    case (1 e u)
    have u: "dir_moved s dir ix1 (cache s) u" by (rule dir_moved_sframe [OF t 1(1-3)])
    then show ?case
      using undone [OF u] undo by (cases entry) (simp_all add: wp_simps wp_upd_index set_post_def)
  next
    case (2 u)
    have u: "dir_moved s dir ix1 (cache s) u" by (rule dir_moved_sframe [OF t 2(1-3)])
    have ct: "cache t = cache s" "cache u = cache s" using t u by (simp_all add: dir_moved_def)
    show ?case
      unfolding sum.case wp_bind wp_set_cache p ct
    proof (rule dirty_folio_wp, goal_cases)
      case (1 r v)
      show ?case
      proof (cases r)
        case None
        then show ?thesis using moved [OF u] 1 x by (simp add: wp_simps wp_upd_index set_post_def)
      next
        case (Some e)
        show ?thesis unfolding Some option.case wp_bind wp_upd_index
          by (rule fail_wp) (cases entry; simp add: wp_simps wp_upd_index set_post_def failed_def)
      qed
    qed
  qed
qed

lemma dir_set_rest:
  "simplefs_dir_set E dir slot ino name = do {
     ix \<leftarrow> the_index dir;
     if unat slot \<ge> dir_slots ix then ret (Some EFSCORRUPTED)
     else if (case name of None \<Rightarrow> False | Some n \<Rightarrow> length n > SIMPLEFS_FILENAME_LEN) then ret (Some ENAMETOOLONG)
     else if ino \<noteq> 0 \<and> name = None \<and> dx_entries ix (unat slot) = None then ret (Some ENOENT)
     else do {
       (r, entry) \<leftarrow> set_new_name E dir slot ino name;
       if r \<noteq> None then ret r else set_rest E dir slot ino ix entry
     }
   }"
  by (simp only: simplefs_dir_set_def set_rest_def Let_def)

lemma index_entry:
  assumes "index_ok nr ix" "dx_entries ix i = Some e"
  shows "entry_ok nr ix i e" "dx_names ix (dn_name e) = Some e"
  using assms unfolding index_ok_def by blast+

lemma dir_set_wp:
  assumes ix: "dir_index (inodes s dir) = Some ix" and ok: "index_ok (nr_inodes (sbi s)) ix"
    and name: "case name of None \<Rightarrow> True | Some n \<Rightarrow> name_ok n" and ino: "ino < nr_inodes (sbi s)"
  shows "wp (simplefs_dir_set E dir slot ino name)
    (set_post s dir ix (unat slot) ino (new_entry slot ino name (dx_entries ix (unat slot)))) s"
proof -
  let ?old = "dx_entries ix (unat slot)" and ?i = "unat slot"
  define x where "x = new_entry slot ino name ?old"
  have err: "set_post s dir ix ?i ino x (Some e) t" if "dir_moved s dir ix (cache s) t" for e t
    using that by (simp add: set_post_def)
  note e0 = err [OF dir_moved_refl [OF ix]]
  show ?thesis
  proof (cases "?i \<ge> dir_slots ix \<or> ino \<noteq> 0 \<and> name = None \<and> ?old = None")
    case True
    then show ?thesis
      unfolding dir_set_rest wp_bind wp_the_index [OF ix] x_def [symmetric] using e0 by (auto simp: wp_return)
  next
    case False
    have len: "\<not> (case name of None \<Rightarrow> False | Some n \<Rightarrow> length n > SIMPLEFS_FILENAME_LEN)"
      using name by (auto simp: name_ok_def SIMPLEFS_FILENAME_LEN_def split: option.split)
    have g: "\<not> ?i \<ge> dir_slots ix" "\<not> (ino \<noteq> 0 \<and> name = None \<and> ?old = None)" using False by auto
    note eo = index_entry [OF ok]
    show ?thesis
      unfolding dir_set_rest wp_bind wp_the_index [OF ix] if_not_P [OF g(1)] if_not_P [OF len] if_not_P [OF g(2)]
        x_def [symmetric]
    proof (rule set_new_name_wp [OF ix], goal_cases)
      case (1 e t)
      then show ?case by (simp add: wp_return err)
    next
      case 2
      have keep: "x = map_option (\<lambda>e. e\<lparr>dn_ino := ino\<rparr>) ?old" if "ino \<noteq> 0"
        using 2 that eo(1) g(2)
        by (cases ?old; cases name) (auto simp: x_def new_entry_def entry_ok_def word_unat_eq_iff)
      have "wp (set_rest E dir slot ino ix None) (set_post s dir ix ?i ino x) s"
      proof (cases "ino = 0")
        case True
        then have "x = None" by (simp add: x_def new_entry_def)
        then show ?thesis
          by (intro set_rest_wp [OF dir_moved_refl [OF ix]])
            (use True in \<open>simp_all add: set_caches_remove fits_slot_def\<close>)
      next
        case False
        then obtain o' where o': "?old = Some o'" using keep 2 g(2) by (cases ?old; cases name) auto
        have "x = Some (o'\<lparr>dn_ino := ino\<rparr>)" using keep [OF False] o' by simp
        then show ?thesis
          by (intro set_rest_wp [OF dir_moved_refl [OF ix]])
            (use False o' eo(1) [OF o'] ino in \<open>simp_all add: set_caches_keep fits_slot_def entry_ok_def entry_name_def\<close>)
      qed
      then show ?case by simp
    next
      case (3 n e t)
      have x: "x = Some e" using 3 by (simp add: x_def new_entry_def)
      have e: "dn_name e = n" "dn_ino e = ino" "dn_slot e = slot" using 3(4) by simp_all
      have "wp (set_rest E dir slot ino ix (Some e)) (set_post s dir ix ?i ino x) t"
        by (rule set_rest_wp [OF 3(5)])
          (use 3(1-3) e x ok g(1) name ino set_caches_new [of ino ix e slot] in
            \<open>auto simp: names_remove_def fits_slot_def entry_ok_def entry_name_def fun_upd_idem\<close>)
      then show ?case by simp
    qed
  qed
qed

lemma set_post_ok:
  assumes ok: "dir_ok s dir ix" and i: "i < dir_slots ix" and p: "set_post s dir ix i ino x None s'"
  shows "dir_ok s' dir (put_entry i x ix)"
proof -
  note p' = p [unfolded set_post_def option.case]
  let ?bno = "dx_blocks ix ! (i div 15)"
  let ?c = "(cache s)(?bno := put_file (i mod 15) ino (entry_name x) (cache s ?bno))"
  have o: "index_ok (nr_inodes (sbi s)) ix" "disk_ok (cache s) ix" "dx_valid ix" using ok by (simp_all add: dir_ok_def)
  have "entry_name x = [] \<or> name_ok (entry_name x)"
    using p' by (cases x) (auto simp: entry_name_def fits_slot_def entry_ok_def)
  then have n: "length (entry_name x) \<le> 255" by (auto simp: name_ok_def)
  have r: "record_ok (put_file (i mod 15) ino (entry_name x) b) (i mod 15) x" for b
    using p' n by (cases x) (auto simp: record_ok_def file_inode_put file_name_put fits_slot_def entry_ok_def
        entry_name_def split: if_splits)
  have "?bno \<in> set (dx_blocks ix)" using i by (simp add: dir_slots_def less_mult_imp_div_less)
  then show ?thesis
    by (intro dir_moved_ok [OF ok, of _ ?c])
      (use p' o put_entry_ok [OF o(1) i] put_entry_disk [OF o(2) dir_ok_blocks(1) [OF ok] i n refl r] in auto)
qed

lemma set_post_error: "dir_ok s dir ix \<Longrightarrow> set_post s dir ix i ino x (Some e) s' \<Longrightarrow> failed s' \<or> dir_ok s' dir ix"
  using dir_moved_ok [of s dir ix ix "cache s" s'] by (auto simp: set_post_def dir_ok_def)

text \<open>What the name and the inode number of a slot become.\<close>

definition set_name :: "u32 \<Rightarrow> u8 list option \<Rightarrow> u8 list option \<Rightarrow> u8 list option" where
  "set_name ino name old = (if ino = 0 then None else (case name of Some n \<Rightarrow> Some n | None \<Rightarrow> old))"

lemma new_entry_name: "map_option dn_name (new_entry slot ino name old) = set_name ino name (map_option dn_name old)"
  by (cases old; cases name) (simp_all add: new_entry_def set_name_def)

end
