(* ===== verification/SFS_DirAdd.thy ===== *)
theory SFS_DirAdd
  imports SFS_DirSet
begin

text \<open>
  \<open>simplefs_dir_free_slot\<close> finds a free slot or makes one by appending a zeroed block to the
  directory; \<open>simplefs_dir_add\<close> enters a name at the slot and writes the inode.
\<close>

section \<open>Finding a slot\<close>

lemma next_zero_free: "next_zero m n start = k \<Longrightarrow> k < n \<Longrightarrow> \<not> m k"
  by (auto simp: next_zero_def find_Some_iff split: option.splits)

lemma reserve_wp:
  assumes ok: "index_ok nr ix"
    and "\<And>e t. tframe s t \<Longrightarrow> \<not> quiet E \<or> SIMPLEFS_MAX_DIR_BLOCKS < blocks \<Longrightarrow> Q (Some e, ix) t"
    and "\<And>cap t. tframe s t \<Longrightarrow> blocks \<le> cap \<Longrightarrow> dx_capacity ix \<le> cap \<Longrightarrow> cap \<le> SIMPLEFS_MAX_DIR_BLOCKS \<Longrightarrow>
      Q (None, ix\<lparr>dx_capacity := cap\<rparr>) t"
  shows "wp (simplefs_dir_reserve E blocks ix) Q s"
proof -
  have cap: "dx_capacity ix \<le> SIMPLEFS_MAX_DIR_BLOCKS" "length (dx_blocks ix) \<le> unat (dx_capacity ix)"
    using ok unfolding index_ok_def by blast+
  have e: "dx_entries ix i = None" "\<not> dx_used ix i" if "\<not> i < dir_slots ix \<or> dx_capacity ix = 0" for i
  proof -
    have "\<not> i < dir_slots ix" using that cap(2) by (auto simp: dir_slots_def)
    then show "dx_entries ix i = None" "\<not> dx_used ix i"
      using ok by (cases "dx_entries ix i"; fastforce simp: index_ok_def entry_ok_def)+
  qed
  have same: "(\<lambda>i. if dx_capacity ix \<noteq> 0 \<and> i < dir_slots ix then dx_entries ix i else None) = dx_entries ix"
    "(\<lambda>i. dx_capacity ix \<noteq> 0 \<and> i < dir_slots ix \<and> dx_used ix i) = dx_used ix"
    using e by (auto simp: fun_eq_iff)
  have keep: "ix\<lparr>dx_capacity := dx_capacity ix\<rparr> = ix" "ix\<lparr>dx_capacity := c, dx_entries := dx_entries ix, dx_used := dx_used ix\<rparr> = ix\<lparr>dx_capacity := c\<rparr>" for c
    by simp_all
  have m: "0 < max 4 (dx_capacity ix)" "max 4 (dx_capacity ix) \<le> SIMPLEFS_MAX_DIR_BLOCKS"
    using cap(1) by (simp_all add: less_max_iff_disj SIMPLEFS_MAX_DIR_BLOCKS_def)
  have stay: "Q (None, ix) s" if "blocks \<le> dx_capacity ix"
    using assms(3) [OF tframe_refl that order_refl cap(1)] by simp
  have nq: "\<not> quiet E" if "kret E tr Kmalloc = Some y" for tr y using that by (auto simp: quiet_def)
  have three: "tframe s (s\<lparr>trace := x # y # z # trace s\<rparr>)" for x y z
    by (simp add: tframe_def suffix_ConsI)
  show ?thesis
    unfolding simplefs_dir_reserve_def same Let_def
    using stay assms(2) [OF tframe_refl] assms(2) [OF three] assms(3) [OF three] grow_capacity_enough [OF _ m, of blocks]
    by (auto simp: wp_simps not_less not_None_eq dest: nq)
qed

section \<open>Keeping a directory\<close>

text \<open>Two indexes that differ in the room of their arrays only.\<close>

definition same_dir :: "simplefs_dir_index \<Rightarrow> simplefs_dir_index \<Rightarrow> bool" where
  "same_dir ix ix' \<longleftrightarrow> (\<exists>c m. ix' = ix\<lparr>dx_capacity := c, dx_mapping := m\<rparr> \<and> dx_capacity ix \<le> c \<and>
     c \<le> SIMPLEFS_MAX_DIR_BLOCKS \<and> extents m = extents (dx_mapping ix) \<and> leaf_blocks m = leaf_blocks (dx_mapping ix))"

lemma same_dir_index_ok: "index_ok nr ix \<Longrightarrow> same_dir ix ix' \<Longrightarrow> index_ok nr ix'"
  by (auto simp: same_dir_def index_ok_def entry_ok_def dir_slots_def word_le_nat_alt)

lemma same_dir_fields:
  assumes "same_dir ix ix'"
  shows "dx_blocks ix' = dx_blocks ix" "dx_names ix' = dx_names ix" "dx_entries ix' = dx_entries ix"
    "dx_valid ix' = dx_valid ix" "extents (dx_mapping ix') = extents (dx_mapping ix)" "dir_slots ix' = dir_slots ix"
    "leaf_blocks (dx_mapping ix') = leaf_blocks (dx_mapping ix)" "contents ix' = contents ix"
  using assms by (auto simp: same_dir_def dir_slots_def contents_def fun_eq_iff)

lemma same_dir_refl: "index_ok nr ix \<Longrightarrow> same_dir ix ix"
  unfolding same_dir_def index_ok_def by (intro exI [of _ "dx_capacity ix"] exI [of _ "dx_mapping ix"]) simp

text \<open>The blocks of a directory's tree and of its records.\<close>

definition dir_area :: "kst \<Rightarrow> u32 \<Rightarrow> simplefs_dir_index \<Rightarrow> u32 list" where
  "dir_area s dir ix = ei_block (inodes s dir) # leaf_blocks (dx_mapping ix) @ dx_blocks ix"

lemma dir_ok_same:
  assumes ok: "dir_ok s dir ix" and same: "same_dir ix ix'"
    and ino: "dir_index (inodes s' dir) = Some ix'" "ei_block (inodes s' dir) = ei_block (inodes s dir)"
    and geo: "geometry (sbi s') = geometry (sbi s)" "handle_ok s'" "meta_ok (sbi s') (dir_area s dir ix)"
    and c: "\<And>n. n \<in> set (dir_area s dir ix) \<Longrightarrow> cache s' n = cache s n"
  shows "dir_ok s' dir ix'"
proof -
  note o = ok [unfolded dir_ok_def] and f = same_dir_fields [OF same]
  have g: "nr_inodes (sbi s') = nr_inodes (sbi s)" "nr_blocks (sbi s') = nr_blocks (sbi s)"
    "nr_istore_blocks (sbi s') = nr_istore_blocks (sbi s)" using geo(1) by (simp_all add: geometry_def)
  have "tree_ok (cache s') (ei_block (inodes s dir)) (extents (dx_mapping ix)) (leaf_blocks (dx_mapping ix))"
    by (rule tree_ok_cong [of "cache s"]) (use o c in \<open>auto simp: file_ok_def dir_area_def\<close>)
  moreover have "meta_ok (sbi s') (ei_block (inodes s dir) # leaf_blocks (dx_mapping ix))"
    by (rule meta_ok_sub [OF geo(3)]) (use geo(3) in \<open>auto simp: dir_area_def meta_ok_def\<close>)
  ultimately have "file_ok s' dir (extents (dx_mapping ix')) (leaf_blocks (dx_mapping ix'))"
    using o geo(2) ino(2) by (simp add: f file_ok_def)
  moreover have "disk_ok (cache s') ix'"
    unfolding disk_ok_def f
  proof (intro allI impI)
    fix i
    assume i: "i < dir_slots ix"
    then have "dx_blocks ix ! (i div 15) \<in> set (dx_blocks ix)" by (simp add: dir_slots_def less_mult_imp_div_less)
    then show "record_ok (cache s' (dx_blocks ix ! (i div 15))) (i mod 15) (dx_entries ix i)"
      using o i c by (simp add: disk_ok_def dir_area_def)
  qed
  ultimately show ?thesis
    using o geo(3) ino same_dir_index_ok [OF _ same] by (simp add: dir_ok_def g f dir_area_def)
qed

lemma dir_area_root: "dir_ok s dir ix \<Longrightarrow> n \<in> set (dir_area s dir ix) \<Longrightarrow> root_dir_block (sbi s) \<le> n \<and> \<not> bfree_bitmap (sbi s) (unat n)"
  by (auto simp: dir_area_def dir_ok_def meta_ok_def)

lemma dir_ok_basic:
  assumes "dir_ok s dir ix"
  shows "handle_ok s" "geom_ok (sbi s)" "meta_ok (sbi s) (dir_area s dir ix)" "dir_index (inodes s dir) = Some ix"
    "index_ok (nr_inodes (sbi s)) ix"
  using assms by (auto simp: dir_ok_def file_ok_def meta_ok_def dir_area_def)

section \<open>What a change of one directory leaves alone\<close>

text \<open>
  From \<open>s\<close> to \<open>s'\<close> every block outside \<open>A\<close> that was in use is still in use and has the same image,
  and of the inodes only \<open>dir\<close> may have changed, which keeps its kind, its root and its links.
\<close>

definition same_file :: "simplefs_inode_info \<Rightarrow> simplefs_inode_info \<Rightarrow> bool" where
  "same_file i j \<longleftrightarrow> ei_block j = ei_block i \<and> i_mode j = i_mode i \<and> i_nlink j = i_nlink i"

definition elsewhere :: "u32 \<Rightarrow> u32 set \<Rightarrow> kst \<Rightarrow> kst \<Rightarrow> bool" where
  "elsewhere dir A s s' \<longleftrightarrow> handle_ok s' \<and> grows s s' \<and> (\<forall>i. i \<noteq> dir \<longrightarrow> inodes s' i = inodes s i) \<and>
     same_file (inodes s dir) (inodes s' dir) \<and>
     (\<forall>bs. meta_ok (sbi s) bs \<longrightarrow> set bs \<inter> A = {} \<longrightarrow> meta_ok (sbi s') bs \<and> (\<forall>b\<in>set bs. cache s' b = cache s b))"

definition free_of :: "kst \<Rightarrow> u32 set" where
  "free_of s = {b. bfree_bitmap (sbi s) (unat b)}"

lemma meta_used: "meta_ok (sbi s) bs \<Longrightarrow> set bs \<inter> free_of s = {}"
  by (auto simp: meta_ok_def free_of_def)

lemma elsewhere_trans:
  assumes "elsewhere dir A s t" "elsewhere dir B t u" "B \<subseteq> A \<union> free_of s"
  shows "elsewhere dir A s u"
proof -
  have "meta_ok (sbi u) bs \<and> (\<forall>b\<in>set bs. cache u b = cache s b)" if bs: "meta_ok (sbi s) bs" "set bs \<inter> A = {}" for bs
  proof -
    have t: "meta_ok (sbi t) bs" "\<forall>b\<in>set bs. cache t b = cache s b" using assms(1) bs unfolding elsewhere_def by blast+
    have "set bs \<inter> B = {}" using meta_used [OF bs(1)] bs(2) assms(3) by blast
    then have "meta_ok (sbi u) bs" "\<forall>b\<in>set bs. cache u b = cache t b" using assms(2) t(1) unfolding elsewhere_def by blast+
    then show ?thesis using t(2) by simp
  qed
  then show ?thesis using assms(1,2) unfolding elsewhere_def same_file_def by (auto intro: grows_trans)
qed

lemma elsewhere_mono: "elsewhere dir A s t \<Longrightarrow> A \<subseteq> B \<Longrightarrow> elsewhere dir B s t"
  unfolding elsewhere_def by blast

lemma elsewhere_same:
  assumes "handle_ok s'" "grows s s'" "sbi s' = sbi s" "\<And>i. i \<noteq> dir \<Longrightarrow> inodes s' i = inodes s i"
    "same_file (inodes s dir) (inodes s' dir)" "\<And>n. root_dir_block (sbi s) \<le> n \<Longrightarrow> n \<notin> A \<Longrightarrow> cache s' n = cache s n"
  shows "elsewhere dir A s s'"
  unfolding elsewhere_def
proof (intro conjI allI impI ballI)
  fix bs b
  assume "meta_ok (sbi s) bs" "set bs \<inter> A = {}" "b \<in> set bs"
  then have "root_dir_block (sbi s) \<le> b" "b \<notin> A" by (auto simp: meta_ok_def)
  then show "cache s' b = cache s b" by (rule assms(6))
qed (use assms in simp_all)

lemma elsewhere_taking:
  assumes "taking s s'" "handle_ok s" "geom_ok (sbi s)"
  shows "elsewhere dir {} s s'"
  unfolding elsewhere_def
proof (intro conjI allI impI ballI)
  note t = assms(1) [unfolded taking_def]
  show "handle_ok s'" using handle_ok_aframe assms(2) t by blast
  show "grows s s'" using oframe_grows t by blast
  fix bs b
  assume m: "meta_ok (sbi s) bs"
  then show "meta_ok (sbi s') bs" using t by blast
  assume "b \<in> set bs"
  then have "root_dir_block (sbi s) \<le> b" using m by (simp add: meta_ok_def)
  then show "cache s' b = cache s b" using oframe_cache [OF _ assms(3)] t by blast
qed (use assms(1) in \<open>simp_all add: taking_def aframe_def same_file_def\<close>)

text \<open>A step of \<open>dir\<close> takes new blocks only from the free ones.\<close>

definition dir_step :: "u32 \<Rightarrow> kst \<Rightarrow> simplefs_dir_index \<Rightarrow> kst \<Rightarrow> simplefs_dir_index \<Rightarrow> bool" where
  "dir_step dir s ix s' ix' \<longleftrightarrow> dir_ok s' dir ix' \<and> elsewhere dir (set (dir_area s dir ix)) s s' \<and>
     set (dir_area s' dir ix') \<subseteq> set (dir_area s dir ix) \<union> free_of s"

lemma elsewhere_free:
  assumes "elsewhere dir A s t" "meta_ok (sbi s) bs" "meta_ok (sbi t) cs"
  shows "free_of t \<subseteq> A \<union> free_of s"
proof
  fix b
  assume b: "b \<in> free_of t"
  have g: "root_dir_block (sbi t) = root_dir_block (sbi s)" using assms(1) by (intro geometry_root) (simp add: elsewhere_def grows_def)
  have r: "root_dir_block (sbi s) \<le> b" using b assms(3) g by (auto simp: meta_ok_def free_of_def word_le_nat_alt not_less dest: leI) (metis linear)
  show "b \<in> A \<union> free_of s"
  proof (rule ccontr)
    assume n: "b \<notin> A \<union> free_of s"
    then have "meta_ok (sbi s) [b]" using assms(2) r by (auto simp: meta_ok_def free_of_def)
    then have "meta_ok (sbi t) [b]" using assms(1) n unfolding elsewhere_def by auto
    then show False using b by (simp add: meta_ok_def free_of_def)
  qed
qed

lemma dir_step_trans:
  assumes ok: "dir_ok s dir ix" and st: "dir_step dir s ix t ix1" "dir_step dir t ix1 u ix2"
  shows "dir_step dir s ix u ix2"
proof -
  note a = st [unfolded dir_step_def]
  have e: "elsewhere dir (set (dir_area s dir ix)) s u" using a elsewhere_trans by blast
  have "free_of t \<subseteq> set (dir_area s dir ix) \<union> free_of s"
    by (rule elsewhere_free [OF _ dir_ok_basic(3) [OF ok] dir_ok_basic(3)]) (use a in auto)
  then show ?thesis using a e unfolding dir_step_def by blast
qed

lemma dir_step_same:
  assumes ok: "dir_ok s dir ix" and "same_dir ix ix'" "elsewhere dir {} s s'" "dir_index (inodes s' dir) = Some ix'"
  shows "dir_step dir s ix s' ix'"
proof -
  have m: "meta_ok (sbi s) (dir_area s dir ix)" by (rule dir_ok_basic(3) [OF ok])
  have e: "meta_ok (sbi s') (dir_area s dir ix)" "\<forall>b\<in>set (dir_area s dir ix). cache s' b = cache s b"
    using assms(3) m unfolding elsewhere_def by auto
  have "dir_ok s' dir ix'"
    by (rule dir_ok_same [OF ok assms(2,4)]) (use assms(3) e in \<open>auto simp: elsewhere_def grows_def same_file_def\<close>)
  moreover have "dir_area s' dir ix' = dir_area s dir ix"
    using assms(3) same_dir_fields [OF assms(2)] by (simp add: dir_area_def elsewhere_def same_file_def)
  ultimately show ?thesis using elsewhere_mono [OF assms(3)] by (simp add: dir_step_def)
qed

lemma dir_step_taking: "dir_ok s dir ix \<Longrightarrow> taking s s' \<Longrightarrow> dir_step dir s ix s' ix"
  by (rule dir_step_same [OF _ same_dir_refl elsewhere_taking])
    (use dir_ok_basic in \<open>auto simp: taking_def aframe_def\<close>)

lemma dir_ok_taking: "dir_ok s dir ix \<Longrightarrow> taking s s' \<Longrightarrow> dir_ok s' dir ix"
  using dir_step_taking by (simp add: dir_step_def)

lemma frees_meta:
  assumes "frees {unat b} s s'" "meta_ok (sbi s) bs" "b \<notin> set bs" "root_dir_block (sbi s) \<le> b"
  shows "meta_ok (sbi s') bs"
proof -
  have g: "geometry (sbi s') = geometry (sbi s)" using assms(1) by (simp add: frees_def)
  have f: "bfree_bitmap (sbi s) i \<or> i = unat b \<and> i \<noteq> unat (root_dir_block (sbi s))" if "bfree_bitmap (sbi s') i" for i
    using assms(1) meta_ok_zero [OF assms(2)] that unfolding frees_def by blast
  have "\<not> bfree_bitmap (sbi s') (unat c)" if "c \<in> set bs" for c
    using f [of "unat c"] that assms(2,3) unat_eq [of c b] by (auto simp: meta_ok_def)
  moreover have "\<not> bfree_bitmap (sbi s') k" if "k \<le> unat (root_dir_block (sbi s))" for k
    using f [of k] that assms(2,4) by (auto simp: meta_ok_def word_le_nat_alt)
  ultimately show ?thesis
    using assms(2) geometry_ok [OF g] geometry_root [OF g] by (simp add: meta_ok_def)
qed

lemma retire_dir_wp:
  assumes ok: "dir_ok s dir ix" and b: "b \<notin> set (dir_area s dir ix)" "root_dir_block (sbi s) \<le> b"
    and Q: "\<And>r s'. dir_ok s' dir ix \<Longrightarrow> elsewhere dir {b} s s' \<Longrightarrow> Q r s'"
  shows "wp (simplefs_retire_metadata_blocks E b 1) Q s"
proof (rule wp_mono [OF wp_keeps [OF retire_rframe wp_keeps [OF retire_frees [where B = "{unat b}"] wp_True]]])
  show "{unat b..<unat b + unat (1 :: u32)} \<subseteq> {unat b}" by auto
  fix r :: status and s'
  assume "rframe s s' \<and> frees {unat b} s s' \<and> True"
  then have fr: "aframe s s'" "oframe s s'" "frees {unat b} s s'"
    using dir_ok_basic(1) [OF ok] by (simp_all add: rframe_def)
  note bas = dir_ok_basic [OF ok]
  have e: "elsewhere dir {b} s s'"
    unfolding elsewhere_def
  proof (intro conjI allI impI ballI)
    show "handle_ok s'" by (rule handle_ok_aframe [OF bas(1) fr(1)])
    fix bs c
    assume m: "meta_ok (sbi s) bs" "set bs \<inter> {b} = {}"
    then show "meta_ok (sbi s') bs" by (intro frees_meta [OF fr(3)]) (use b in auto)
    show "cache s' c = cache s c" if "c \<in> set bs"
      using m that oframe_cache [OF fr(2) bas(2)] by (auto simp: meta_ok_def)
  qed (use fr(1) oframe_grows [OF fr(2)] in \<open>simp_all add: aframe_def same_file_def\<close>)
  have "dir_ok s' dir ix"
    by (rule dir_ok_same [OF ok same_dir_refl [OF bas(5)]])
      (use bas(3,4) b fr(1) e in \<open>auto simp: elsewhere_def aframe_def grows_def same_file_def\<close>)
  then show "Q r s'" using e by (rule Q)
qed

text \<open>
  The new block, from the zeroed image to the appended extent. On an error the caches hold the
  same entries and at most the image of the new block has changed.
\<close>

definition new_extent :: "simplefs_dir_index \<Rightarrow> u32 \<Rightarrow> simplefs_extent" where
  "new_extent ix bno = simplefs_ext_init (of_nat (length (dx_blocks ix))) 1 bno False"

lemma new_block_wp:
  assumes ix: "dir_index (inodes u dir) = Some ix" "index_ok nr ix"
    and err: "\<And>e w ix' c. dir_moved u dir ix' c w \<Longrightarrow> same_dir ix ix' \<Longrightarrow> \<forall>n. n \<noteq> bno \<longrightarrow> c n = cache u n \<Longrightarrow> Q (Some e) w"
    and ok: "\<And>w m. dir_moved u dir (ix\<lparr>dx_mapping := m\<rparr>) ((cache u)(bno := zero_block)) w \<Longrightarrow>
      extents m = extents (dx_mapping ix) @ [new_extent ix bno] \<Longrightarrow> leaf_blocks m = leaf_blocks (dx_mapping ix) \<Longrightarrow> Q None w"
  shows "wp (dir_new_block E dir bno) Q u"
proof -
  note same = same_dir_refl [OF ix(2)]
  let ?c = "(cache u)(bno := zero_block)"
  have app: "wp (do {
      ix \<leftarrow> the_index dir;
      (r, mapping) \<leftarrow> simplefs_file_append_extent E (dx_mapping ix) (simplefs_ext_init (of_nat (length (dx_blocks ix))) 1 bno False);
      upd_index dir (\<lambda>ix. ix\<lparr>dx_mapping := mapping\<rparr>);
      ret r }) Q v" if v: "dir_moved u dir ix ?c v" for v
    unfolding wp_bind wp_the_index [OF dir_moved_get [OF v]]
  proof (rule append_wp, goal_cases)
    case (1 r m w)
    have w: "dir_moved u dir ix ?c w"
      by (rule dir_moved_sframe [OF v])
        (use 1(1) tframe_simps [OF 1(1)] in \<open>simp_all add: sframe_def jframe_def oframe_grows tframe_oframe\<close>)
    have m: "dir_moved u dir (ix\<lparr>dx_mapping := m\<rparr>) ?c (w\<lparr>inodes := (inodes w)(dir := (inodes w dir)\<lparr>dir_index :=
        map_option (\<lambda>ix. ix\<lparr>dx_mapping := m\<rparr>) (dir_index (inodes w dir))\<rparr>)\<rparr>)"
      using dir_moved_index [OF w] by (simp add: dir_moved_get [OF w])
    show ?case
    proof (cases r)
      case None
      then show ?thesis using ok [OF m] 1(2,4) by (simp add: wp_simps wp_upd_index new_extent_def)
    next
      case (Some e)
      have "same_dir ix (ix\<lparr>dx_mapping := m\<rparr>)"
        using same Some 1(2,4) unfolding same_dir_def by (intro exI [of _ "dx_capacity ix"] exI [of _ m]) auto
      then show ?thesis using err [OF m] Some by (simp add: wp_simps wp_upd_index)
    qed
  qed
  show ?thesis
    unfolding dir_new_block_def wp_bind
  proof (rule get_zeroed_folio_wp, goal_cases)
    case (1 e v)
    have "dir_moved u dir ix (cache v) v"
      using 1 ix(1) by (auto simp: dir_moved_def sframe_def jframe_def fun_eq_iff)
    then show ?case using err [OF _ same] 1(3) by (simp add: wp_return)
  next
    case (2 v)
    have v: "dir_moved u dir ix ?c v"
      using 2 ix(1) by (auto simp: dir_moved_def sframe_def jframe_def fun_eq_iff)
    have ne: "\<forall>n. n \<noteq> bno \<longrightarrow> ?c n = cache u n" by simp
    show ?case
      unfolding sum.case wp_bind
    proof (rule dirty_folio_wp, goal_cases)
      case (1 r w)
      have w: "dir_moved u dir ix ?c w" by (rule dir_moved_sframe [OF v 1(1) oframe_grows [OF 1(2)] 1(3)])
      show ?case
      proof (cases "r = None")
        case True
        show ?thesis
          unfolding True if_not_P [OF not_not [THEN iffD2, OF refl]] wp_bind
        proof (rule has_current_wp, goal_cases)
          case (1 h z)
          have z: "dir_moved u dir ix ?c z" by (rule dir_moved_sframe [OF w 1(1) oframe_grows [OF 1(2)] 1(3)])
          show ?case
            using app [OF z] app [OF dir_moved_trace [OF z]] err [OF dir_moved_trace [OF z] same ne]
            by (auto simp: wp_ext wp_return wp_bind)
        qed
      qed (use err [OF w same ne] in \<open>auto simp: wp_return not_None_eq\<close>)
    qed
  qed
qed

section \<open>Growing a directory\<close>

lemma new_extent_simps:
  assumes "index_ok nr ix"
  shows "unat (ee_block (new_extent ix bno)) = length (dx_blocks ix)" "ee_start (new_extent ix bno) = bno"
    "simplefs_ext_len (new_extent ix bno) = 1" "\<not> simplefs_ext_unwritten (new_extent ix bno)"
    "\<not> simplefs_extent_is_empty (new_extent ix bno) \<longleftrightarrow> bno \<noteq> 0" "length (dx_blocks ix) < 4294967295"
proof -
  have l: "length (dx_blocks ix) \<le> 1048575"
    using assms by (auto simp: index_ok_def SIMPLEFS_MAX_DIR_BLOCKS_def word_le_nat_alt)
  then show "unat (ee_block (new_extent ix bno)) = length (dx_blocks ix)"
    by (simp add: new_extent_def unat_of_nat_u32)
  show "length (dx_blocks ix) < 4294967295" using l by simp
qed (auto simp: new_extent_def simplefs_extent_is_empty_def)

lemma append_maps:
  assumes n: "normal xs" and m: "maps_blocks xs (dx_blocks ix)" and ok: "index_ok nr ix"
    and b: "bno \<noteq> 0" "unat bno < 4294967295"
  shows "normal (xs @ [new_extent ix bno])" "maps_blocks (xs @ [new_extent ix bno]) (dx_blocks ix @ [bno])"
proof -
  let ?e = "new_extent ix bno" and ?n = "length (dx_blocks ix)"
  note e = new_extent_simps(1-5) [OF ok, of bno] new_extent_simps(6) [OF ok]
  have "unat (ee_block f) + unat (simplefs_ext_len f) \<le> ?n" if f: "f \<in> set xs" for f
  proof -
    have ne: "\<not> simplefs_extent_is_empty f" using n f by (simp add: normal_def list_all_iff)
    then have pos: "0 < unat (simplefs_ext_len f)" by (simp add: simplefs_extent_is_empty_def unat_gt_0)
    have "covers f (unat (ee_block f) + unat (simplefs_ext_len f) - 1)"
      unfolding covers_def using ne pos by linarith
    with f have "emap xs (unat (ee_block f) + unat (simplefs_ext_len f) - 1) \<noteq> {}" by (auto simp: emap_def)
    then have "unat (ee_block f) + unat (simplefs_ext_len f) - 1 < ?n" using m by (auto simp: maps_blocks_def split: if_splits)
    then show ?thesis using pos by linarith
  qed
  then have "\<forall>f\<in>set xs. before f ?e" using e by (simp add: before_def)
  then show "normal (xs @ [?e])" using n e b by (simp add: ext_ok_def normal_def sorted_wrt_append)
  have "covers ?e k \<longleftrightarrow> k = ?n" "target ?e ?n = (unat bno, False)" for k using e b by (auto simp: covers_def target_def)
  then show "maps_blocks (xs @ [?e]) (dx_blocks ix @ [bno])"
    using m by (auto simp: maps_blocks_def emap_append emap_Cons nth_append less_Suc_eq)
qed

definition grown :: "simplefs_dir_index \<Rightarrow> simplefs_extent_buffer \<Rightarrow> u32 \<Rightarrow> simplefs_dir_index" where
  "grown ix m bno = ix\<lparr>dx_mapping := m, dx_blocks := dx_blocks ix @ [bno]\<rparr>"

lemma grown_index_ok: "index_ok nr ix \<Longrightarrow> length (dx_blocks ix) < unat (dx_capacity ix) \<Longrightarrow> index_ok nr (grown ix m bno)"
  unfolding index_ok_def entry_ok_def grown_def dir_slots_def by fastforce

lemma grown_disk_ok:
  assumes "disk_ok c ix" "index_ok nr ix" "d bno = zero_block" "\<And>n. n \<in> set (dx_blocks ix) \<Longrightarrow> d n = c n"
  shows "disk_ok d (grown ix m bno)"
  unfolding disk_ok_def
proof (intro allI impI)
  fix i
  assume i: "i < dir_slots (grown ix m bno)"
  show "record_ok (d (dx_blocks (grown ix m bno) ! (i div 15))) (i mod 15) (dx_entries (grown ix m bno) i)"
  proof (cases "i < dir_slots ix")
    case True
    then have "i div 15 < length (dx_blocks ix)" by (simp add: dir_slots_def less_mult_imp_div_less)
    then show ?thesis using assms(1,4) True by (simp add: grown_def nth_append disk_ok_def)
  next
    case False
    then have "dx_entries ix i = None" using assms(2) by (cases "dx_entries ix i") (auto simp: index_ok_def entry_ok_def)
    moreover have "i div 15 = length (dx_blocks ix)"
    proof (rule div_nat_eqI)
      show "15 * length (dx_blocks ix) \<le> i" "i < 15 * Suc (length (dx_blocks ix))"
        using i False by (simp_all add: dir_slots_def grown_def)
    qed
    ultimately show ?thesis
      using assms(3) by (simp add: grown_def nth_append record_ok_def file_inode_def get32_def zero_block_def)
  qed
qed

text \<open>A block that a directory can grow by: in use, and not one of its own.\<close>

definition spare :: "kst \<Rightarrow> u32 \<Rightarrow> simplefs_dir_index \<Rightarrow> u32 \<Rightarrow> bool" where
  "spare s dir ix b \<longleftrightarrow> b \<notin> set (dir_area s dir ix) \<and> b \<noteq> 0 \<and> b < nr_blocks (sbi s) \<and> root_dir_block (sbi s) \<le> b \<and>
     \<not> bfree_bitmap (sbi s) (unat b)"

lemma grown_meta:
  assumes meta: "meta_ok sb (root # old @ bs)" and b: "b \<notin> set (root # old @ bs)" "root_dir_block sb \<le> b" "\<not> bfree_bitmap sb (unat b)"
    and ba: "blocks_after root old s ls s'" "sb = sbi s" "geometry (sbi s') = geometry sb"
  shows "meta_ok (sbi s') (root # ls @ bs @ [b])"
proof -
  have m: "meta_ok (sbi s') (root # ls)"
    by (rule blocks_after_meta [OF ba(1) _ ba(3) [unfolded ba(2)]])
      (rule meta_ok_sub [OF meta [unfolded ba(2)]], use meta in \<open>auto simp: meta_ok_def\<close>)
  have new: "l \<in> set old \<or> bfree_bitmap sb (unat l)" if "l \<in> set ls" for l
    using ba(1,2) that by (auto simp: blocks_after_def free_blocks_def)
  have stay: "\<not> bfree_bitmap (sbi s') (unat c)" if c: "\<not> bfree_bitmap sb (unat c)" "c \<notin> set old" for c
  proof
    assume "bfree_bitmap (sbi s') (unat c)"
    then obtain l where "l \<in> set old" "unat c = unat l" using ba(1,2) c(1) unfolding blocks_after_def by blast
    then show False using c(2) unat_eq [of c l] by simp
  qed
  have "c \<notin> set ls \<and> c \<noteq> root \<and> \<not> bfree_bitmap (sbi s') (unat c) \<and> root_dir_block sb \<le> c" if "c \<in> set (bs @ [b])" for c
    using that new [of c] stay [of c] meta b by (auto simp: meta_ok_def)
  moreover have "distinct (bs @ [b])" using meta b by (auto simp: meta_ok_def)
  ultimately show ?thesis
    using m geometry_root [OF ba(3)] by (auto simp: meta_ok_def)
qed

lemma grown_ok:
  assumes ok: "dir_ok u dir ix" and b: "spare u dir ix bno" "length (dx_blocks ix) < unat (dx_capacity ix)"
    and w: "dir_moved u dir (ix\<lparr>dx_mapping := m\<rparr>) ((cache u)(bno := zero_block)) w"
    and m: "extents m = extents (dx_mapping ix) @ [new_extent ix bno]" "leaf_blocks m = leaf_blocks (dx_mapping ix)"
    and sy: "synced dir m w (None, m') v" "blocks_after (ei_block (inodes w dir)) (leaf_blocks m) w (leaf_blocks m') v"
    and s': "sbi s' = sbi v" "cache s' = cache v" "s_journal s' = s_journal v"
      "dir_index (inodes s' dir) = Some (grown ix m' bno)" "ei_block (inodes s' dir) = ei_block (inodes u dir)"
  shows "dir_ok s' dir (grown ix m' bno)"
proof -
  let ?root = "ei_block (inodes u dir)" and ?old = "leaf_blocks (dx_mapping ix)"
  note bas = dir_ok_basic [OF ok] and o = ok [unfolded dir_ok_def] and b' = b(1) [unfolded spare_def]
  have w': "ei_block (inodes w dir) = ?root" "sbi w = sbi u" "s_journal w = s_journal u" "cache w = (cache u)(bno := zero_block)"
    using w by (simp_all add: dir_moved_def)
  note y = sy(1) [unfolded synced_def Let_def fst_conv snd_conv w'(1,2)]
  have g: "geometry (sbi v) = geometry (sbi u)" using y w'(2) by (simp add: grows_def)
  have b32: "unat bno < 4294967295" using b' less_le_trans [OF _ Suc_leI [OF unat_lt_u32, of "nr_blocks (sbi u)"], of "Suc (unat bno)"] by (simp add: word_less_nat_alt)
  note maps = append_maps [of "extents (dx_mapping ix)", OF _ _ bas(5) _ b32, folded m(1)]
  have nm: "normal (extents m)" "maps_blocks (extents m) (dx_blocks ix @ [bno])"
    using maps o b' by (simp_all add: file_ok_def)
  note norm = normalize_normal [OF normal_exts_ok [OF nm(1)]]
  have meta: "meta_ok (sbi w) (?root # ?old)"
    unfolding w' by (rule meta_ok_sub [OF bas(3)]) (use bas(3) in \<open>auto simp: dir_area_def meta_ok_def\<close>)
  have "file_ok v dir (extents m') (leaf_blocks m')"
    by (rule synced_file_ok [OF _ _ sy(1) norm(1) sy(2)])
      (use bas(1) meta w' m(2) in \<open>simp_all add: handle_ok_def\<close>)
  then have f: "file_ok s' dir (extents m') (leaf_blocks m')"
    using s' y w'(1) by (simp add: file_ok_def handle_ok_def)
  have "meta_ok (sbi s') (?root # leaf_blocks m' @ dx_blocks ix @ [bno])"
    unfolding s'(1)
    by (rule grown_meta [OF bas(3) [unfolded dir_area_def] _ _ _ _ w'(2) [symmetric] g])
      (use b' sy(2) w'(1) m(2) in \<open>auto simp: dir_area_def\<close>)
  moreover have "cache s' n = cache u n" if "n \<in> set (dx_blocks ix)" for n
  proof -
    have "n \<in> set (dir_area u dir ix)" "n \<notin> set (?root # ?old)" "n \<noteq> bno" "root_dir_block (sbi u) \<le> n"
      using that b' bas(3) by (auto simp: dir_area_def meta_ok_def)
    then show ?thesis using y dir_area_root [OF ok, of n] s'(2) w' m(2) by simp
  qed
  moreover have "cache s' bno = zero_block"
    using y b' s'(2) w' m(2) by (auto simp: dir_area_def)
  moreover have "maps_blocks (extents m') (dx_blocks ix @ [bno])"
    using nm(2) norm(2) y by (simp add: maps_blocks_def)
  moreover have "nr_inodes (sbi s') = nr_inodes (sbi u)" "nr_blocks (sbi s') = nr_blocks (sbi u)"
    "nr_istore_blocks (sbi s') = nr_istore_blocks (sbi u)" using g s'(1) by (simp_all add: geometry_def)
  ultimately show ?thesis
    using o b' f s' grown_index_ok [OF bas(5) b(2)] grown_disk_ok [of "cache u" ix _ "cache s'" bno, OF _ bas(5)]
    by (simp add: dir_ok_def) (simp add: grown_def)
qed

text \<open>A directory that has grown by the block \<open>bno\<close>.\<close>

definition dir_grow :: "u32 \<Rightarrow> u32 \<Rightarrow> kst \<Rightarrow> simplefs_dir_index \<Rightarrow> kst \<Rightarrow> simplefs_dir_index \<Rightarrow> bool" where
  "dir_grow dir bno s ix s' ix' \<longleftrightarrow> dir_ok s' dir ix' \<and> elsewhere dir (insert bno (set (dir_area s dir ix))) s s' \<and>
     set (dir_area s' dir ix') \<subseteq> insert bno (set (dir_area s dir ix)) \<union> free_of s"

lemma blocks_after_others:
  assumes ba: "blocks_after root old s ls s'" "meta_ok (sbi s) (root # old)" "geometry (sbi s') = geometry (sbi s)"
    and bs: "meta_ok (sbi s) bs" "set bs \<inter> set old = {}"
  shows "meta_ok (sbi s') bs"
proof -
  have "\<not> bfree_bitmap (sbi s') (unat b)" if "b \<in> set bs" for b
  proof
    assume "bfree_bitmap (sbi s') (unat b)"
    moreover have "\<not> bfree_bitmap (sbi s) (unat b)" using bs(1) that by (simp add: meta_ok_def)
    ultimately obtain c where "c \<in> set old" "unat b = unat c" using ba(1) unfolding blocks_after_def by blast
    then show False using that bs(2) unat_eq [of b c] by auto
  qed
  then show ?thesis
    using blocks_after_meta [OF ba] bs(1) geometry_root [OF ba(3)] by (simp add: meta_ok_def)
qed

lemma grown_grow:
  assumes ok: "dir_ok u dir ix" and b: "spare u dir ix bno" "length (dx_blocks ix) < unat (dx_capacity ix)"
    and w: "dir_moved u dir (ix\<lparr>dx_mapping := m\<rparr>) ((cache u)(bno := zero_block)) w"
    and m: "extents m = extents (dx_mapping ix) @ [new_extent ix bno]" "leaf_blocks m = leaf_blocks (dx_mapping ix)"
    and sy: "synced dir m w (None, m') v" "blocks_after (ei_block (inodes w dir)) (leaf_blocks m) w (leaf_blocks m') v"
    and s': "sbi s' = sbi v" "cache s' = cache v" "s_journal s' = s_journal v" "grows v s'"
      "dir_index (inodes s' dir) = Some (grown ix m' bno)" "same_file (inodes u dir) (inodes s' dir)"
      "\<And>i. i \<noteq> dir \<Longrightarrow> inodes s' i = inodes u i"
  shows "dir_grow dir bno u ix s' (grown ix m' bno)"
proof -
  let ?root = "ei_block (inodes u dir)" and ?old = "leaf_blocks (dx_mapping ix)"
  note bas = dir_ok_basic [OF ok]
  have d: "dir_ok s' dir (grown ix m' bno)" by (rule grown_ok [OF ok b w m sy s'(1-3,5)]) (use s'(6) in \<open>simp add: same_file_def\<close>)
  have w': "ei_block (inodes w dir) = ?root" "sbi w = sbi u" "cache w = (cache u)(bno := zero_block)" "grows u w"
    using w by (simp_all add: dir_moved_def)
  note y = sy(1) [unfolded synced_def Let_def fst_conv snd_conv w'(1,2)]
  have g: "geometry (sbi v) = geometry (sbi w)" using y by (simp add: grows_def w'(2))
  have meta: "meta_ok (sbi w) (?root # ?old)"
    unfolding w' by (rule meta_ok_sub [OF bas(3)]) (use bas(3) in \<open>auto simp: dir_area_def meta_ok_def\<close>)
  have e: "elsewhere dir (insert bno (set (dir_area u dir ix))) u s'"
    unfolding elsewhere_def
  proof (intro conjI allI impI ballI)
    show "handle_ok s'" by (rule dir_ok_basic(1) [OF d])
    show "grows u s'" using w'(4) y s'(4) by (blast intro: grows_trans)
    fix bs c
    assume bs: "meta_ok (sbi u) bs" "set bs \<inter> insert bno (set (dir_area u dir ix)) = {}"
    show "meta_ok (sbi s') bs"
      unfolding s'(1) by (rule blocks_after_others [OF sy(2) _ g]) (use bs meta w' m(2) in \<open>auto simp: dir_area_def\<close>)
    show "cache s' c = cache u c" if c: "c \<in> set bs"
    proof -
      have "c \<noteq> bno" "c \<notin> set (?root # ?old)" using bs(2) c by (auto simp: dir_area_def)
      then show ?thesis using bs(1) c y s'(2) w'(3) m(2) by (auto simp: meta_ok_def)
    qed
  qed (use s' in simp_all)
  have "l \<in> set ?old \<union> free_of u" if "l \<in> set (leaf_blocks m')" for l
    using sy(2) that w'(2) m(2) by (auto simp: blocks_after_def free_of_def free_blocks_def)
  then have "set (dir_area s' dir (grown ix m' bno)) \<subseteq> insert bno (set (dir_area u dir ix)) \<union> free_of u"
    using s'(6) by (auto simp: dir_area_def grown_def same_file_def)
  then show ?thesis using d e by (simp add: dir_grow_def)
qed

section \<open>A free slot\<close>

lemma dir_ok_reindex:
  assumes "dir_ok t dir ix" "same_dir ix ix'"
  shows "dir_ok (t\<lparr>inodes := (inodes t)(dir := (inodes t dir)\<lparr>dir_index := Some ix'\<rparr>)\<rparr>) dir ix'"
  by (rule dir_ok_same [OF assms]) (use dir_ok_basic [OF assms(1)] in \<open>simp_all add: handle_ok_def\<close>)

lemma dir_ok_tframe: "dir_ok s dir ix \<Longrightarrow> tframe s t \<Longrightarrow> dir_ok t dir ix"
  by (blast intro: dir_ok_taking tframe_taking)

lemma dir_ok_moved_same:
  assumes ok: "dir_ok u dir ix" and b: "b \<notin> set (dir_area u dir ix)"
    and w: "dir_moved u dir ix' c w" "same_dir ix ix'" "\<forall>n. n \<noteq> b \<longrightarrow> c n = cache u n"
  shows "dir_ok w dir ix'" "dir_area w dir ix' = dir_area u dir ix" "root_dir_block (sbi w) = root_dir_block (sbi u)"
proof -
  show "dir_ok w dir ix'"
    by (rule dir_ok_same [OF ok w(2)])
      (use w b dir_ok_basic [OF ok] in \<open>auto simp: dir_moved_def handle_ok_def\<close>)
qed (use w(1) same_dir_fields [OF w(2)] in \<open>simp_all add: dir_area_def dir_moved_def\<close>)

text \<open>A slot that is free, in a directory with the same entries.\<close>

definition slot_res :: "(kst \<Rightarrow> simplefs_dir_index \<Rightarrow> bool) \<Rightarrow> simplefs_dir_index \<Rightarrow> errno + u32 \<Rightarrow> kst \<Rightarrow> bool" where
  "slot_res P ix res s' = (case res of
     Inl e \<Rightarrow> failed s' \<or> (\<exists>ix'. P s' ix' \<and> dx_names ix' = dx_names ix \<and> dx_nr_files ix' = dx_nr_files ix)
   | Inr slot \<Rightarrow> (\<exists>ix'. P s' ix' \<and> dx_names ix' = dx_names ix \<and> dx_nr_files ix' = dx_nr_files ix \<and>
       dx_entries ix' = dx_entries ix \<and> unat slot < dir_slots ix' \<and> dx_entries ix (unat slot) = None))"

lemma slot_res_mono: "slot_res P ix res s' \<Longrightarrow> (\<And>ix'. P s' ix' \<Longrightarrow> R s' ix') \<Longrightarrow> slot_res R ix res s'"
  unfolding slot_res_def by (cases res) (auto 4 4)

lemma slot_res_cong:
  "dx_names ix' = dx_names ix \<Longrightarrow> dx_nr_files ix' = dx_nr_files ix \<Longrightarrow> dx_entries ix' = dx_entries ix \<Longrightarrow> slot_res P ix = slot_res P ix'"
  by (intro HOL.ext) (simp add: slot_res_def split: sum.split)

definition publish_block :: "env \<Rightarrow> u32 \<Rightarrow> u32 \<Rightarrow> nat \<Rightarrow> (kst, errno + u32) state" where
  "publish_block E dir bno slots = do {
     ix \<leftarrow> the_index dir;
     (r, mapping) \<leftarrow> simplefs_file_sync_extents E dir (dx_mapping ix);
     upd_index dir (\<lambda>ix. ix\<lparr>dx_mapping := mapping\<rparr>);
     (case r of
        Some e \<Rightarrow> do {
          upd_index dir (\<lambda>ix. ix\<lparr>dx_valid := False\<rparr>);
          simplefs_journal_fail e;
          ret (Inl e)
        }
      | None \<Rightarrow> do {
          upd_index dir (\<lambda>ix. ix\<lparr>dx_blocks := dx_blocks ix @ [bno]\<rparr>);
          ix \<leftarrow> the_index dir;
          upd_inode dir (\<lambda>i. i\<lparr>i_blocks := i_blocks i + simplefs_blocks_to_sectors 1,
            i_size := int (length (dx_blocks ix)) * 4096\<rparr>);
          note_call (Mark_inode_dirty dir);
          ret (Inr (of_nat slots))
        })
   }"

lemma publish_block_wp:
  assumes ok: "dir_ok u dir ix" and b: "spare u dir ix bno" "length (dx_blocks ix) < unat (dx_capacity ix)"
    and w: "dir_moved u dir (ix\<lparr>dx_mapping := m\<rparr>) ((cache u)(bno := zero_block)) w"
    and m: "extents m = extents (dx_mapping ix) @ [new_extent ix bno]" "leaf_blocks m = leaf_blocks (dx_mapping ix)"
  shows "wp (publish_block E dir bno (dir_slots ix)) (slot_res (dir_grow dir bno u ix) ix) w"
proof -
  note bas = dir_ok_basic [OF ok]
  have small: "dir_slots ix < 4294967296" using dir_slots_small [OF bas(5)] by simp
  have w': "ei_block (inodes w dir) = ei_block (inodes u dir)" "sbi w = sbi u" "s_journal w = s_journal u"
    "dir_index (inodes w dir) = Some (ix\<lparr>dx_mapping := m\<rparr>)" using w by (simp_all add: dir_moved_def)
  have meta: "meta_ok (sbi w) (ei_block (inodes w dir) # leaf_blocks m)"
    unfolding w' m by (rule meta_ok_sub [OF bas(3)]) (use bas(3) in \<open>auto simp: dir_area_def meta_ok_def\<close>)
  have hok: "handle_ok w" using bas(1) w' by (simp add: handle_ok_def)
  have free: "dx_entries ix (dir_slots ix) = None"
    using bas(5) by (cases "dx_entries ix (dir_slots ix)") (auto dest!: index_entry(1) simp: entry_ok_def)
  show ?thesis
    unfolding publish_block_def wp_bind wp_the_index [OF w'(4)]
  proof (simp, rule wp_mono [OF wp_conj [OF sync_extents_spec [OF hok meta] sync_blocks_spec [OF meta]]], elim conjE, goal_cases)
    case (1 p v)
    obtain r m' where p: "p = (r, m')" by fastforce
    note y = 1(1) [unfolded p synced_def Let_def fst_conv snd_conv]
    show ?case
    proof (cases r)
      case (Some e)
      show ?thesis
        unfolding p Some prod.case option.case wp_bind wp_upd_index
        by (rule fail_wp) (simp add: wp_return slot_res_def failed_def)
    next
      case None
      obtain k where k: "inodes v = (inodes w)(dir := (inodes w dir)\<lparr>i_blocks := k\<rparr>)" using y None by blast
      then have vi: "dir_index (inodes v dir) = Some (ix\<lparr>dx_mapping := m\<rparr>)" "same_file (inodes u dir) (inodes v dir)"
        "\<And>i. i \<noteq> dir \<Longrightarrow> inodes v i = inodes u i"
        using w' w by (simp_all add: dir_moved_def same_file_def)
      note grown = grown_grow [OF ok b w m 1(1) [unfolded p None] 1(2) [unfolded p None fst_conv snd_conv, rule_format, OF refl]]
      have g: "ix\<lparr>dx_mapping := m', dx_blocks := dx_blocks ix @ [bno]\<rparr> = grown ix m' bno" by (simp add: grown_def)
      show ?thesis
        unfolding p None
        apply (simp add: wp_simps wp_upd_index the_index_def vi slot_res_def g unat_of_nat_u32 small free)
        apply (rule exI [of _ "grown ix m' bno"], intro conjI, rule grown)
        using vi(2) by (simp_all add: vi grown_def dir_slots_def grows_def suffix_ConsI same_file_def)
    qed
  qed
qed

lemma free_slot_steps:
  "simplefs_dir_free_slot E dir = do {
     ix \<leftarrow> the_index dir;
     if next_zero (dx_used ix) (dir_slots ix) (unat (dx_next_free ix)) < dir_slots ix
     then ret (Inr (of_nat (next_zero (dx_used ix) (dir_slots ix) (unat (dx_next_free ix)))))
     else do {
       (r, ix1) \<leftarrow> simplefs_dir_reserve E (of_nat (length (dx_blocks ix)) + 1) ix;
       upd_index dir (\<lambda>_. ix1);
       (case r of
          Some e \<Rightarrow> ret (Inl e)
        | None \<Rightarrow> do {
            bno \<leftarrow> get_free_blocks E 1;
            shutdown \<leftarrow> gets s_shutdown;
            if bno = 0 then ret (Inl (if shutdown then EIO else ENOSPC))
            else do {
              r \<leftarrow> dir_new_block E dir bno;
              (case r of
                 Some e \<Rightarrow> do { _ \<leftarrow> simplefs_retire_metadata_blocks E bno 1; ret (Inl e) }
               | None \<Rightarrow> publish_block E dir bno (dir_slots ix))
            }
          })
     }
   }"
  by (simp only: simplefs_dir_free_slot_def publish_block_def Let_def)

lemma claimed_spare:
  assumes ok: "dir_ok t dir ix" and u: "aframe t u" "oframe t u" "took t 1 bno u" "bno \<noteq> 0"
  shows "dir_ok u dir ix" "spare u dir ix bno"
proof -
  note tk = took_taking [OF u(1-3)] and bas = dir_ok_basic [OF ok]
  show "dir_ok u dir ix" by (rule dir_ok_taking [OF ok tk(1)])
  note m = took_meta [OF u(3) bas(3)]
  have g: "root_dir_block (sbi u) = root_dir_block (sbi t)" "nr_blocks (sbi u) = nr_blocks (sbi t)"
    using geometry_root [OF oframe_geometry [OF u(2)]] oframe_geometry [OF u(2)] by (simp_all add: geometry_def)
  have area: "dir_area u dir ix = dir_area t dir ix" using u(1) by (simp add: dir_area_def aframe_def)
  show "spare u dir ix bno"
    using m(1,3) u(4) g by (auto simp: spare_def area meta_ok_def free_blocks_def word_less_nat_alt)
qed

lemma retire_new_wp:
  assumes ok: "dir_ok u dir ix" and b: "spare u dir ix bno" and w: "dir_moved u dir ix' c w" "same_dir ix ix'" "\<forall>n. n \<noteq> bno \<longrightarrow> c n = cache u n"
    and Q: "\<And>r s'. dir_grow dir bno u ix s' ix' \<Longrightarrow> Q r s'"
  shows "wp (simplefs_retire_metadata_blocks E bno 1) Q w"
proof -
  note b' = b [unfolded spare_def]
  have n: "bno \<notin> set (dir_area u dir ix)" using b' by blast
  note m = dir_ok_moved_same [OF ok n w]
  have e: "elsewhere dir {bno} u w"
    by (rule elsewhere_same) (use w dir_ok_basic(1) [OF m(1)] in \<open>auto simp: dir_moved_def same_file_def\<close>)
  show ?thesis
  proof (rule retire_dir_wp [OF m(1)])
    fix r s'
    assume s': "dir_ok s' dir ix'" "elsewhere dir {bno} w s'"
    have "elsewhere dir {bno} u s'" by (rule elsewhere_trans [OF e s'(2)]) simp
    moreover have "dir_area s' dir ix' = dir_area u dir ix" using s'(2) m(2) by (simp add: dir_area_def elsewhere_def same_file_def)
    ultimately show "Q r s'" using s'(1) by (intro Q) (auto simp: dir_grow_def elim: elsewhere_mono)
  qed (use m b' in simp_all)
qed

lemma dir_step_reindex:
  assumes ok: "dir_ok s dir ix" and sd: "same_dir ix ix'" and t: "tframe s t"
  shows "dir_step dir s ix (t\<lparr>inodes := (inodes t)(dir := (inodes t dir)\<lparr>dir_index := Some ix'\<rparr>)\<rparr>) ix'"
  by (rule dir_step_same [OF ok sd elsewhere_same])
    (use dir_ok_basic(1) [OF ok] oframe_grows [OF tframe_oframe [OF t]] tframe_simps [OF t] in \<open>simp_all add: handle_ok_def grows_def same_file_def\<close>)

text \<open>The block \<open>bno\<close> has been taken from the allocator between \<open>t\<close> and \<open>u\<close>.\<close>

lemma dir_step_claimed:
  assumes ok: "dir_ok t dir ix" and u: "aframe t u" "oframe t u" "took t 1 bno u" "bno \<noteq> 0" and g: "dir_grow dir bno u ix s' ix'"
  shows "dir_step dir t ix s' ix'"
proof -
  note tk = took_taking [OF u(1-3)] and bas = dir_ok_basic [OF ok]
  have e: "elsewhere dir {} t u" by (rule elsewhere_taking [OF tk(1) bas(1,2)])
  have area: "dir_area u dir ix = dir_area t dir ix" using u(1) by (simp add: dir_area_def aframe_def)
  have f: "free_of u \<subseteq> free_of t"
    using elsewhere_free [OF e bas(3) dir_ok_basic(3) [OF dir_ok_taking [OF ok tk(1)]]] by simp
  have "bno \<in> free_of t" using took_meta(3) [OF u(3) bas(3)] u(4) by (auto simp: free_of_def free_blocks_def)
  then have sub: "insert bno (set (dir_area u dir ix)) \<subseteq> set (dir_area t dir ix) \<union> free_of t" by (simp add: area)
  then show ?thesis
    using g f elsewhere_trans [OF elsewhere_mono [OF e, of "set (dir_area t dir ix)"] _ sub]
    unfolding dir_grow_def dir_step_def by blast
qed

lemma free_slot_wp:
  assumes ok: "dir_ok s dir ix"
  shows "wp (simplefs_dir_free_slot E dir) (slot_res (dir_step dir s ix) ix) s"
proof -
  note bas = dir_ok_basic [OF ok]
  have l: "length (dx_blocks ix) \<le> 1048575"
    using bas(5) by (auto simp: index_ok_def SIMPLEFS_MAX_DIR_BLOCKS_def word_le_nat_alt)
  have u1: "unat (of_nat (length (dx_blocks ix)) + 1 :: u32) = Suc (length (dx_blocks ix))"
    using l by (subst unat_add_no_wrap) (simp_all add: unat_of_nat_u32)
  have same: "slot_res (dir_step dir s ix) ix (Inl e) t" if "dir_step dir s ix t ix1" "same_dir ix ix1" for e t ix1
    using that same_dir_fields [OF that(2)] by (auto simp: slot_res_def same_dir_def)
  show ?thesis
  proof (cases "next_zero (dx_used ix) (dir_slots ix) (unat (dx_next_free ix)) < dir_slots ix")
    case True
    then have "\<not> dx_used ix (next_zero (dx_used ix) (dir_slots ix) (unat (dx_next_free ix)))"
      using next_zero_free by blast
    then have "dx_entries ix (next_zero (dx_used ix) (dir_slots ix) (unat (dx_next_free ix))) = None"
      using bas(5) unfolding index_ok_def by blast
    then show ?thesis
      unfolding free_slot_steps wp_bind wp_the_index [OF bas(4)] if_P [OF True] wp_return
      using dir_step_taking [OF ok taking_refl] True dir_slots_small [OF bas(5)] by (auto simp: slot_res_def unat_of_nat_u32)
  next
    case False
    show ?thesis
      unfolding free_slot_steps wp_bind wp_the_index [OF bas(4)] if_not_P [OF False]
    proof (rule reserve_wp [OF bas(5)], goal_cases)
      case (1 e t)
      have t: "dir_ok t dir ix" by (rule dir_ok_tframe [OF ok 1(1)])
      show ?case
        using same [OF dir_step_reindex [OF ok same_dir_refl [OF bas(5)] 1(1)] same_dir_refl [OF bas(5)]] dir_ok_basic(4) [OF t]
        by (simp add: wp_bind wp_upd_index wp_return)
    next
      case (2 cap t)
      let ?ix = "ix\<lparr>dx_capacity := cap\<rparr>"
      define t' where "t' = t\<lparr>inodes := (inodes t)(dir := (inodes t dir)\<lparr>dir_index := Some ?ix\<rparr>)\<rparr>"
      have t: "dir_ok t dir ix" by (rule dir_ok_tframe [OF ok 2(1)])
      have sd: "same_dir ix ?ix" using 2(3,4) unfolding same_dir_def
        by (intro exI [of _ cap] exI [of _ "dx_mapping ix"]) simp
      have st: "dir_step dir s ix t' ?ix" unfolding t'_def by (rule dir_step_reindex [OF ok sd 2(1)])
      then have t': "dir_ok t' dir ?ix" by (simp add: dir_step_def)
      have cap: "length (dx_blocks ?ix) < unat (dx_capacity ?ix)" using 2(2) u1 by (simp add: word_le_nat_alt)
      have "wp (get_free_blocks E 1) (\<lambda>bno. wp (do {
          shutdown \<leftarrow> gets s_shutdown;
          if bno = 0 then ret (Inl (if shutdown then EIO else ENOSPC))
          else do {
            r \<leftarrow> dir_new_block E dir bno;
            (case r of
               Some e \<Rightarrow> do { _ \<leftarrow> simplefs_retire_metadata_blocks E bno 1; ret (Inl e) }
             | None \<Rightarrow> publish_block E dir bno (dir_slots ix))
          } }) (slot_res (dir_step dir s ix) ix)) t'"
      proof (rule get_free_blocks_wp [OF meta_ok_zero [OF dir_ok_basic(3) [OF t']]], goal_cases)
        case (1 bno u)
        show ?case
        proof (cases "bno = 0")
          case True
          have "dir_step dir s ix u ?ix" by (rule dir_step_trans [OF ok st dir_step_taking [OF t' took_taking(1) [OF 1]]])
          then show ?thesis using same [OF _ sd] True by (simp add: wp_bind wp_gets wp_return)
        next
          case False
          note c = claimed_spare [OF t' 1 False]
          have grow: "dir_step dir s ix s' ix'" if "dir_grow dir bno u ?ix s' ix'" for s' ix'
            by (rule dir_step_trans [OF ok st dir_step_claimed [OF t' 1 False that]])
          have "wp (dir_new_block E dir bno) (\<lambda>r. wp (case r of
               Some e \<Rightarrow> do { _ \<leftarrow> simplefs_retire_metadata_blocks E bno 1; ret (Inl e) }
             | None \<Rightarrow> publish_block E dir bno (dir_slots ix)) (slot_res (dir_step dir s ix) ix)) u"
          proof (rule new_block_wp [OF dir_ok_basic(4,5) [OF c(1)]], goal_cases)
            case (1 e w ix2 c')
            have sd2: "same_dir ix ix2" using sd 1(2) unfolding same_dir_def by fastforce
            show ?case
              unfolding option.case wp_bind wp_return
              by (rule retire_new_wp [OF c 1]) (use grow same [OF _ sd2] in blast)
          next
            case (2 w m)
            have "dir_slots ?ix = dir_slots ix" by (simp add: dir_slots_def)
            then have "wp (publish_block E dir bno (dir_slots ix)) (slot_res (dir_grow dir bno u ?ix) ?ix) w"
              using publish_block_wp [OF c cap 2] by simp
            then show ?case
              unfolding option.case slot_res_cong [of ix ?ix, simplified] by (rule wp_mono) (erule slot_res_mono, rule grow)
          qed
          then show ?thesis using False by (simp add: wp_bind wp_gets)
        qed
      qed
      then show ?case using dir_ok_basic(4) [OF t] by (simp add: wp_bind wp_upd_index t'_def)
    qed
  qed
qed

section \<open>Adding an entry\<close>

lemma inode_block_before:
  assumes "geom_ok (sbi s)" "ino < nr_inodes (sbi s)" "unat (nr_inodes (sbi s)) \<le> 39 * unat (nr_istore_blocks (sbi s))"
  shows "inode_block ino < root_dir_block (sbi s)"
proof -
  have d: "unat ino < 39 * unat (nr_istore_blocks (sbi s))" using assms(2,3) by (simp add: word_less_nat_alt)
  have "unat (ino div 39) < unat (nr_istore_blocks (sbi s))" using d by (simp add: unat_div less_mult_imp_div_less mult.commute)
  moreover from this have "unat (ino div 39) < 4294967295" using unat_lt_u32 [of "nr_istore_blocks (sbi s)"] by linarith
  then have "unat (inode_block ino) = unat (ino div 39) + 1"
    by (simp add: inode_block_def) (subst unat_add_no_wrap, simp_all)
  moreover have "unat (root_dir_block (sbi s)) = 1 + unat (nr_istore_blocks (sbi s)) + unat (nr_ifree_blocks (sbi s)) + unat (nr_bfree_blocks (sbi s))"
    using assms(1) by (simp add: root_dir_block_def geom_ok_def unat_add_no_wrap)
  ultimately show ?thesis by (simp add: word_less_nat_alt)
qed

lemma index_ok_nr_files: "index_ok nr (ix\<lparr>dx_nr_files := k\<rparr>) = index_ok nr ix"
  unfolding index_ok_def entry_ok_def dir_slots_def by simp

lemma dir_ok_nr_files:
  "dir_ok t dir ix \<Longrightarrow> dir_ok (t\<lparr>inodes := (inodes t)(dir := (inodes t dir)\<lparr>dir_index := Some (ix\<lparr>dx_nr_files := k\<rparr>)\<rparr>)\<rparr>) dir
    (ix\<lparr>dx_nr_files := k\<rparr>)"
  by (simp add: dir_ok_def index_ok_nr_files disk_ok_def dir_slots_def file_ok_def handle_ok_def)

lemma dir_ok_trace: "dir_ok t dir ix \<Longrightarrow> dir_ok (t\<lparr>trace := x # trace t\<rparr>) dir ix"
  by (erule dir_ok_tframe) (simp add: tframe_def suffix_ConsI)

text \<open>Writing any inode to the inode table leaves the blocks of all directories alone.\<close>

lemma elsewhere_refl: "handle_ok s \<Longrightarrow> elsewhere dir A s s"
  by (rule elsewhere_same) (simp_all add: grows_refl same_file_def)

lemma persist_any_wp:
  assumes h: "handle_ok s" "geom_ok (sbi s)" "unat (nr_inodes (sbi s)) \<le> 39 * unat (nr_istore_blocks (sbi s))"
    and Q: "\<And>r s'. handle_ok s' \<Longrightarrow> grows s s' \<Longrightarrow> sbi s' = sbi s \<Longrightarrow> inodes s' = inodes s \<Longrightarrow>
      (\<And>n. root_dir_block (sbi s) \<le> n \<Longrightarrow> cache s' n = cache s n) \<Longrightarrow> Q r s'"
  shows "wp (simplefs_persist_inode E ino) Q s"
proof (cases "ino < nr_inodes (sbi s)")
  case True
  have "Q r s'" if e: "slot_edit ino f s s'" for f r s'
    using e inode_block_before [OF h(2) True h(3)] uframe_handle_ok [OF h(1)] by (auto intro!: Q simp: slot_edit_def uframe_def)
  then show ?thesis
    unfolding simplefs_persist_inode_def by (intro wp_mono [OF write_inode_wp [OF h(1)]]) blast
next
  case False
  then show ?thesis
    using Q [OF h(1) grows_refl] by (simp add: simplefs_persist_inode_def simplefs_write_inode_def wp_simps not_less)
qed

lemma dir_ok_table: "dir_ok s dir ix \<Longrightarrow> unat (nr_inodes (sbi s)) \<le> 39 * unat (nr_istore_blocks (sbi s))"
  by (simp add: dir_ok_def)

lemma persist_dir_wp:
  assumes ok: "dir_ok s dir ix" and Q: "\<And>r s'. dir_step dir s ix s' ix \<Longrightarrow> Q r s'"
  shows "wp (simplefs_persist_inode E ino) Q s"
proof (rule persist_any_wp [OF dir_ok_basic(1,2) [OF ok] dir_ok_table [OF ok]])
  fix r s'
  assume a: "handle_ok s'" "grows s s'" "sbi s' = sbi s" "inodes s' = inodes s" "\<And>n. root_dir_block (sbi s) \<le> n \<Longrightarrow> cache s' n = cache s n"
  have "elsewhere dir {} s s'" by (rule elsewhere_same) (use a in \<open>simp_all add: same_file_def\<close>)
  then show "Q r s'"
    using dir_ok_basic(4,5) [OF ok] a(4) by (intro Q dir_step_same [OF ok same_dir_refl]) simp_all
qed

text \<open>Setting a slot is a step of the directory.\<close>

lemma set_post_step:
  assumes ok: "dir_ok s dir ix" and i: "i < dir_slots ix" and p: "set_post s dir ix i ino x None s'"
  shows "dir_step dir s ix s' (put_entry i x ix)"
proof -
  have d: "dir_ok s' dir (put_entry i x ix)" by (rule set_post_ok [OF assms])
  note p' = p [unfolded set_post_def option.case dir_moved_def]
  have bno: "dx_blocks ix ! (i div 15) \<in> set (dir_area s dir ix)"
    using i by (simp add: dir_area_def dir_slots_def less_mult_imp_div_less)
  have "elsewhere dir (set (dir_area s dir ix)) s s'"
    by (rule elsewhere_same) (use p' bno dir_ok_basic(1) [OF d] in \<open>auto simp: same_file_def\<close>)
  moreover have "dir_area s' dir (put_entry i x ix) = dir_area s dir ix" using p' by (simp add: dir_area_def put_entry_def)
  ultimately show ?thesis using d by (simp add: dir_step_def)
qed

lemma set_post_error_step:
  assumes ok: "dir_ok s dir ix" and p: "set_post s dir ix i ino x (Some e) s'"
  shows "failed s' \<or> dir_step dir s ix s' ix"
proof (cases "failed s'")
  case False
  then have m: "dir_moved s dir ix (cache s) s'" using p by (simp add: set_post_def)
  have "elsewhere dir {} s s'"
    by (rule elsewhere_same) (use m dir_ok_basic(1) [OF ok] in \<open>auto simp: dir_moved_def handle_ok_def same_file_def\<close>)
  then show ?thesis
    using dir_step_same [OF ok same_dir_refl [OF dir_ok_basic(5) [OF ok]]] dir_moved_get [OF m] by blast
qed simp

definition add_post :: "u32 \<Rightarrow> kst \<Rightarrow> simplefs_dir_index \<Rightarrow> u8 list \<Rightarrow> u32 \<Rightarrow> status \<Rightarrow> kst \<Rightarrow> bool" where
  "add_post dir s ix name ino r s' = (case r of
     None \<Rightarrow> contents ix name = None \<and> (\<exists>ix'. dir_step dir s ix s' ix' \<and> contents ix' = (contents ix)(name \<mapsto> ino) \<and>
       dx_nr_files ix' = dx_nr_files ix + 1)
   | Some e \<Rightarrow> failed s' \<or> (\<exists>ix'. dir_step dir s ix s' ix' \<and> contents ix' = contents ix \<and> dx_nr_files ix' = dx_nr_files ix))"

lemma dir_get_valid:
  assumes "dir_ok s dir ix"
  shows "wp (simplefs_dir_get E dir) Q s = Q (if s_shutdown s then Some EIO else None) s"
  using assms by (simp add: simplefs_dir_get_def wp_simps dir_ok_def)

lemma names_contents: "dx_names ix' = dx_names ix \<Longrightarrow> contents ix' = contents ix"
  by (simp add: contents_def fun_eq_iff)

text \<open>Changing the count of files and the history.\<close>

lemma dir_step_nr_files:
  assumes ok: "dir_ok s dir ix"
  shows "dir_step dir s ix (s\<lparr>inodes := (inodes s)(dir := (inodes s dir)\<lparr>dir_index := Some (ix\<lparr>dx_nr_files := k\<rparr>)\<rparr>),
    trace := x # trace s\<rparr>) (ix\<lparr>dx_nr_files := k\<rparr>)" (is "dir_step _ _ _ ?s ?ix")
proof -
  have d: "dir_ok ?s dir ?ix" using dir_ok_trace [OF dir_ok_nr_files [OF ok, of k]] by simp
  have "elsewhere dir {} s ?s"
    by (rule elsewhere_same) (use dir_ok_basic(1) [OF ok] in \<open>auto simp: handle_ok_def grows_def suffix_ConsI same_file_def\<close>)
  then show ?thesis using d by (auto simp: dir_step_def dir_area_def elim: elsewhere_mono)
qed

lemma dir_add_wp:
  assumes ok: "dir_ok s dir ix" and n: "name_ok name" and ino: "ino \<noteq> 0" "ino < nr_inodes (sbi s)"
  shows "wp (simplefs_dir_add E dir name ino) (add_post dir s ix name ino) s"
proof (cases "s_shutdown s")
  case True
  then show ?thesis
    unfolding simplefs_dir_add_def wp_bind dir_get_valid [OF ok] by (simp add: wp_return add_post_def failed_def)
next
  case False
  define F where "F = do {
       upd_index dir (\<lambda>ix. ix\<lparr>dx_nr_files := dx_nr_files ix + 1\<rparr>);
       note_call (Mark_inode_dirty dir);
       r \<leftarrow> simplefs_persist_inode E dir;
       (case r of
          None \<Rightarrow> ret None
        | Some e \<Rightarrow> do {
            upd_index dir (\<lambda>ix. ix\<lparr>dx_valid := False\<rparr>);
            simplefs_journal_fail e;
            ret (Some e)
          }) }"
  have fin: "wp F (add_post dir s ix name ino) t"
    if t: "dir_step dir s ix t ix1" "contents ix name = None" "contents ix1 = (contents ix)(name \<mapsto> ino)" "dx_nr_files ix1 = dx_nr_files ix" for t ix1
  proof -
    define ix2 where "ix2 = ix1\<lparr>dx_nr_files := dx_nr_files ix1 + 1\<rparr>"
    have t1: "dir_ok t dir ix1" using t(1) by (simp add: dir_step_def)
    note t2 = dir_step_nr_files [OF t1, where k = "dx_nr_files ix1 + 1", folded ix2_def]
    have d2: "dir_ok (t\<lparr>inodes := (inodes t)(dir := (inodes t dir)\<lparr>dir_index := Some ix2\<rparr>), trace := x # trace t\<rparr>) dir ix2" for x
      using t2 by (simp add: dir_step_def)
    note t3 = dir_step_trans [OF ok t(1) t2]
    have c2: "contents ix2 = (contents ix)(name \<mapsto> ino)" "dx_nr_files ix2 = dx_nr_files ix + 1"
      using t(3,4) by (simp_all add: ix2_def contents_def fun_eq_iff)
    have post: "add_post dir s ix name ino None v" if "dir_step dir (t\<lparr>inodes := (inodes t)(dir := (inodes t dir)\<lparr>dir_index := Some ix2\<rparr>),
        trace := x # trace t\<rparr>) ix2 v ix2" for v x
      using dir_step_trans [OF ok t3 that] t(2) c2 by (auto simp: add_post_def)
    show ?thesis
      unfolding F_def wp_bind wp_upd_index wp_note_call dir_ok_basic(4) [OF t1] option.map ix2_def [symmetric]
      by (simp, rule persist_dir_wp [OF d2], case_tac r, simp add: wp_return post)
        (simp add: wp_bind wp_upd_index, rule fail_wp, simp add: wp_return add_post_def failed_def)
  qed
  have set: "wp (simplefs_dir_set E dir slot ino (Some name)) (\<lambda>r. wp (if r \<noteq> None then ret r else F) (add_post dir s ix name ino)) t"
    if p: "slot_res (dir_step dir s ix) ix (Inr slot) t" for slot t
  proof -
    obtain ix1 where t: "dir_step dir s ix t ix1" "dx_names ix1 = dx_names ix" "unat slot < dir_slots ix1"
      "dx_entries ix1 (unat slot) = None" "dx_nr_files ix1 = dx_nr_files ix" using p by (auto simp: slot_res_def)
    have t1: "dir_ok t dir ix1" "nr_inodes (sbi t) = nr_inodes (sbi s)"
      using t(1) by (simp_all add: dir_step_def elsewhere_def grows_def geometry_def)
    note c = names_contents [OF t(2)]
    have "wp (simplefs_dir_set E dir slot ino (Some name))
      (set_post t dir ix1 (unat slot) ino (new_entry slot ino (Some name) (dx_entries ix1 (unat slot)))) t"
      by (rule dir_set_wp [OF dir_ok_basic(4,5) [OF t1(1)]]) (use n ino t1(2) in simp_all)
    then show ?thesis
    proof (rule wp_mono)
      fix r v
      assume sp: "set_post t dir ix1 (unat slot) ino (new_entry slot ino (Some name) (dx_entries ix1 (unat slot))) r v"
      define x where "x = Some \<lparr>dn_name = name, dn_ino = ino, dn_slot = slot\<rparr>"
      have x: "new_entry slot ino (Some name) (dx_entries ix1 (unat slot)) = x" using ino(1) by (simp add: new_entry_def x_def)
      show "wp (if r \<noteq> None then ret r else F) (add_post dir s ix name ino) v"
      proof (cases r)
        case None
        have "dx_names ix1 name = None"
          using sp None t(4) unfolding x by (simp add: set_post_def fits_slot_def x_def)
        then have "contents ix name = None" using t(2) by (simp add: contents_def)
        moreover have "contents (put_entry (unat slot) x ix1) = (contents ix)(name \<mapsto> ino)"
          using t(4) c by (simp add: contents_put x_def fun_eq_iff)
        moreover have "dx_nr_files (put_entry (unat slot) x ix1) = dx_nr_files ix" using t(5) by (simp add: put_entry_def)
        ultimately show ?thesis
          using fin [OF dir_step_trans [OF ok t(1) set_post_step [OF t1(1) t(3) sp [unfolded None x]]]] None by simp
      next
        case (Some e)
        have "failed v \<or> dir_step dir s ix v ix1"
          using set_post_error_step [OF t1(1)] dir_step_trans [OF ok t(1)] sp Some by blast
        then show ?thesis using Some c t(5) by (auto simp: wp_return add_post_def)
      qed
    qed
  qed
  have sd: "\<not> (if s_shutdown s then Some EIO else None) \<noteq> None" using False by simp
  show ?thesis
    unfolding simplefs_dir_add_def F_def [symmetric] wp_bind dir_get_valid [OF ok] if_not_P [OF sd]
  proof (rule wp_mono [OF free_slot_wp [OF ok]])
    fix res t
    assume p: "slot_res (dir_step dir s ix) ix res t"
    show "wp (case res of Inl e \<Rightarrow> ret (Some e) | Inr slot \<Rightarrow> simplefs_dir_set E dir slot ino (Some name))
      (\<lambda>r. wp (if r \<noteq> None then ret r else F) (add_post dir s ix name ino)) t"
    proof (cases res)
      case (Inl e)
      have "failed t \<or> (\<exists>ix'. dir_step dir s ix t ix' \<and> contents ix' = contents ix \<and> dx_nr_files ix' = dx_nr_files ix)"
        using p names_contents unfolding Inl slot_res_def sum.case by metis
      then show ?thesis by (simp add: Inl wp_return add_post_def)
    next
      case (Inr slot)
      show ?thesis using set [OF p [unfolded Inr]] by (simp only: Inr sum.case)
    qed
  qed
qed

end
