(* ===== verification/SFS_FileRanges.thy ===== *)
theory SFS_FileRanges
  imports SFS_GetBlock
begin

text \<open>
  Operations of \<open>simplefs_file.c\<close> on a range of logical blocks that load the extents once and write
  them back once: the conversion of unwritten blocks after their data has been written
  (\<open>simplefs_convert_unwritten_range\<close>), marking blocks unwritten (\<open>simplefs_mark_unwritten_range\<close>), and
  making all whole blocks of a range unwritten (\<open>simplefs_zero_range_full_blocks\<close>).
\<close>

section \<open>Converting a range\<close>

text \<open>
  Is the extent unwritten, and does it reach into the blocks from \<open>a\<close> up to \<open>b\<close>? These are the two
  tests of the loop that are followed by \<open>continue\<close>.
\<close>

definition hit :: "u32 \<Rightarrow> u32 \<Rightarrow> simplefs_extent \<Rightarrow> bool" where
  "hit a b e \<longleftrightarrow> simplefs_ext_unwritten e \<and> \<not> (simplefs_ext_end e \<le> a \<or> ee_block e \<ge> b)"

definition hit_start :: "u32 \<Rightarrow> simplefs_extent \<Rightarrow> u32" where
  "hit_start a e = max (ee_block e) a"

definition hit_len :: "u32 \<Rightarrow> u32 \<Rightarrow> simplefs_extent \<Rightarrow> u32" where
  "hit_len a b e = min (simplefs_ext_end e) b - hit_start a e"

lemma hit_start_below:
  assumes "hit a b e" "hit_start a e \<noteq> ee_block e"
  shows "hit_start a e = a" "a - ee_block e \<le> 8192"
proof -
  show a: "hit_start a e = a" using assms(2) by (auto simp: hit_start_def max_def)
  have lt: "ee_block e < a" "a < simplefs_ext_end e"
    using assms a by (auto simp: hit_start_def max_def hit_def not_le split: if_splits)
  have "unat (simplefs_ext_end e) = unat (ee_block e) + unat (simplefs_ext_len e)"
  proof (rule ccontr)
    assume w: "\<not> ?thesis"
    then have "2 ^ 32 \<le> unat (ee_block e) + unat (simplefs_ext_len e)"
      using unat_add_no_wrap [of "ee_block e" "simplefs_ext_len e"] by (fastforce simp: simplefs_ext_end_def)
    then have "unat (simplefs_ext_end e) < unat (ee_block e)"
      using unat_ext_len_le [of e] unat_lt_u32 [of "ee_block e"]
      by (simp add: simplefs_ext_end_def unat_word_ariths) (simp add: le_mod_geq)
    then show False using lt by (simp add: word_less_nat_alt)
  qed
  then have "unat (a - ee_block e) \<le> unat (simplefs_ext_len e)"
    using lt by (simp add: word_less_nat_alt unat_sub_le word_le_nat_alt)
  then show "a - ee_block e \<le> 8192" using unat_ext_len_le [of e] by (simp add: word_le_nat_alt)
qed

lemma split_parts_no_hit:
  assumes "hit a b e" "f \<in> set (split_parts False e (hit_start a e) (hit_len a b e))"
  shows "\<not> hit a b f"
proof -
  define ms where "ms = hit_start a e"
  define L where "L = simplefs_ext_len e"
  define h where "h = ms - ee_block e"
  define m where "m = min (hit_len a b e) (L - h)"
  define t where "t = L - h - m"
  consider (head) "h \<noteq> 0" "f = simplefs_ext_init (ee_block e) h (ee_start e) True"
    | (mid) "\<not> simplefs_ext_unwritten f"
    | (tail) "t \<noteq> 0" "f = simplefs_ext_init (ms + m) t (ee_start e + h + m) True"
    using assms(2) unfolding split_parts_def Let_def ms_def [symmetric] L_def [symmetric] h_def [symmetric]
      m_def [symmetric] t_def [symmetric] by (auto split: if_splits)
  then show ?thesis
  proof cases
    case head
    then have "ms \<noteq> ee_block e" by (auto simp: h_def)
    note s = hit_start_below [OF assms(1) this [unfolded ms_def]]
    have "simplefs_ext_end f = a" using s by (simp add: head simplefs_ext_end_def h_def ms_def)
    then show ?thesis by (simp add: hit_def)
  next
    case tail
    have "m = hit_len a b e" using tail(1) by (auto simp: m_def t_def min_def split: if_splits)
    then have sum: "ms + m = min (simplefs_ext_end e) b" by (simp add: hit_len_def ms_def)
    have "t = L - (ms + m - ee_block e)" by (simp add: t_def h_def)
    then have "t = 0" if "ms + m = simplefs_ext_end e" using that by (simp add: simplefs_ext_end_def L_def)
    then have "ms + m = b" using tail(1) sum by (auto simp: min_def split: if_splits)
    then show ?thesis using tail by (simp add: hit_def)
  qed (simp add: hit_def)
qed

text \<open>Results of a computation, for recursion inside the state monad.\<close>

lemma state_bind_cong [fundef_cong]:
  assumes "m = m'" "\<And>r s s'. run_state m' s = (r, s') \<Longrightarrow> f r = g r"
  shows "State_Monad.bind m f = State_Monad.bind m' g"
  using assms by (auto intro!: state.expand simp: State_Monad.bind_def fun_eq_iff split: prod.splits)

lemma split_extent_pieces:
  assumes "run_state (split_extent E mark buf i ib n) s = ((r, buf'), s')" "i < length (extents buf)"
    and "simplefs_ext_unwritten (extents buf ! i) \<noteq> mark"
  shows "r = None \<Longrightarrow> extents buf' = take i (extents buf) @ split_parts mark (extents buf ! i) ib n @ drop (Suc i) (extents buf)"
    "leaf_blocks buf' = leaf_blocks buf" "tframe s s'"
proof -
  have "wp (split_extent E mark buf i ib n) (\<lambda>p s'. (fst p = None \<longrightarrow> extents (snd p) = take i (extents buf) @
      split_parts mark (extents buf ! i) ib n @ drop (Suc i) (extents buf)) \<and> leaf_blocks (snd p) = leaf_blocks buf \<and>
      tframe s s') s"
    by (rule split_extent_wp [OF id_take_nth_drop [OF assms(2)] _ assms(3)]) (use assms(2) in auto)
  from wp_run [OF this assms(1)]
  show "r = None \<Longrightarrow> extents buf' = take i (extents buf) @ split_parts mark (extents buf ! i) ib n @ drop (Suc i) (extents buf)"
    "leaf_blocks buf' = leaf_blocks buf" "tframe s s'" by simp_all
qed

definition hits :: "u32 \<Rightarrow> u32 \<Rightarrow> simplefs_extent list \<Rightarrow> nat" where
  "hits a b xs = length (filter (hit a b) xs)"

lemma convert_decreases:
  assumes "run_state (split_extent E False buf i (hit_start a (extents buf ! i)) (hit_len a b (extents buf ! i))) s = ((None, buf'), s')"
    and "i < length (extents buf)" "hit a b (extents buf ! i)"
  shows "hits a b (extents buf') < hits a b (extents buf)"
proof -
  let ?xs = "extents buf"
  have "simplefs_ext_unwritten (?xs ! i) \<noteq> False" using assms(3) by (simp add: hit_def)
  note e = split_extent_pieces(1) [OF assms(1,2) this refl]
  have none: "filter (hit a b) (split_parts False (?xs ! i) (hit_start a (?xs ! i)) (hit_len a b (?xs ! i))) = []"
    using split_parts_no_hit [OF assms(3)] by (auto simp: filter_empty_conv)
  have "filter (hit a b) ?xs = filter (hit a b) (take i ?xs @ ?xs ! i # drop (Suc i) ?xs)"
    using id_take_nth_drop [OF assms(2)] by simp
  then show ?thesis using assms(3) by (simp add: hits_def e none)
qed

text \<open>
  The loop over the extents, from index \<open>i\<close> on. After a conversion the source sets \<open>i = 0\<close>, which the
  loop header increments.
\<close>

function convert_loop :: "env \<Rightarrow> u32 \<Rightarrow> u32 \<Rightarrow> simplefs_extent_buffer \<Rightarrow> nat
    \<Rightarrow> (kst, status \<times> simplefs_extent_buffer) state" where
  "convert_loop E start_block end_block buf i =
     (if i \<ge> length (extents buf) then ret (None, buf)
      else if \<not> hit start_block end_block (extents buf ! i) then convert_loop E start_block end_block buf (Suc i)
      else do {
        p \<leftarrow> simplefs_convert_unwritten_extent E buf i (hit_start start_block (extents buf ! i))
               (hit_len start_block end_block (extents buf ! i));
        if fst p \<noteq> None then ret p else convert_loop E start_block end_block (snd p) (Suc 0)
      })"
  by pat_completeness auto
termination
proof (relation "measures [\<lambda>(E, a, b, buf, i). hits a b (extents buf), \<lambda>(E, a, b, buf, i). length (extents buf) - i]", goal_cases)
  case (3 E a b buf i p s s')
  then show ?case
    using convert_decreases [of E buf i a b s "snd p" s'] by (cases p) (auto simp: simplefs_convert_unwritten_extent_def)
qed auto

declare convert_loop.simps [simp del]

definition simplefs_convert_unwritten_range :: "env \<Rightarrow> u32 \<Rightarrow> int \<Rightarrow> int \<Rightarrow> (kst, status) state" where
  "simplefs_convert_unwritten_range E ino offset len =
     (if len \<le> 0 then ret None
      else do {
        let start_block = (word_of_int (offset div 4096) :: u32);
        let end_block = (word_of_int ((offset + len + 4096 - 1) div 4096) :: u32);
        if start_block \<ge> end_block then ret None
        else do {
          root \<leftarrow> gets (\<lambda>s. ei_block (inodes s ino));
          (r, buf) \<leftarrow> simplefs_file_load_extents E root;
          if r \<noteq> None then ret r
          else do {
            (r, buf) \<leftarrow> convert_loop E start_block end_block buf 0;
            if r \<noteq> None then ret r
            else do { (r, buf) \<leftarrow> simplefs_file_sync_extents E ino buf; ret r }
          }
        }
      })"

section \<open>Conversion is right\<close>

text \<open>
  From \<open>xs\<close> to \<open>ys\<close> no block moves and nothing outside the blocks from \<open>a\<close> up to \<open>b\<close> changes.
\<close>

definition restated :: "u32 \<Rightarrow> u32 \<Rightarrow> simplefs_extent list \<Rightarrow> simplefs_extent list \<Rightarrow> bool" where
  "restated a b xs ys \<longleftrightarrow> normal ys \<and> (\<forall>k. fst ` emap ys k = fst ` emap xs k \<and>
     (\<not> (unat a \<le> k \<and> k < unat b) \<longrightarrow> emap ys k = emap xs k))"

lemma restated_trans: "restated a b xs ys \<Longrightarrow> restated a b ys zs \<Longrightarrow> restated a b xs zs"
  by (simp add: restated_def)

lemma hit_facts:
  assumes "ext_ok e" "\<not> simplefs_extent_is_empty e" "hit a b e" "a < b"
  shows "covers e (unat (hit_start a e))" "0 < hit_len a b e" "unat a \<le> unat (hit_start a e)"
    "unat (hit_start a e) + split_len e (hit_start a e) (hit_len a b e) \<le> unat b"
proof -
  have u: "unat (ee_block e) < unat b" "unat a < unat (simplefs_ext_end e)" "unat a < unat b"
    using assms(3,4) by (simp_all add: hit_def word_le_nat_alt word_less_nat_alt not_le)
  have len: "0 < unat (simplefs_ext_len e)" using assms(2) by (simp add: simplefs_extent_is_empty_def unat_gt_0)
  have ms: "unat (hit_start a e) = max (unat (ee_block e)) (unat a)" by (simp add: hit_start_def max_def word_le_nat_alt)
  have mn: "unat (min (simplefs_ext_end e) b) = min (unat (simplefs_ext_end e)) (unat b)"
    by (simp add: min_def word_le_nat_alt)
  have lt: "unat (hit_start a e) < unat (min (simplefs_ext_end e) b)"
    using u len unfolding ms mn ext_end_unat [OF assms(1)] by linarith
  then have hl: "unat (hit_len a b e) = unat (min (simplefs_ext_end e) b) - unat (hit_start a e)"
    unfolding hit_len_def by (intro unat_sub_le) (simp add: word_le_nat_alt)
  show "covers e (unat (hit_start a e))"
    using assms(2) lt ms unfolding mn ext_end_unat [OF assms(1)] by (simp add: covers_def)
  show "unat a \<le> unat (hit_start a e)" by (simp add: ms)
  show "0 < hit_len a b e" using hl lt by (simp add: word_less_nat_alt)
  have "split_len e (hit_start a e) (hit_len a b e) \<le> unat (hit_len a b e)" by (simp add: split_len_def)
  then show "unat (hit_start a e) + split_len e (hit_start a e) (hit_len a b e) \<le> unat b"
    using hl lt mn by linarith
qed

text \<open>The restart at index 1 misses nothing: the first extent is not hit after a conversion.\<close>

lemma first_no_hit:
  assumes "i < length xs" "hit a b (xs ! i)"
    and "ys = take i xs @ split_parts False (xs ! i) (hit_start a (xs ! i)) (hit_len a b (xs ! i)) @ drop (Suc i) xs"
    and "\<forall>k<i. \<not> hit a b (xs ! k)"
  shows "\<not> hit a b (ys ! 0)"
proof (cases i)
  case 0
  let ?ps = "split_parts False (xs ! i) (hit_start a (xs ! i)) (hit_len a b (xs ! i))"
  have "?ps \<noteq> []" by (simp add: split_parts_def Let_def)
  then have "ys ! 0 \<in> set ?ps" unfolding assms(3) using 0 by (simp add: nth_append)
  then show ?thesis by (rule split_parts_no_hit [OF assms(2)])
next
  case (Suc j)
  then show ?thesis using assms(1,4) unfolding assms(3) by (simp add: nth_append)
qed

lemma convert_step:
  assumes "normal xs" "i < length xs" "hit a b (xs ! i)" "a < b"
    and "ys = take i xs @ split_parts False (xs ! i) (hit_start a (xs ! i)) (hit_len a b (xs ! i)) @ drop (Suc i) xs"
  shows "restated a b xs ys"
proof -
  let ?e = "xs ! i"
  have xs: "take i xs @ ?e # drop (Suc i) xs = xs" by (rule id_take_nth_drop [OF assms(2), symmetric])
  have e: "ext_ok ?e" "\<not> simplefs_extent_is_empty ?e" using assms(1,2) by (simp_all add: normal_def list_all_length)
  note h = hit_facts [OF e assms(3,4)]
  have u: "simplefs_ext_unwritten ?e \<noteq> False" using assms(3) by (simp add: hit_def)
  note sl = split_list [OF _ h(1,2) u assms(5), unfolded xs, OF assms(1)]
  have "fst ` emap ys k = fst ` emap xs k" for k unfolding sl(2) by (force simp: image_image)
  moreover have "emap ys k = emap xs k" if "\<not> (unat a \<le> k \<and> k < unat b)" for k
    unfolding sl(2) using that h(3,4) by auto
  ultimately show "restated a b xs ys" using sl(1) by (simp add: restated_def)
qed

lemma convert_loop_wp:
  assumes "normal (extents buf)" "\<forall>k<i. k < length (extents buf) \<longrightarrow> \<not> hit a b (extents buf ! k)" "a < b"
    and "\<And>r buf' s'. tframe s s' \<Longrightarrow> leaf_blocks buf' = leaf_blocks buf \<Longrightarrow> (r = None \<Longrightarrow>
      restated a b (extents buf) (extents buf') \<and> (\<forall>e\<in>set (extents buf'). \<not> hit a b e)) \<Longrightarrow> Q (r, buf') s'"
  shows "wp (convert_loop E a b buf i) Q s"
  using assms
proof (induction E a b buf i arbitrary: s Q rule: convert_loop.induct)
  case (1 E a b buf i)
  let ?xs = "extents buf"
  consider (fin) "i \<ge> length ?xs" | (skip) "i < length ?xs" "\<not> hit a b (?xs ! i)" | (conv) "i < length ?xs" "hit a b (?xs ! i)"
    by linarith
  then show ?case
  proof cases
    case fin
    then have "\<not> hit a b e" if "e \<in> set ?xs" for e using 1(4) that by (auto simp: in_set_conv_nth)
    then show ?thesis
      using 1(6) [OF tframe_refl refl] 1(3) fin by (subst convert_loop.simps) (simp add: wp_return restated_def)
  next
    case skip
    have "\<forall>k<Suc i. k < length ?xs \<longrightarrow> \<not> hit a b (?xs ! k)" using 1(4) skip(2) by (auto simp: less_Suc_eq)
    have "wp (convert_loop E a b buf (Suc i)) Q s"
      by (rule 1(1) [OF _ skip(2) 1(3) \<open>\<forall>k<Suc i. _\<close> 1(5)]) (use skip 1(6) in auto)
    then show ?thesis using skip by (subst convert_loop.simps) simp
  next
    case conv
    have u: "simplefs_ext_unwritten (?xs ! i) \<noteq> False" using conv(2) by (simp add: hit_def)
    have e: "(i \<ge> length ?xs) = False" "(\<not> hit a b (?xs ! i)) = False" using conv by simp_all
    show ?thesis
      unfolding convert_loop.simps [of E a b buf i] e if_False wp_bind simplefs_convert_unwritten_extent_def
    proof (rule wpI)
      fix p s1
      assume run: "run_state (split_extent E False buf i (hit_start a (?xs ! i)) (hit_len a b (?xs ! i))) s = (p, s1)"
      obtain r buf1 where p: "p = (r, buf1)" by fastforce
      note sp = split_extent_pieces [OF run [unfolded p] conv(1) u]
      show "wp (if fst p \<noteq> None then ret p else convert_loop E a b (snd p) (Suc 0)) Q s1"
      proof (cases r)
        case (Some e)
        then show ?thesis using 1(6) [OF sp(3,2), of r] by (simp add: p wp_return)
      next
        case None
        have bef: "\<forall>k<i. \<not> hit a b (?xs ! k)" using 1(4) conv(1) by simp
        note st = convert_step [OF 1(3) conv 1(5) sp(1) [OF None]]
        have first: "\<forall>k<Suc 0. k < length (extents buf1) \<longrightarrow> \<not> hit a b (extents buf1 ! k)"
          using first_no_hit [OF conv sp(1) [OF None] bef] by auto
        have "wp (convert_loop E a b (snd p) (Suc 0)) Q s1"
        proof (rule 1(2) [OF _ _ run [folded simplefs_convert_unwritten_extent_def]], goal_cases)
          case (7 s' buf' r')
          then show ?case
            using 1(6) [OF tframe_trans [OF sp(3) 7(1)], of buf' r'] sp(2) restated_trans [OF st] by (simp add: p)
        qed (use conv first st 1(5) None in \<open>simp_all add: p restated_def\<close>)
        then show ?thesis by (simp add: p None)
      qed
    qed
  qed
qed

text \<open>The set of targets with their state set to \<open>u\<close>.\<close>

lemma state_image:
  assumes "fst ` S = fst ` T" "\<And>p v. (p, v) \<in> S \<Longrightarrow> v = u"
  shows "S = (\<lambda>(p, v). (p, u)) ` T"
proof -
  have "S = (\<lambda>p. (p, u)) ` fst ` S" using assms(2) by (auto simp: image_iff) (metis fst_conv)+
  also have "\<dots> = (\<lambda>(p, v). (p, u)) ` T" unfolding assms(1) by (simp add: image_image case_prod_unfold)
  finally show ?thesis .
qed

lemma restated_written:
  assumes "restated a b xs ys" "\<forall>e\<in>set ys. \<not> hit a b e"
  shows "emap ys k = (if unat a \<le> k \<and> k < unat b then (\<lambda>(p, u). (p, False)) ` emap xs k else emap xs k)"
proof (cases "unat a \<le> k \<and> k < unat b")
  case True
  have "\<not> u" if pu: "(p, u) \<in> emap ys k" for p u
  proof -
    obtain e where e: "e \<in> set ys" "covers e k" "u = simplefs_ext_unwritten e"
      using pu by (auto simp: emap_def target_def)
    have "ext_ok e" using assms(1) e(1) by (simp add: restated_def normal_def list_all_iff)
    from ext_end_unat [OF this] show ?thesis
      using assms(2) e True by (auto simp: hit_def covers_def word_le_nat_alt)
  qed
  then have "emap ys k = (\<lambda>(p, u). (p, False)) ` emap xs k"
    using assms(1) by (intro state_image) (auto simp: restated_def)
  then show ?thesis using True by simp
qed (use assms(1) in \<open>auto simp: restated_def\<close>)

lemma load_file_wp:
  assumes "file_ok s ino xs leaves"
    and "\<And>e buf s'. tframe s s' \<Longrightarrow> \<not> quiet E \<Longrightarrow> Q (Some e, buf) s'"
    and "\<And>buf s'. tframe s s' \<Longrightarrow> extents buf = xs \<Longrightarrow> leaf_blocks buf = leaves \<Longrightarrow> Q (None, buf) s'"
  shows "wp (simplefs_file_load_extents E (ei_block (inodes s ino))) Q s"
proof -
  have "wp (simplefs_file_load_extents E (ei_block (inodes s ino))) (\<lambda>p s'. tframe s s' \<and>
      loaded E (cache s) empty_buffer xs leaves p s') s"
    using load_extents_tframe load_extents_spec [of s "ei_block (inodes s ino)" xs leaves E] assms(1)
    by (auto simp: keeps_wp file_ok_def intro: wp_conj)
  then show ?thesis
  proof (rule wp_mono, elim conjE)
    fix p s'
    assume "tframe s s'" "loaded E (cache s) empty_buffer xs leaves p s'"
    then show "Q p s'"
      by (cases p; cases "fst p") (auto simp: loaded_def empty_buffer_def intro: assms(2,3))
  qed
qed

text \<open>
  The extents of \<open>ino\<close> are now \<open>xs'\<close> for some \<open>xs'\<close> with \<open>P\<close>, or there was an error.
\<close>

definition remapped :: "kst \<Rightarrow> u32 \<Rightarrow> (simplefs_extent list \<Rightarrow> bool) \<Rightarrow> status \<Rightarrow> kst \<Rightarrow> bool" where
  "remapped s ino P r s' \<longleftrightarrow> (case r of
     None \<Rightarrow> (\<exists>xs' leaves'. file_ok s' ino xs' leaves' \<and> P xs') \<and>
       ei_block (inodes s' ino) = ei_block (inodes s ino)
   | Some e \<Rightarrow> untouched s s')"

lemma remappedI:
  "file_ok s' ino xs' leaves' \<Longrightarrow> P xs' \<Longrightarrow>
   ei_block (inodes s' ino) = ei_block (inodes s ino) \<Longrightarrow> remapped s ino P None s'"
  by (auto simp: remapped_def)

lemma sync_remapped_wp:
  assumes "file_ok s ino xs leaves" "edited ino s t" "leaf_blocks buf = leaves" "normal (extents buf)"
    and "\<And>ys. emap ys = emap (extents buf) \<Longrightarrow> P ys"
    and "\<And>r buf' s'. remapped s ino P r s' \<Longrightarrow> Q (r, buf') s'"
  shows "wp (simplefs_file_sync_extents E ino buf) Q t"
  by (rule sync_file_wp [OF assms(1-3) normal_exts_ok [OF assms(4)]])
    (auto simp: remapped_def [of s ino P "Some e" for e] not_None_eq intro: remappedI assms(5) intro!: assms(6))

lemma convert_range_spec:
  fixes a b :: u32
  assumes f: "file_ok s ino xs leaves" and pos: "0 < len"
    and a: "a = word_of_int (offset div 4096)" "b = word_of_int ((offset + len + 4096 - 1) div 4096)" "a < b"
  shows "wp (simplefs_convert_unwritten_range E ino offset len) (remapped s ino (\<lambda>xs'. \<forall>k. emap xs' k =
     (if unat a \<le> k \<and> k < unat b then (\<lambda>(p, u). (p, False)) ` emap xs k else emap xs k))) s"
proof -
  define P where "P = (\<lambda>xs'. \<forall>k. emap xs' k =
     (if unat a \<le> k \<and> k < unat b then (\<lambda>(p, u). (p, False)) ` emap xs k else emap xs k))"
  have nx: "normal xs" using f by (simp add: file_ok_def)
  have gu: "\<not> len \<le> 0" "\<not> b \<le> a" using pos a(3) by auto
  have err: "remapped s ino P (Some e) u" if "tframe s u" for e u
    using taking_untouched [OF f tframe_taking [OF that]] by (simp add: remapped_def)
  have loop: "wp (convert_loop E a b buf 0) (\<lambda>p. wp (case p of (r, buf) \<Rightarrow> if r \<noteq> None then ret r
      else do { (r, buf) \<leftarrow> simplefs_file_sync_extents E ino buf; ret r }) (remapped s ino P)) t"
    if t: "tframe s t" "extents buf = xs" "leaf_blocks buf = leaves" for buf t
  proof (rule convert_loop_wp, goal_cases)
    case (4 r buf' u)
    have u: "tframe s u" by (rule tframe_trans [OF t(1) 4(1)])
    show ?case
    proof (cases r)
      case None
      have c: "restated a b xs (extents buf')" "\<forall>e\<in>set (extents buf'). \<not> hit a b e" using 4(3) [OF None] t by simp_all
      have P: "P ys" if "emap ys = emap (extents buf')" for ys unfolding P_def that restated_written [OF c] by blast
      have n: "normal (extents buf')" using c(1) by (simp add: restated_def)
      have "leaf_blocks buf' = leaves" using 4(2) t by simp
      from sync_remapped_wp [OF f edited_taking [OF tframe_taking [OF u]] this n P,
          where Q = "\<lambda>p. wp (case p of (r, buf) \<Rightarrow> ret r) (remapped s ino P)"]
      show ?thesis by (simp add: None wp_bind wp_return)
    qed (use err [OF u] in \<open>simp add: wp_return\<close>)
  qed (use t nx a(3) in simp_all)
  show ?thesis
    unfolding simplefs_convert_unwritten_range_def if_not_P [OF gu(1)] Let_def a(1,2) [symmetric] if_not_P [OF gu(2)]
      wp_bind wp_gets P_def [symmetric]
    by (rule load_file_wp [OF f]) (use err loop in \<open>simp_all add: wp_return wp_bind\<close>)
qed

section \<open>Making blocks unwritten\<close>

definition simplefs_mark_unwritten_range :: "env \<Rightarrow> u32 \<Rightarrow> u32 \<Rightarrow> u32 \<Rightarrow> (kst, status) state" where
  "simplefs_mark_unwritten_range E ino start_block nr_blocks' =
     (if nr_blocks' = 0 then ret None
      else do {
        root \<leftarrow> gets (\<lambda>s. ei_block (inodes s ino));
        (r, buf) \<leftarrow> simplefs_file_load_extents E root;
        if r \<noteq> None then ret r
        else do {
          let (found, extent_idx) = simplefs_file_find_extent buf start_block;
          if \<not> found then ret (Some EFSCORRUPTED)
          else do {
            (r, buf) \<leftarrow> simplefs_mark_unwritten_extent E buf extent_idx start_block nr_blocks';
            if r \<noteq> None then ret r
            else do { (r, buf) \<leftarrow> simplefs_file_sync_extents E ino buf; ret r }
          }
        }
      })"

lemma halving_length:
  "run_state (get_free_blocks_halving E len) s = (q, s') \<Longrightarrow> snd q \<le> len \<and> (0 < len \<longrightarrow> 0 < snd q)"
proof (induction E len arbitrary: s rule: get_free_blocks_halving.induct)
  case (1 E len)
  obtain r t where t: "run_state (get_free_blocks E len) s = (r, t)" by fastforce
  show ?case
  proof (cases "r = 0 \<and> 1 < len")
    case True
    then have "run_state (get_free_blocks_halving E (len div 2)) t = (q, s')"
      using 1(2) t by (subst (asm) get_free_blocks_halving.simps) simp
    from 1(1) [OF True this] True show ?thesis
      by (auto simp: word_le_nat_alt word_less_nat_alt unat_div)
  next
    case False
    then have "q = (r, len)" using 1(2) t by (subst (asm) get_free_blocks_halving.simps) auto
    then show ?thesis by simp
  qed
qed

lemma find_loop_bounds:
  "find_extent_loop xs b i = (found, j) \<Longrightarrow> i \<le> j \<and> (found \<longrightarrow> j - i < length xs \<and> b < simplefs_ext_end (xs ! (j - i))) \<and>
     (\<not> found \<longrightarrow> j - i < length xs \<longrightarrow> b < ee_block (xs ! (j - i)))"
proof (induction xs arbitrary: i)
  case (Cons e xs)
  show ?case
  proof (cases "b < ee_block e \<or> b < simplefs_ext_end e")
    case False
    then have "find_extent_loop xs b (Suc i) = (found, j)" using Cons.prems by auto
    from Cons.IH [OF this] show ?thesis by (auto simp: nth_Cons' Suc_diff_le)
  qed (use Cons.prems in \<open>auto split: if_splits\<close>)
qed simp

lemma room_at_bounds:
  assumes "simplefs_file_find_extent buf b = (False, i)"
  shows "room_at buf i b len \<le> len" "0 < len \<Longrightarrow> 0 < room_at buf i b len"
  using find_loop_bounds [OF assms [unfolded simplefs_file_find_extent_def]]
  by (auto simp: room_at_def word_less_nat_alt word_le_nat_alt unat_sub_le)

lemma block_advance:
  fixes b n lastb :: u32
  assumes "b < lastb" "n \<le> lastb - b" "0 < n"
  shows "unat (b + n) = unat b + unat n" "unat lastb - unat (b + n) < unat lastb - unat b" "b + n \<le> lastb"
proof -
  have u: "unat (lastb - b) = unat lastb - unat b" using assms(1) by (simp add: unat_sub_le)
  then have le: "unat b + unat n \<le> unat lastb" using assms(1,2) by (simp add: word_le_nat_alt word_less_nat_alt)
  have "unat b + unat n < 4294967296" using le unat_lt_u32 [of lastb] by (rule le_less_trans)
  then show s: "unat (b + n) = unat b + unat n" by (simp add: unat_add_no_wrap)
  show "unat lastb - unat (b + n) < unat lastb - unat b" "b + n \<le> lastb"
    using s le assms(3) by (simp_all add: word_less_nat_alt word_le_nat_alt)
qed

text \<open>
  The loop of \<open>simplefs_zero_range_full_blocks\<close> from \<open>block\<close> on. \<open>alloced\<close> lists the ranges allocated
  so far, the last one first.
\<close>

function zero_range_loop :: "env \<Rightarrow> u32 \<Rightarrow> u32 \<Rightarrow> simplefs_extent_buffer \<Rightarrow> (u32 \<times> u32) list \<Rightarrow> u32
    \<Rightarrow> (kst, status \<times> simplefs_extent_buffer \<times> (u32 \<times> u32) list) state" where
  "zero_range_loop E ino lastb buf alloced block =
     (if \<not> block < lastb then ret (None, buf, alloced)
      else case simplefs_file_find_extent buf block of (found, idx) \<Rightarrow>
        if found then do {
          let e = extents buf ! idx;
          let conv_end = min (simplefs_ext_end e) lastb;
          p \<leftarrow> (if \<not> simplefs_ext_unwritten e
                then simplefs_mark_unwritten_extent E buf idx block (conv_end - block) else ret (None, buf));
          if fst p \<noteq> None then ret (fst p, snd p, alloced)
          else zero_range_loop E ino lastb (snd p) alloced conv_end
        } else do {
          q \<leftarrow> get_free_blocks_halving E (min (room_at buf idx block (lastb - block)) SIMPLEFS_MAX_BLOCKS_PER_EXTENT);
          if fst q = 0 then ret (Some ENOSPC, buf, alloced)
          else do {
            p \<leftarrow> simplefs_file_insert_extent E buf idx (simplefs_ext_init block (snd q) (fst q) True);
            if fst p \<noteq> None then do { put_blocks E (fst q) (snd q); ret (fst p, snd p, alloced) }
            else do {
              upd_inode ino (\<lambda>i. i\<lparr>i_blocks := i_blocks i + simplefs_blocks_to_sectors (ucast (snd q))\<rparr>);
              zero_range_loop E ino lastb (snd p) (q # alloced) (block + snd q)
            }
          }
        })"
  by pat_completeness auto
termination
proof (relation "measure (\<lambda>(E, ino, lastb, buf, al, b). unat lastb - unat b)", goal_cases)
  case (2 E ino lastb buf al b found idx e conv_end p s s')
  then have "b < conv_end" "conv_end \<le> lastb"
    using find_loop_bounds [of "extents buf" b 0 True idx] by (auto simp: simplefs_file_find_extent_def)
  then show ?case by (auto simp: word_less_nat_alt word_le_nat_alt intro!: diff_less_mono2)
next
  case (3 E ino lastb buf al b found idx q s s' p t t' x u u')
  have lt: "b < lastb" and find: "simplefs_file_find_extent buf b = (False, idx)" using 3(1-3) by auto
  have "0 < lastb - b" using lt unat_sub_le [of b lastb] by (simp add: word_less_nat_alt word_le_nat_alt)
  then have "snd q \<le> lastb - b" "0 < snd q"
    using halving_length [OF 3(4)] room_at_bounds [OF find, of "lastb - b"] by (auto simp: min_less_iff_conj)
  then show ?case using block_advance(2) [OF lt] by simp
qed auto

declare zero_range_loop.simps [simp del]

text \<open>The allocations are put back, the last one first.\<close>

fun undo_alloced :: "env \<Rightarrow> u32 \<Rightarrow> (u32 \<times> u32) list \<Rightarrow> (kst, unit) state" where
  "undo_alloced E ino [] = ret ()"
| "undo_alloced E ino ((start, len) # rest) = do {
     put_blocks E start len;
     upd_inode ino (\<lambda>i. i\<lparr>i_blocks := i_blocks i - simplefs_blocks_to_sectors (ucast len)\<rparr>);
     undo_alloced E ino rest
   }"

definition simplefs_zero_range_full_blocks :: "env \<Rightarrow> u32 \<Rightarrow> u32 \<Rightarrow> u32 \<Rightarrow> (kst, status) state" where
  "simplefs_zero_range_full_blocks E ino first lastb = do {
     nomem \<leftarrow> ext E Kmalloc;
     if nomem \<noteq> None then ret (Some ENOMEM)
     else do {
       root \<leftarrow> gets (\<lambda>s. ei_block (inodes s ino));
       (r, buf) \<leftarrow> simplefs_file_load_extents E root;
       if r \<noteq> None then ret r
       else do {
         (r, buf, alloced) \<leftarrow> zero_range_loop E ino lastb buf [] first;
         if r \<noteq> None then ret r
         else do {
           (r, buf) \<leftarrow> simplefs_file_sync_extents E ino buf;
           when_true (r \<noteq> None) (undo_alloced E ino alloced);
           ret r
         }
       }
     }
   }"

section \<open>Zeroing is right\<close>

text \<open>
  From \<open>xs\<close> to \<open>ys\<close> the blocks from \<open>first\<close> up to \<open>b\<close> have become unwritten: mapped ones where they
  were, holes at blocks that are free in \<open>s\<close>; all others are as before.
\<close>

definition zeroed :: "kst \<Rightarrow> simplefs_extent list \<Rightarrow> nat \<Rightarrow> nat \<Rightarrow> simplefs_extent list \<Rightarrow> bool" where
  "zeroed s xs first b ys \<longleftrightarrow> normal ys \<and> (\<forall>k. if first \<le> k \<and> k < b
     then \<exists>p. emap ys k = {(p, True)} \<and> fst ` emap xs k \<subseteq> {p} \<and> (emap xs k = {} \<longrightarrow> p \<in> free_blocks s)
     else emap ys k = emap xs k)"

lemma zeroed_step:
  assumes "zeroed s xs first b ys" "normal zs" "first \<le> b" "b \<le> c"
    and "\<And>k. emap zs k = (if b \<le> k \<and> k < c then {(p k, True)} else emap ys k)"
    and "\<And>k. b \<le> k \<Longrightarrow> k < c \<Longrightarrow> fst ` emap ys k \<subseteq> {p k} \<and> (emap ys k = {} \<longrightarrow> p k \<in> free_blocks s)"
  shows "zeroed s xs first c zs"
  unfolding zeroed_def
proof (intro conjI allI)
  fix k
  have z: "if first \<le> k \<and> k < b
     then \<exists>p. emap ys k = {(p, True)} \<and> fst ` emap xs k \<subseteq> {p} \<and> (emap xs k = {} \<longrightarrow> p \<in> free_blocks s)
     else emap ys k = emap xs k"
    using assms(1) unfolding zeroed_def by blast
  consider (done') "first \<le> k" "k < b" | (now) "b \<le> k" "k < c" | (off) "\<not> (first \<le> k \<and> k < c)" by linarith
  then show "if first \<le> k \<and> k < c
     then \<exists>p. emap zs k = {(p, True)} \<and> fst ` emap xs k \<subseteq> {p} \<and> (emap xs k = {} \<longrightarrow> p \<in> free_blocks s)
     else emap zs k = emap xs k"
  proof cases
    case done'
    then show ?thesis using z assms(3,4) by (simp add: assms(5))
  next
    case now
    then have "emap ys k = emap xs k" using z by simp
    then show ?thesis using assms(3) now assms(6) [OF now] by (simp add: assms(5))
  next
    case off
    then show ?thesis using z assms(3,4) by (auto simp: assms(5))
  qed
qed (use assms(2) in simp)

lemma zero_found:
  assumes z: "zeroed s xs first (unat b) (extents buf)" "first \<le> unat b" and f: "simplefs_file_find_extent buf b = (True, i)"
    and e: "e = extents buf ! i" "c = min (simplefs_ext_end e) lastb" "b < lastb"
    and ys: "ys = (if simplefs_ext_unwritten e then extents buf
      else take i (extents buf) @ split_parts True e b (c - b) @ drop (Suc i) (extents buf))"
  shows "zeroed s xs first (unat c) ys" "b < c" "c \<le> lastb" "i < length (extents buf)"
proof -
  let ?xs = "extents buf"
  have n: "normal ?xs" using z(1) by (simp add: zeroed_def)
  note fs = find_extent_loop_spec [OF n f [unfolded simplefs_file_find_extent_def]]
  have i: "i < length ?xs" "covers e (unat b)" "ext_ok e" "e \<in> set ?xs"
    using fs n by (auto simp: e normal_def list_all_length)
  show "i < length ?xs" by (rule i(1))
  have ce: "unat c = min (unat (ee_block e) + unat (simplefs_ext_len e)) (unat lastb)"
    using ext_end_unat [OF i(3)] by (simp add: e(2) min_def word_le_nat_alt)
  then show bc: "b < c" using i(2) e(3) by (simp add: word_less_nat_alt covers_def)
  show "c \<le> lastb" by (simp add: e(2))
  have sub: "unat (c - b) = unat c - unat b" using bc by (simp add: unat_sub_le)
  have cov: "covers e k" if "unat b \<le> k" "k < unat c" for k using that i(2) ce by (simp add: covers_def)
  note em = covers_emap [OF n i(4) cov]
  show "zeroed s xs first (unat c) ys"
  proof (rule zeroed_step [OF z(1) _ z(2)])
    show "unat b \<le> unat c" using bc by (simp add: word_less_nat_alt)
    have "normal ys \<and> (\<forall>k. emap ys k = (if unat b \<le> k \<and> k < unat c then {(fst (target e k), True)} else emap ?xs k))"
    proof (cases "simplefs_ext_unwritten e")
      case True
      then show ?thesis using n em by (simp add: ys target_def)
    next
      case False
      have xs: "take i ?xs @ e # drop (Suc i) ?xs = ?xs" using id_take_nth_drop [OF i(1)] by (simp add: e)
      have "split_len e b (c - b) = unat c - unat b" using ce i(2) by (auto simp: split_len_def sub covers_def min_def)
      moreover have "0 < c - b" using sub bc by (simp add: word_less_nat_alt)
      ultimately show ?thesis
        using split_list [OF _ i(2), of "take i ?xs" "drop (Suc i) ?xs", unfolded xs, OF n, of "c - b" True ys] False ys em bc
        by (auto simp: target_def word_less_nat_alt)
    qed
    then show "normal ys" "\<And>k. emap ys k = (if unat b \<le> k \<and> k < unat c then {(fst (target e k), True)} else emap ?xs k)"
      by blast+
  qed (simp add: em)
qed

lemma zero_hole:
  assumes z: "zeroed s xs first (unat b) (extents buf)" "first \<le> unat b" and f: "simplefs_file_find_extent buf b = (False, i)"
    and n: "n \<le> min (room_at buf i b (lastb - b)) 8192" "b < lastb" and c: "claimed s r n"
    and ys: "ys = take i (extents buf) @ simplefs_ext_init b n r True # drop i (extents buf)"
  shows "zeroed s xs first (unat (b + n)) ys" "b + n \<le> lastb" "i \<le> length (extents buf)"
    "unat b \<le> unat (b + n)"
proof -
  have nx: "normal (extents buf)" using z(1) by (simp add: zeroed_def)
  note room = room_at_gap [OF nx f, of "lastb - b"]
  have nn: "n \<le> lastb - b" "0 < n" "n \<le> 8192" using n room(2) c by (auto simp: claimed_def word_less_nat_alt)
  note adv = block_advance [OF n(2) nn(1,2)]
  have gap: "gap (extents buf) i (unat b) (unat n)"
    by (rule gap_mono [OF room(1)]) (use n(1) in \<open>simp add: word_le_nat_alt [symmetric]\<close>)
  show "b + n \<le> lastb" "unat b \<le> unat (b + n)" using adv by simp_all
  show "i \<le> length (extents buf)" using gap by (simp add: gap_def)
  define e where "e = simplefs_ext_init b n r True"
  have e: "ext_ok e" "\<not> simplefs_extent_is_empty e" "ee_block e = b" "simplefs_ext_len e = n"
    using c nn unat_lt_u32 [of "b + n"] adv(1)
    by (auto simp: e_def ext_ok_def simplefs_extent_is_empty_def claimed_def)
  note ins = gap_insert [OF nx gap e ys [folded e_def]]
  show "zeroed s xs first (unat (b + n)) ys"
  proof (rule zeroed_step [OF z(1) ins(1) z(2)])
    show "emap ys k = (if unat b \<le> k \<and> k < unat (b + n) then {(unat r + (k - unat b), True)} else emap (extents buf) k)" for k
      using ins(2) adv(1) by (simp add: block_mapped_def e_def)
    show "fst ` emap (extents buf) k \<subseteq> {unat r + (k - unat b)} \<and> (emap (extents buf) k = {} \<longrightarrow> unat r + (k - unat b) \<in> free_blocks s)"
      if "unat b \<le> k" "k < unat (b + n)" for k
    proof -
      have "unat r + (k - unat b) \<in> {unat r..<unat r + unat n}" using that adv(1) by auto
      then show ?thesis using that gap_emap [OF gap, of k] c adv(1) by (auto simp only: claimed_def subset_iff image_empty)
    qed
  qed (simp add: adv(1))
qed

lemma edited_untouched:
  assumes "file_ok s ino xs leaves" "edited ino s t"
  shows "untouched s t" "grows s t" "geom_ok (sbi t)"
  using edited_file [OF assms] by (simp_all add: untouched_def)

text \<open>One step on a mapped block: the extents left and the next block.\<close>

lemma zero_mark_run:
  assumes "run_state (if \<not> simplefs_ext_unwritten e then simplefs_mark_unwritten_extent E buf i b n else ret (None, buf)) s = ((r, buf'), s')"
    and "i < length (extents buf)" "e = extents buf ! i"
  shows "tframe s s'" "leaf_blocks buf' = leaf_blocks buf"
    "r = None \<Longrightarrow> extents buf' = (if simplefs_ext_unwritten e then extents buf
      else take i (extents buf) @ split_parts True e b n @ drop (Suc i) (extents buf))"
proof -
  have "tframe s s' \<and> leaf_blocks buf' = leaf_blocks buf \<and> (r = None \<longrightarrow> extents buf' = (if simplefs_ext_unwritten e then extents buf
      else take i (extents buf) @ split_parts True e b n @ drop (Suc i) (extents buf)))"
  proof (cases "simplefs_ext_unwritten e")
    case False
    then have run: "run_state (split_extent E True buf i b n) s = ((r, buf'), s')" and u: "simplefs_ext_unwritten (extents buf ! i) \<noteq> True"
      using assms(1,3) by (simp_all add: simplefs_mark_unwritten_extent_def)
    show ?thesis using split_extent_pieces [OF run assms(2) u] False assms(3) by simp
  qed (use assms(1) tframe_refl in auto)
  then show "tframe s s'" "leaf_blocks buf' = leaf_blocks buf"
    "r = None \<Longrightarrow> extents buf' = (if simplefs_ext_unwritten e then extents buf
      else take i (extents buf) @ split_parts True e b n @ drop (Suc i) (extents buf))" by blast+
qed

lemma wp_with_run: "wp m (\<lambda>r s'. run_state m s = (r, s') \<longrightarrow> Q r s') s \<Longrightarrow> wp m Q s"
  by (simp add: wp_def split: prod.splits)

text \<open>
  The two kinds of steps, each with the rest of the loop as \<open>K\<close>.
\<close>

lemma zero_mapped_wp:
  assumes f: "file_ok s ino xs leaves"
    and inv: "edited ino s t" "leaf_blocks buf = leaves" "zeroed s xs first (unat b) (extents buf)" "first \<le> unat b"
    and find: "simplefs_file_find_extent buf b = (True, i)" "b < lastb"
    and e: "e = extents buf ! i" "c = min (simplefs_ext_end e) lastb"
    and Q: "\<And>er buf' s'. untouched s s' \<Longrightarrow> Q (Some er, buf', al) s'"
    and K: "\<And>p u. run_state (if \<not> simplefs_ext_unwritten e then simplefs_mark_unwritten_extent E buf i b (c - b) else ret (None, buf)) t = (p, u) \<Longrightarrow>
      \<not> fst p \<noteq> None \<Longrightarrow> edited ino s u \<Longrightarrow> leaf_blocks (snd p) = leaves \<Longrightarrow> zeroed s xs first (unat c) (extents (snd p)) \<Longrightarrow>
      first \<le> unat c \<Longrightarrow> c \<le> lastb \<Longrightarrow> wp (K p) Q u"
  shows "wp (if \<not> simplefs_ext_unwritten e then simplefs_mark_unwritten_extent E buf i b (c - b) else ret (None, buf))
     (\<lambda>p. wp (if fst p \<noteq> None then ret (fst p, snd p, al) else K p) Q) t"
proof (rule wpI)
  fix p u
  assume run: "run_state (if \<not> simplefs_ext_unwritten e then simplefs_mark_unwritten_extent E buf i b (c - b) else ret (None, buf)) t = (p, u)"
  obtain r buf1 where p: "p = (r, buf1)" by fastforce
  note zf = zero_found [OF inv(3,4) find(1) e find(2) refl]
  note m = zero_mark_run [OF run [unfolded p] zf(4) e(1)]
  have u: "edited ino s u" by (rule edited_trans [OF inv(1) tframe_taking [OF m(1)]])
  show "wp (if fst p \<noteq> None then ret (fst p, snd p, al) else K p) Q u"
  proof (cases r)
    case (Some er)
    then show ?thesis using Q [OF edited_untouched(1) [OF f u]] by (simp add: p wp_return)
  next
    case None
    have "zeroed s xs first (unat c) (extents buf1)" using zf(1) m(3) [OF None] by simp
    moreover have "first \<le> unat c" using inv(4) zf(2) by (simp add: word_less_nat_alt)
    ultimately have "wp (K p) Q u" using K [OF run _ u] m(2) inv(2) zf(3) by (simp add: p None)
    then show ?thesis by (simp add: p None)
  qed
qed

lemma zero_hole_wp:
  assumes f: "file_ok s ino xs leaves"
    and inv: "edited ino s t" "leaf_blocks buf = leaves" "zeroed s xs first (unat b) (extents buf)" "first \<le> unat b"
    and find: "simplefs_file_find_extent buf b = (False, i)" "b < lastb"
    and Q: "\<And>er buf' s'. untouched s s' \<Longrightarrow> Q (Some er, buf', al) s'"
    and K: "\<And>q p u v w. run_state (get_free_blocks_halving E (min (room_at buf i b (lastb - b)) SIMPLEFS_MAX_BLOCKS_PER_EXTENT)) t = (q, u) \<Longrightarrow>
      fst q \<noteq> 0 \<Longrightarrow> run_state (simplefs_file_insert_extent E buf i (simplefs_ext_init b (snd q) (fst q) True)) u = (p, v) \<Longrightarrow>
      \<not> fst p \<noteq> None \<Longrightarrow> edited ino s w \<Longrightarrow> leaf_blocks (snd p) = leaves \<Longrightarrow> zeroed s xs first (unat (b + snd q)) (extents (snd p)) \<Longrightarrow>
      first \<le> unat (b + snd q) \<Longrightarrow> b + snd q \<le> lastb \<Longrightarrow> wp (K p q) Q w"
  shows "wp (get_free_blocks_halving E (min (room_at buf i b (lastb - b)) SIMPLEFS_MAX_BLOCKS_PER_EXTENT))
    (\<lambda>q. wp (if fst q = 0 then ret (Some ENOSPC, buf, al) else do {
       p \<leftarrow> simplefs_file_insert_extent E buf i (simplefs_ext_init b (snd q) (fst q) True);
       if fst p \<noteq> None then do { put_blocks E (fst q) (snd q); ret (fst p, snd p, al) }
       else do {
         upd_inode ino (\<lambda>i. i\<lparr>i_blocks := i_blocks i + simplefs_blocks_to_sectors (ucast (snd q))\<rparr>);
         K p q
       } }) Q) t"
proof (rule wp_with_run, rule halving_wp [OF edited_file(2) [OF f inv(1)]], intro impI)
  fix r n u
  assume u: "taking t u" and n: "n \<le> min (room_at buf i b (lastb - b)) SIMPLEFS_MAX_BLOCKS_PER_EXTENT"
    and cl: "r \<noteq> 0 \<Longrightarrow> claimed t r n"
    and run: "run_state (get_free_blocks_halving E (min (room_at buf i b (lastb - b)) SIMPLEFS_MAX_BLOCKS_PER_EXTENT)) t = ((r, n), u)"
  have eu: "edited ino s u" by (rule edited_trans [OF inv(1) u])
  show "wp (if fst (r, n) = 0 then ret (Some ENOSPC, buf, al) else do {
       p \<leftarrow> simplefs_file_insert_extent E buf i (simplefs_ext_init b (snd (r, n)) (fst (r, n)) True);
       if fst p \<noteq> None then do { put_blocks E (fst (r, n)) (snd (r, n)); ret (fst p, snd p, al) }
       else do {
         upd_inode ino (\<lambda>i. i\<lparr>i_blocks := i_blocks i + simplefs_blocks_to_sectors (ucast (snd (r, n)))\<rparr>);
         K p (r, n)
       } }) Q u"
  proof (cases "r = 0")
    case True
    then show ?thesis using Q [OF edited_untouched(1) [OF f eu]] by (simp add: wp_return)
  next
    case r: False
    have "free_blocks t \<subseteq> free_blocks s" using inv(1) by (simp add: edited_def taking_def free_blocks_def)
    then have c: "claimed s r n" using claimed_mono cl [OF r] by blast
    note zh = zero_hole [OF inv(3,4) find(1) n [unfolded format_constants] find(2) c refl]
    have r': "fst (r, n) \<noteq> 0" using r by simp
    show ?thesis
      unfolding fst_conv snd_conv if_not_P [OF r] wp_bind
    proof (rule wp_with_run, rule insert_extent_wp [OF zh(3)], intro impI)
      fix r1 :: status and buf1 v
      assume v: "tframe u v" "leaf_blocks buf1 = leaf_blocks buf"
        "r1 = None \<Longrightarrow> extents buf1 = take i (extents buf) @ simplefs_ext_init b n r True # drop i (extents buf)"
        and run1: "run_state (simplefs_file_insert_extent E buf i (simplefs_ext_init b n r True)) u = ((r1, buf1), v)"
      have ev: "edited ino s v" by (rule edited_trans [OF eu tframe_taking [OF v(1)]])
      have "wp (K (None, buf1) (r, n)) Q (v\<lparr>inodes := (inodes v)(ino := (inodes v ino)\<lparr>i_blocks := k\<rparr>)\<rparr>)" if "r1 = None" for k
        by (rule K [OF run r', of "(None, buf1)" v])
          (use run1 that zh v(2,3) inv(2,4) edited_inode [OF ev] in simp_all)
      then show "wp (if fst (r1, buf1) \<noteq> None then do { put_blocks E r n; ret (fst (r1, buf1), snd (r1, buf1), al) }
         else do { upd_inode ino (\<lambda>i. i\<lparr>i_blocks := i_blocks i + simplefs_blocks_to_sectors (ucast n)\<rparr>); K (r1, buf1) (r, n) }) Q v"
        using put_after_failure_wp [OF edited_untouched [OF f ev]] Q
        by (cases r1) (simp_all add: wp_bind wp_upd_inode wp_return)
    qed
  qed
qed

lemma zero_range_loop_wp:
  assumes f: "file_ok s ino xs leaves"
    and inv: "edited ino s t" "leaf_blocks buf = leaves" "zeroed s xs first (unat b) (extents buf)" "first \<le> unat b" "b \<le> lastb"
    and Q: "\<And>e buf' al' s'. untouched s s' \<Longrightarrow> Q (Some e, buf', al') s'"
      "\<And>buf' al' s'. edited ino s s' \<Longrightarrow> leaf_blocks buf' = leaves \<Longrightarrow> zeroed s xs first (unat lastb) (extents buf') \<Longrightarrow>
        Q (None, buf', al') s'"
  shows "wp (zero_range_loop E ino lastb buf al b) Q t"
  using inv f Q
proof (induction E ino lastb buf al b arbitrary: t rule: zero_range_loop.induct)
  case (1 E ino lastb buf al b)
  note inv = 1(3-7) and f = 1(8) and Q = 1(9,10)
  obtain found i where find: "simplefs_file_find_extent buf b = (found, i)" by fastforce
  show ?case
  proof (cases "b < lastb")
    case False
    then have "b = lastb" using inv(5) by simp
    then show ?thesis using Q(2) [OF inv(1,2)] inv(3) by (subst zero_range_loop.simps) (simp add: wp_return)
  next
    case lt: True
    then have nt: "\<not> \<not> b < lastb" by simp
    show ?thesis
      unfolding zero_range_loop.simps [of E ino lastb buf al b] if_not_P [OF nt] find prod.case
    proof (cases found)
      case True
      note K = 1(1) [OF nt find [symmetric] True refl refl]
      show "wp (if found then let e = extents buf ! i; conv_end = min (simplefs_ext_end e) lastb in (do {
          p \<leftarrow> (if \<not> simplefs_ext_unwritten e then simplefs_mark_unwritten_extent E buf i b (conv_end - b) else ret (None, buf));
          if fst p \<noteq> None then ret (fst p, snd p, al) else zero_range_loop E ino lastb (snd p) al conv_end })
        else X) Q t" for X
        unfolding if_P [OF True] Let_def wp_bind
        by (rule zero_mapped_wp [OF f inv(1-4) _ lt refl refl]) (use find True f Q K in simp_all)
    next
      case False
      show "wp (if found then Y else do {
          q \<leftarrow> get_free_blocks_halving E (min (room_at buf i b (lastb - b)) SIMPLEFS_MAX_BLOCKS_PER_EXTENT);
          if fst q = 0 then ret (Some ENOSPC, buf, al) else do {
            p \<leftarrow> simplefs_file_insert_extent E buf i (simplefs_ext_init b (snd q) (fst q) True);
            if fst p \<noteq> None then do { put_blocks E (fst q) (snd q); ret (fst p, snd p, al) }
            else do {
              upd_inode ino (\<lambda>i. i\<lparr>i_blocks := i_blocks i + simplefs_blocks_to_sectors (ucast (snd q))\<rparr>);
              zero_range_loop E ino lastb (snd p) (q # al) (b + snd q) } } }) Q t" for Y
        unfolding if_not_P [OF False] wp_bind
      proof (rule zero_hole_wp [OF f inv(1-4) _ lt], goal_cases)
        case (3 q p u v w)
        show ?case
          by (rule 1(2) [OF nt find [symmetric] False 3(1,2,3,4) surjective_pairing]) (use 3 f Q in simp_all)
      qed (use find False Q in simp_all)
    qed
  qed
qed

lemma undo_alloced_wp:
  assumes "untouched s t" "grows s t" "geom_ok (sbi t)" "\<And>s'. untouched s s' \<Longrightarrow> Q () s'"
  shows "wp (undo_alloced E ino al) Q t"
  using assms(1-3)
proof (induction al arbitrary: t)
  case (Cons q rest)
  obtain start len where q: "q = (start, len)" by fastforce
  show ?case
    unfolding q undo_alloced.simps wp_bind
  proof (rule put_blocks_wp)
    fix u
    assume u: "oframe t u"
    have root: "root_dir_block (sbi t) = root_dir_block (sbi s)"
      using Cons.prems(2) by (intro geometry_root) (simp add: grows_def)
    have g: "grows s u" by (rule grows_trans [OF Cons.prems(2) oframe_grows [OF u]])
    have "untouched s u"
      using Cons.prems(1,3) failed_grows [OF _ oframe_grows [OF u]] oframe_cache [OF u] root by (auto simp: untouched_def)
    then have "wp (undo_alloced E ino rest) Q (u\<lparr>inodes := (inodes u)(ino := (inodes u ino)\<lparr>i_blocks := k\<rparr>)\<rparr>)" for k
      using g Cons.prems(3) geometry_ok [OF oframe_geometry [OF u]]
      by (intro Cons.IH) (simp_all add: untouched_def grows_def failed_def)
    then show "wp (upd_inode ino (\<lambda>i. i\<lparr>i_blocks := i_blocks i - simplefs_blocks_to_sectors (ucast len)\<rparr>))
      (\<lambda>_. wp (undo_alloced E ino rest) Q) u"
      by (simp add: wp_upd_inode)
  qed
qed (simp add: wp_return assms(4))

lemma zero_range_spec:
  assumes f: "file_ok s ino xs leaves" and le: "first \<le> lastb"
  shows "wp (simplefs_zero_range_full_blocks E ino first lastb) (remapped s ino (\<lambda>xs'. \<exists>ys. emap xs' = emap ys \<and>
     zeroed s xs (unat first) (unat lastb) ys)) s"
proof -
  define P where "P = (\<lambda>xs'. \<exists>ys. emap xs' = emap ys \<and> zeroed s xs (unat first) (unat lastb) ys)"
  have err: "remapped s ino P (Some e) u" if "untouched s u" for e u using that by (simp add: remapped_def)
  have nx: "normal xs" using f by (simp add: file_ok_def)
  have z0: "zeroed s xs (unat first) (unat first) xs" using nx by (auto simp: zeroed_def)
  have sync: "wp (simplefs_file_sync_extents E ino buf) (\<lambda>p. wp (case p of (r, buf) \<Rightarrow> do {
      when_true (r \<noteq> None) (undo_alloced E ino al); ret r }) (remapped s ino P)) t"
    if t: "edited ino s t" "leaf_blocks buf = leaves" "zeroed s xs (unat first) (unat lastb) (extents buf)" for buf al t
  proof (rule sync_file_wp [OF f t(1,2)], goal_cases)
    case 1
    show ?case using t(3) by (intro normal_exts_ok) (simp add: zeroed_def)
  next
    case (2 r buf' s')
    have "wp (undo_alloced E ino al) (\<lambda>_. remapped s ino P r) s'"
      by (rule undo_alloced_wp [OF 2(1-3)]) (use 2(4) err in \<open>auto simp: not_None_eq\<close>)
    then show ?case using 2(4) by (simp add: wp_bind wp_when wp_return_fun)
  next
    case (3 buf' s')
    have "P (extents buf')" unfolding P_def using 3(2) t(3) by blast
    then show ?case using remappedI [OF 3(1) _ 3(3)] by (simp add: wp_bind wp_when wp_return)
  qed
  have loop: "wp (zero_range_loop E ino lastb buf [] first) (\<lambda>p. wp (case p of (r, buf, alloced) \<Rightarrow>
      if r \<noteq> None then ret r else do { (r, buf) \<leftarrow> simplefs_file_sync_extents E ino buf;
        when_true (r \<noteq> None) (undo_alloced E ino alloced); ret r }) (remapped s ino P)) t"
    if t: "tframe s t" "extents buf = xs" "leaf_blocks buf = leaves" for buf t
    by (rule zero_range_loop_wp [OF f edited_taking [OF tframe_taking [OF t(1)]] t(3), where first = "unat first"])
      (use t z0 le err sync in \<open>simp_all add: wp_return wp_bind\<close>)
  have fk: "file_ok (s\<lparr>trace := x # trace s\<rparr>) ino xs leaves" for x
    using f by (simp add: file_ok_def handle_ok_def)
  have tk: "tframe s t" if "tframe (s\<lparr>trace := x # trace s\<rparr>) t" for x t
    using tframe_trans [OF _ that, of s] by (simp add: tframe_def suffix_ConsI)
  have u: "untouched s t" if "tframe s t" for t using edited_untouched(1) [OF f edited_taking [OF tframe_taking [OF that]]] .
  have load: "wp (simplefs_file_load_extents E (ei_block (inodes s ino))) (\<lambda>p. wp (case p of (r, buf) \<Rightarrow>
      if r \<noteq> None then ret r else do {
        (r, buf, alloced) \<leftarrow> zero_range_loop E ino lastb buf [] first;
        if r \<noteq> None then ret r else do { (r, buf) \<leftarrow> simplefs_file_sync_extents E ino buf;
        when_true (r \<noteq> None) (undo_alloced E ino alloced); ret r } }) (remapped s ino P)) (s\<lparr>trace := x # trace s\<rparr>)" for x
    using load_file_wp [OF fk [of x], of E] loop err u tk by (simp add: wp_return wp_bind)
  show ?thesis
    unfolding simplefs_zero_range_full_blocks_def wp_bind wp_ext P_def [symmetric]
    using load err u [of "s\<lparr>trace := x # trace s\<rparr>" for x]
    by (auto simp: wp_return wp_bind wp_gets tframe_def suffix_ConsI)
qed

section \<open>The conversion loop ends on every list of extents\<close>

lemma insert_calls: "wp (insert_part E buf i n e) (\<lambda>p s'. length (trace s') \<le> Suc (length (trace s)) \<and> (quiet E \<longrightarrow> fst p = None)) s"
  by (auto simp: insert_part_def simplefs_file_insert_extent_def simplefs_file_append_extent_def
      simplefs_file_grow_extent_buffer_def wp_simps Let_def quiet_def)

lemma split_calls:
  "wp (split_extent E mark buf i b n) (\<lambda>p s'. length (trace s') \<le> length (trace s) + 2 \<and> (quiet E \<longrightarrow> fst p = None)) s"
  (is "wp _ ?Q s")
proof -
  have two: "wp (case p of (r, buf) \<Rightarrow> if r \<noteq> None then ret (r, buf) else
      State_Monad.bind (insert_part E buf j m e) (\<lambda>p. case p of (r, buf) \<Rightarrow> ret (if r \<noteq> None then (r, buf) else (None, g buf)))) ?Q t"
    if "length (trace t) \<le> Suc (length (trace s)) \<and> (quiet E \<longrightarrow> fst p = None)" for p j m e g t
    using that by (auto simp: wp_return wp_bind not_None_eq split: prod.split intro!: wp_mono [OF insert_calls])
  show ?thesis
  proof (cases "simplefs_ext_unwritten (extents buf ! i) = mark")
    case True
    then show ?thesis by (simp add: split_extent_def Let_def wp_return)
  next
    case False
    then show ?thesis
      unfolding split_extent_def Let_def if_not_P [OF False] wp_bind [of "insert_part _ _ _ _ _"]
      by (intro wp_mono [OF insert_calls] two)
  qed
qed

lemma convert_loop_calls:
  "(\<forall>k<i. k < length (extents buf) \<longrightarrow> \<not> hit a b (extents buf ! k)) \<Longrightarrow>
   wp (convert_loop E a b buf i) (\<lambda>(r, buf') s'. length (trace s') \<le> length (trace s) + 2 * hits a b (extents buf) \<and>
     (quiet E \<longrightarrow> r = None) \<and> (r = None \<longrightarrow> (\<forall>e\<in>set (extents buf'). \<not> hit a b e))) s"
proof (induction E a b buf i arbitrary: s rule: convert_loop.induct)
  case (1 E a b buf i)
  let ?xs = "extents buf"
  consider (fin) "i \<ge> length ?xs" | (skip) "i < length ?xs" "\<not> hit a b (?xs ! i)" | (conv) "i < length ?xs" "hit a b (?xs ! i)"
    by linarith
  then show ?case
  proof cases
    case fin
    then have "\<not> hit a b e" if "e \<in> set ?xs" for e using 1(3) that by (auto simp: in_set_conv_nth)
    then show ?thesis using fin by (subst convert_loop.simps) (simp add: wp_return)
  next
    case skip
    have "\<forall>k<Suc i. k < length ?xs \<longrightarrow> \<not> hit a b (?xs ! k)" using 1(3) skip(2) by (auto simp: less_Suc_eq)
    then show ?thesis using 1(1) [OF _ skip(2)] skip by (subst convert_loop.simps) simp
  next
    case conv
    have u: "simplefs_ext_unwritten (?xs ! i) \<noteq> False" using conv(2) by (simp add: hit_def)
    have e: "(i \<ge> length ?xs) = False" "(\<not> hit a b (?xs ! i)) = False" using conv by simp_all
    have pos: "0 < hits a b ?xs" using conv by (auto simp: hits_def filter_empty_conv intro: nth_mem)
    show ?thesis
      unfolding convert_loop.simps [of E a b buf i] e if_False wp_bind simplefs_convert_unwritten_extent_def
    proof (rule wp_with_run, rule wp_mono [OF split_calls], intro impI, elim conjE)
      fix p s1
      assume run: "run_state (split_extent E False buf i (hit_start a (?xs ! i)) (hit_len a b (?xs ! i))) s = (p, s1)"
        and s1: "length (trace s1) \<le> length (trace s) + 2" "quiet E \<longrightarrow> fst p = None"
      obtain r buf1 where p: "p = (r, buf1)" by fastforce
      note sp = split_extent_pieces [OF run [unfolded p] conv(1) u]
      show "wp (if fst p \<noteq> None then ret p else convert_loop E a b (snd p) (Suc 0))
        (\<lambda>(r, buf') s'. length (trace s') \<le> length (trace s) + 2 * hits a b ?xs \<and> (quiet E \<longrightarrow> r = None) \<and>
          (r = None \<longrightarrow> (\<forall>e\<in>set (extents buf'). \<not> hit a b e))) s1"
      proof (cases r)
        case (Some er)
        then show ?thesis using s1 pos by (simp add: p wp_return)
      next
        case None
        have less: "hits a b (extents buf1) < hits a b ?xs" using convert_decreases [OF run [unfolded p None] conv] .
        have "\<forall>k<Suc 0. k < length (extents buf1) \<longrightarrow> \<not> hit a b (extents buf1 ! k)"
          using first_no_hit [OF conv sp(1) [OF None]] 1(3) conv(1) by auto
        from 1(2) [OF _ _ run [folded simplefs_convert_unwritten_extent_def], of s1] this
        have "wp (convert_loop E a b buf1 (Suc 0)) (\<lambda>(r, buf') s'. length (trace s') \<le> length (trace s1) + 2 * hits a b (extents buf1) \<and>
          (quiet E \<longrightarrow> r = None) \<and> (r = None \<longrightarrow> (\<forall>e\<in>set (extents buf'). \<not> hit a b e))) s1"
          using conv by (simp add: p None)
        then show ?thesis using s1(1) less by (simp add: p None) (erule wp_mono, auto)
      qed
    qed
  qed
qed

section \<open>Properties of the range operations\<close>

text \<open>
  C7. \<open>simplefs_convert_unwritten_range\<close> on a byte range whose block numbers fit 32 bits: on success the
  file satisfies \<open>file_ok\<close> again and its tree on disk maps every block as before, the blocks of the range
  in the written state and all others in the state they had. On error the images from \<open>root_dir_block\<close> on are as before or the file system
  has failed.
\<close>
theorem convert_range_correct:
  fixes a b :: u32
  assumes "file_ok s ino xs leaves" "0 < len"
    and "a = word_of_int (offset div 4096)" "b = word_of_int ((offset + len + 4096 - 1) div 4096)" "a < b"
    and "run_state (simplefs_convert_unwritten_range E ino offset len) s = (r, s')"
  shows "(case r of
     None \<Rightarrow> \<exists>xs' leaves'. file_ok s' ino xs' leaves' \<and>
       (\<forall>k. emap xs' k = (if unat a \<le> k \<and> k < unat b then (\<lambda>(p, u). (p, False)) ` emap xs k else emap xs k))
   | Some e \<Rightarrow> failed s' \<or> (\<forall>n. root_dir_block (sbi s) \<le> n \<longrightarrow> cache s' n = cache s n))"
proof (cases r)
  case None
  then have "remapped s ino (\<lambda>xs'. \<forall>k. emap xs' k =
     (if unat a \<le> k \<and> k < unat b then (\<lambda>(p, u). (p, False)) ` emap xs k else emap xs k)) None s'"
    using wp_run [OF convert_range_spec [OF assms(1-5)] assms(6)] by simp
  then show ?thesis unfolding None remapped_def option.case by metis
qed (use wp_run [OF convert_range_spec [OF assms(1-5)] assms(6)] in \<open>simp add: remapped_def untouched_def\<close>)

theorem convert_range_correct_witness:
  "case run_state (simplefs_convert_unwritten_range env_ok 1 36864 4096) kst_map of (r, s') \<Rightarrow> (case r of
     None \<Rightarrow> \<exists>xs' leaves'. file_ok s' 1 xs' leaves' \<and> emap xs' 9 = {(20, False)}
   | Some e \<Rightarrow> failed s' \<or> cache s' 4 = cache kst_map 4)"
proof -
  obtain r s' where run: "run_state (simplefs_convert_unwritten_range env_ok 1 36864 4096) kst_map = (r, s')"
    by fastforce
  have m: "emap demo_map 9 = {(20, True)}" by (simp_all add: emap_Cons demo_map_def covers_def target_def simplefs_extent_is_empty_def)
  have g: "root_dir_block (sbi kst_map) \<le> 4" by (simp add: kst_map_def kst_file_def demo_simps root_dir_block_def)
  note c = convert_range_correct [OF kst_map_file _ refl refl _ run]
  show ?thesis
  proof (cases r)
    case None
    then obtain xs' leaves' where x: "file_ok s' 1 xs' leaves'"
      and k: "\<forall>k. emap xs' k = (if 9 \<le> k \<and> k < 10 then (\<lambda>(p, u). (p, False)) ` emap demo_map k else emap demo_map k)"
      using c by auto
    from k [rule_format, of 9] have "emap xs' 9 = {(20, False)}" using m by simp
    then show ?thesis using x by (auto simp: run None)
  qed (use c g run in auto)
qed

text \<open>
  C6. \<open>simplefs_zero_range_full_blocks\<close> on the blocks from \<open>first\<close> up to \<open>lastb\<close>: on success the file satisfies
  \<open>file_ok\<close> again and every block of the range is mapped in the unwritten state, so that it reads as zeros, a block that was mapped
  keeps its physical block, a hole gets one that was free, and all other blocks are mapped as before.
  On error the images from \<open>root_dir_block\<close> on are as before or the file system has failed.
\<close>
theorem zero_range_correct:
  assumes "file_ok s ino xs leaves" "first \<le> lastb"
    and "run_state (simplefs_zero_range_full_blocks E ino first lastb) s = (r, s')"
  shows "(case r of
     None \<Rightarrow> \<exists>xs' leaves'. file_ok s' ino xs' leaves' \<and>
       (\<forall>k. if unat first \<le> k \<and> k < unat lastb
          then \<exists>p. emap xs' k = {(p, True)} \<and> fst ` emap xs k \<subseteq> {p} \<and> (emap xs k = {} \<longrightarrow> p \<in> free_blocks s)
          else emap xs' k = emap xs k)
   | Some e \<Rightarrow> failed s' \<or> (\<forall>n. root_dir_block (sbi s) \<le> n \<longrightarrow> cache s' n = cache s n))"
proof -
  have "remapped s ino (\<lambda>xs'. \<exists>ys. emap xs' = emap ys \<and> zeroed s xs (unat first) (unat lastb) ys) r s'"
    by (rule wp_run [OF zero_range_spec [OF assms(1,2)] assms(3)])
  then show ?thesis
    unfolding remapped_def untouched_def zeroed_def by (cases r) (simp_all only: option.case, metis)
qed

theorem zero_range_correct_witness:
  "case run_state (simplefs_zero_range_full_blocks env_ok 1 0 2) kst_map of (r, s') \<Rightarrow> (case r of
     None \<Rightarrow> \<exists>xs' leaves'. file_ok s' 1 xs' leaves' \<and> emap xs' 0 = {(10, True)} \<and>
       emap xs' 2 = {(12, False)}
   | Some e \<Rightarrow> failed s' \<or> cache s' 4 = cache kst_map 4)"
proof -
  obtain r s' where run: "run_state (simplefs_zero_range_full_blocks env_ok 1 0 2) kst_map = (r, s')"
    by fastforce
  have m: "emap demo_map 0 = {(10, False)}" "emap demo_map 2 = {(12, False)}"
    by (simp_all add: emap_Cons demo_map_def covers_def target_def simplefs_extent_is_empty_def)
  have g: "root_dir_block (sbi kst_map) \<le> 4" by (simp add: kst_map_def kst_file_def demo_simps root_dir_block_def)
  show ?thesis
  proof (cases r)
    case None
    then obtain xs' leaves' where x: "file_ok s' 1 xs' leaves'"
      and k: "\<forall>k. if 0 \<le> k \<and> k < 2
          then \<exists>p. emap xs' k = {(p, True)} \<and> fst ` emap demo_map k \<subseteq> {p} \<and> (emap demo_map k = {} \<longrightarrow> p \<in> free_blocks kst_map)
          else emap xs' k = emap demo_map k"
      using zero_range_correct [OF kst_map_file _ run] by auto
    from k [rule_format, of 0] k [rule_format, of 2] have "emap xs' 0 = {(10, True)}" "emap xs' 2 = {(12, False)}"
      using m by auto
    then show ?thesis using x by (auto simp: run None)
  qed (use zero_range_correct [OF kst_map_file _ run] g run in auto)
qed

text \<open>
  C34. The conversion loop, which starts over after every conversion, ends on every list of extents,
  also one read from a damaged image, whose extents may overlap, be out of order or wrap around: it
  makes at most two allocations for each unwritten extent in the range, and when it succeeds no
  unwritten extent reaches into the range. It fails only if an allocation fails.
\<close>
theorem convert_loop_ends:
  assumes "run_state (convert_loop E a b buf 0) s = ((r, buf'), s')"
  shows "length (trace s') \<le> length (trace s) + 2 * length (filter (hit a b) (extents buf)) \<and>
    (quiet E \<longrightarrow> r = None) \<and> (r = None \<longrightarrow> (\<forall>e\<in>set (extents buf'). \<not> hit a b e))"
proof -
  have "wp (convert_loop E a b buf 0) (\<lambda>(r, buf') s'. length (trace s') \<le> length (trace s) + 2 * hits a b (extents buf) \<and>
     (quiet E \<longrightarrow> r = None) \<and> (r = None \<longrightarrow> (\<forall>e\<in>set (extents buf'). \<not> hit a b e))) s"
    by (rule convert_loop_calls) simp
  from wp_run [OF this assms] show ?thesis by (simp add: hits_def)
qed

theorem convert_loop_ends_witness:
  "case run_state (convert_loop env_ok 2 12 (empty_buffer\<lparr>extents := [simplefs_ext_init 5 9 20 True, simplefs_ext_init 0 6 10 True]\<rparr>) 0) kst_map
     of ((r, buf'), s') \<Rightarrow> r = None \<and> length (trace s') \<le> length (trace kst_map) + 4 \<and> (\<forall>e\<in>set (extents buf'). \<not> hit 2 12 e)"
proof -
  let ?b = "empty_buffer\<lparr>extents := [simplefs_ext_init 5 9 20 True, simplefs_ext_init 0 6 10 True]\<rparr>"
  obtain r buf' s' where run: "run_state (convert_loop env_ok 2 12 ?b 0) kst_map = ((r, buf'), s')"
    by (metis prod.collapse)
  have "length (filter (hit 2 12) (extents ?b)) \<le> 2"
    using length_filter_le [of "hit 2 12" "extents ?b"] by simp
  moreover have "quiet env_ok" using demo_pre by simp
  ultimately show ?thesis using convert_loop_ends [OF run] by (auto simp: run)
qed

end
