(* ===== verification/SFS_DirBuild.thy ===== *)
theory SFS_DirBuild
  imports SFS_DirAdd SFS_FileRanges
begin

text \<open>
  The caches of a directory are disposable: \<open>simplefs_dir_build\<close> restores from the images on disk an
  index with the same blocks, slots and names.
\<close>

section \<open>The blocks\<close>

definition maps_from :: "nat \<Rightarrow> simplefs_extent list \<Rightarrow> u32 list \<Rightarrow> bool" where
  "maps_from n xs bs \<longleftrightarrow> (\<forall>k. emap xs k = (if n \<le> k \<and> k < n + length bs then {(unat (bs ! (k - n)), False)} else {}))"

lemma maps_from_Nil: "maps_from n [] bs \<Longrightarrow> bs = []"
  by (cases bs) (auto simp: maps_from_def dest!: spec [of _ n])

text \<open>The first extent of such a list starts at \<open>n\<close> and the rest maps the blocks after it.\<close>

lemma maps_from_Cons:
  assumes m: "maps_from n (e # es) bs" and nx: "normal (e # es)"
  shows "unat (ee_block e) = n" "\<not> simplefs_ext_unwritten e" "unat (simplefs_ext_len e) \<le> length bs"
    "\<And>i. i < unat (simplefs_ext_len e) \<Longrightarrow> unat (bs ! i) = unat (ee_start e) + i"
    "maps_from (n + unat (simplefs_ext_len e)) es (drop (unat (simplefs_ext_len e)) bs)"
proof -
  let ?L = "unat (simplefs_ext_len e)" and ?B = "unat (ee_block e)"
  have ne: "\<not> simplefs_extent_is_empty e" "0 < ?L"
    using nx by (auto simp: normal_Cons simplefs_extent_is_empty_def unat_gt_0)
  have later: "\<not> covers f k" if "f \<in> set es" "k < ?B + ?L" for f k
    using nx that by (auto simp: normal_Cons before_def covers_def)
  have here: "emap (e # es) k = {target e k}" if "?B \<le> k" "k < ?B + ?L" for k
  proof -
    have "emap es k = {}" using later that by (auto simp: emap_def)
    then show ?thesis using that ne by (simp add: emap_Cons covers_def)
  qed
  have in_range: "n \<le> k" "k < n + length bs" "target e k = (unat (bs ! (k - n)), False)" if "?B \<le> k" "k < ?B + ?L" for k
    using here [OF that] m unfolding maps_from_def by (auto split: if_splits)
  have "n \<le> ?B" using in_range(1) [of ?B] ne(2) by simp
  moreover have "\<not> n < ?B"
  proof
    assume lt: "n < ?B"
    have "?B < n + length bs" by (rule in_range(2)) (use ne in simp_all)
    then have "n < n + length bs" using lt by linarith
    then have "emap (e # es) n \<noteq> {}" using m by (simp add: maps_from_def)
    moreover have "emap (e # es) n = {}" using later [of _ n] lt by (auto simp: emap_Cons emap_def covers_def)
    ultimately show False by simp
  qed
  ultimately show B: "?B = n" by simp
  show "\<not> simplefs_ext_unwritten e" using in_range(3) [of ?B] ne(2) by (simp add: target_def)
  have "n \<le> n + ?L - 1" "n + ?L - 1 < n + ?L" using ne(2) by linarith+
  from in_range(2) [unfolded B, OF this] show L: "?L \<le> length bs" using ne(2) by linarith
  show "unat (bs ! i) = unat (ee_start e) + i" if "i < ?L" for i
    using in_range(3) [of "?B + i"] that B by (simp add: target_def)
  show "maps_from (n + ?L) es (drop ?L bs)"
    unfolding maps_from_def
  proof
    fix k
    show "emap es k = (if n + ?L \<le> k \<and> k < n + ?L + length (drop ?L bs) then {(unat (drop ?L bs ! (k - (n + ?L))), False)} else {})"
    proof (cases "k < n + ?L")
      case True
      then show ?thesis using later [of _ k] B by (auto simp: emap_def)
    next
      case False
      then have "emap es k = emap (e # es) k" using B by (simp add: emap_Cons covers_def)
      then show ?thesis using m False L by (auto simp: maps_from_def)
    qed
  qed
qed

lemma extent_block_list:
  assumes "unat (simplefs_ext_len e) \<le> length bs" "\<And>i. i < unat (simplefs_ext_len e) \<Longrightarrow> unat (bs ! i) = unat (ee_start e) + i"
    and "ext_ok e"
  shows "map (\<lambda>bi. ee_start e + of_nat bi) [0..<unat (simplefs_ext_len e)] = take (unat (simplefs_ext_len e)) bs"
proof (rule nth_equalityI)
  fix i
  assume "i < length (map (\<lambda>bi. ee_start e + of_nat bi) [0..<unat (simplefs_ext_len e)])"
  then have i: "i < unat (simplefs_ext_len e)" by simp
  have "unat (ee_start e + of_nat i) = unat (ee_start e) + i"
    using i assms(3) by (subst unat_add_no_wrap) (auto simp: ext_ok_def unat_of_nat_u32)
  then have "ee_start e + of_nat i = bs ! i" using assms(2) [OF i] by (intro unat_eq) simp
  then show "map (\<lambda>bi. ee_start e + of_nat bi) [0..<unat (simplefs_ext_len e)] ! i = take (unat (simplefs_ext_len e)) bs ! i"
    using i by simp
qed (use assms(1) in simp)

text \<open>An index under construction that has no entries yet.\<close>

definition bare :: "simplefs_dir_index \<Rightarrow> bool" where
  "bare ix \<longleftrightarrow> dx_names ix = (\<lambda>_. None) \<and> dx_entries ix = (\<lambda>_. None) \<and> dx_used ix = (\<lambda>_. False) \<and> dx_next_free ix = 0 \<and>
     length (dx_blocks ix) \<le> unat (dx_capacity ix) \<and> dx_capacity ix \<le> SIMPLEFS_MAX_DIR_BLOCKS"

lemma bare_index_ok: "bare ix \<Longrightarrow> index_ok nr ix"
  by (simp add: bare_def index_ok_def)

lemma build_blocks_wp:
  assumes "normal xs" "maps_from (length (dx_blocks ix)) xs bs" "bare ix" "\<forall>b\<in>set bs. b < nr"
    and "length (dx_blocks ix) + length bs \<le> 1048575"
  shows "wp (build_blocks E nr xs ix) (\<lambda>(r, ix') s'. tframe s s' \<and> (r \<noteq> None \<longrightarrow> \<not> quiet E) \<and>
     (r = None \<longrightarrow> bare ix' \<and> (\<exists>c. ix' = ix\<lparr>dx_blocks := dx_blocks ix @ bs, dx_capacity := c\<rparr>))) s"
  using assms
proof (induction xs arbitrary: ix bs s)
  case Nil
  then have "bs = []" using maps_from_Nil by blast
  then show ?case using Nil(3) by (auto simp: wp_return tframe_refl intro!: exI [of _ "dx_capacity ix"])
next
  case (Cons e es)
  let ?n = "length (dx_blocks ix)" and ?L = "unat (simplefs_ext_len e)"
  note c = maps_from_Cons [OF Cons.prems(2,1)]
  have eok: "ext_ok e" "0 < ?L" "normal es" using Cons.prems(1) by (auto simp: normal_Cons simplefs_extent_is_empty_def unat_gt_0)
  note bl = extent_block_list [OF c(3,4) eok(1)]
  have n32: "unat (of_nat ?n :: u32) = ?n" using Cons.prems(5) by (simp add: unat_of_nat_u32)
  have blk: "ee_block e = of_nat ?n" using c(1) n32 by (intro unat_eq) simp
  have last: "unat (ee_start e) + ?L \<le> unat nr" "unat (ee_start e) < unat nr"
  proof -
    have "bs ! (?L - 1) \<in> set bs" using c(3) eok(2) by simp
    then show "unat (ee_start e) + ?L \<le> unat nr" using Cons.prems(4) c(4) [of "?L - 1"] eok(2) by (auto simp: word_less_nat_alt)
    then show "unat (ee_start e) < unat nr" using eok(2) by simp
  qed
  have nr: "ee_start e < nr" "simplefs_ext_len e \<le> nr - ee_start e"
    using last by (simp_all add: word_less_nat_alt word_le_nat_alt unat_sub_le)
  have guard: "\<not> (simplefs_ext_len e = 0 \<or> simplefs_ext_unwritten e \<or> ee_block e \<noteq> of_nat ?n \<or>
      ee_start e \<ge> nr \<or> simplefs_ext_len e > nr - ee_start e)"
    using blk c(2) eok(2) nr by (auto simp: not_le not_less)
  have sum: "unat (of_nat ?n + simplefs_ext_len e) = ?n + ?L"
    using Cons.prems(5) c(3) n32 by (subst unat_add_no_wrap) simp_all
  have small: "of_nat ?n + simplefs_ext_len e \<le> SIMPLEFS_MAX_DIR_BLOCKS"
    using sum Cons.prems(5) c(3) by (simp add: word_le_nat_alt SIMPLEFS_MAX_DIR_BLOCKS_def)
  show ?case
    unfolding build_blocks.simps Let_def if_not_P [OF guard] wp_bind
  proof (rule reserve_wp [OF bare_index_ok [OF Cons.prems(3)]], goal_cases)
    case (1 er t)
    then show ?case using small by (auto simp: wp_simps)
  next
    case (2 cap t)
    let ?ix = "ix\<lparr>dx_capacity := cap, dx_blocks := dx_blocks ix @ take ?L bs\<rparr>"
    have len: "length (dx_blocks ?ix) = ?n + ?L" using c(3) by simp
    have b: "bare ?ix" using Cons.prems(3) 2(2,4) sum c(3) by (simp add: bare_def word_le_nat_alt)
    have "wp (build_blocks E nr es ?ix) (\<lambda>(r, ix') s'. tframe t s' \<and> (r \<noteq> None \<longrightarrow> \<not> quiet E) \<and>
       (r = None \<longrightarrow> bare ix' \<and> (\<exists>c. ix' = ?ix\<lparr>dx_blocks := dx_blocks ?ix @ drop ?L bs, dx_capacity := c\<rparr>))) t"
      by (rule Cons.IH) (use eok(3) c(3,5) b len Cons.prems(4,5) in \<open>auto dest: in_set_dropD\<close>)
    then show ?case
      using bl 2(1) by (simp add: wp_simps) (erule wp_mono, auto intro: tframe_trans)
  qed
qed

section \<open>The entries\<close>

text \<open>The index \<open>base\<close> with the entries that \<open>ix\<close> has at the first \<open>k\<close> slots.\<close>

definition part_index :: "simplefs_dir_index \<Rightarrow> simplefs_dir_index \<Rightarrow> nat \<Rightarrow> simplefs_dir_index" where
  "part_index ix base k = base\<lparr>dx_entries := (\<lambda>i. if i < k then dx_entries ix i else None),
     dx_names := (\<lambda>n. case dx_names ix n of None \<Rightarrow> None | Some e \<Rightarrow> if unat (dn_slot e) < k then Some e else None),
     dx_used := (\<lambda>i. i < k \<and> dx_entries ix i \<noteq> None),
     dx_nr_files := of_nat (length (filter (\<lambda>i. dx_entries ix i \<noteq> None) [0..<k]))\<rparr>"

lemma index_name:
  assumes "index_ok nr ix" "dx_names ix n = Some e"
  shows "dn_name e = n" "dx_entries ix (unat (dn_slot e)) = Some e"
  using assms unfolding index_ok_def by blast+

lemma part_index_skip:
  assumes "index_ok nr ix" "dx_entries ix k = None"
  shows "part_index ix base (Suc k) = part_index ix base k"
proof -
  have "(case dx_names ix n of None \<Rightarrow> None | Some e \<Rightarrow> if unat (dn_slot e) < Suc k then Some e else None) =
      (case dx_names ix n of None \<Rightarrow> None | Some e \<Rightarrow> if unat (dn_slot e) < k then Some e else None)" for n
  proof (cases "dx_names ix n")
    case (Some e)
    then have "unat (dn_slot e) \<noteq> k" using index_name(2) [OF assms(1) Some] assms(2) by auto
    then show ?thesis by (simp add: Some less_Suc_eq)
  qed simp
  moreover have "(\<lambda>i. if i < Suc k then dx_entries ix i else None) = (\<lambda>i. if i < k then dx_entries ix i else None)"
    "(\<lambda>i. i < Suc k \<and> dx_entries ix i \<noteq> None) = (\<lambda>i. i < k \<and> dx_entries ix i \<noteq> None)"
    using assms(2) by (auto simp: less_Suc_eq)
  ultimately show ?thesis unfolding part_index_def using assms(2) by simp
qed

lemma part_index_step:
  assumes "index_ok nr ix" "dx_entries ix k = Some e"
  shows "part_index ix base (Suc k) = (let p = part_index ix base k in
      p\<lparr>dx_names := (dx_names p)(dn_name e \<mapsto> e), dx_entries := (dx_entries p)(k \<mapsto> e), dx_used := (dx_used p)(k := True),
        dx_nr_files := dx_nr_files p + 1\<rparr>)"
    "dx_names (part_index ix base k) (dn_name e) = None"
proof -
  note e = index_entry [OF assms]
  have s: "unat (dn_slot e) = k" using e(1) by (simp add: entry_ok_def)
  show "dx_names (part_index ix base k) (dn_name e) = None" using e(2) s by (simp add: part_index_def)
  have nm': "(case dx_names ix n of None \<Rightarrow> None | Some f \<Rightarrow> if unat (dn_slot f) < Suc k then Some f else None) =
      ((\<lambda>n. case dx_names ix n of None \<Rightarrow> None | Some f \<Rightarrow> if unat (dn_slot f) < k then Some f else None)(dn_name e \<mapsto> e)) n" for n
  proof (cases "n = dn_name e")
    case True
    then show ?thesis using e(2) s by simp
  next
    case ne: False
    show ?thesis
    proof (cases "dx_names ix n")
      case (Some f)
      have "unat (dn_slot f) \<noteq> k" using index_name [OF assms(1) Some] assms(2) ne by auto
      then show ?thesis using ne by (simp add: Some less_Suc_eq)
    qed (use ne in simp)
  qed
  have nm: "(\<lambda>n. case dx_names ix n of None \<Rightarrow> None | Some f \<Rightarrow> if unat (dn_slot f) < Suc k then Some f else None) =
      (\<lambda>n. case dx_names ix n of None \<Rightarrow> None | Some f \<Rightarrow> if unat (dn_slot f) < k then Some f else None)(dn_name e \<mapsto> e)"
    using nm' by (rule ext)
  have en: "(\<lambda>i. if i < Suc k then dx_entries ix i else None) = (\<lambda>i. if i < k then dx_entries ix i else None)(k \<mapsto> e)"
    "(\<lambda>i. i < Suc k \<and> dx_entries ix i \<noteq> None) = (\<lambda>i. i < k \<and> dx_entries ix i \<noteq> None)(k := True)"
    using assms(2) by (auto simp: less_Suc_eq fun_eq_iff)
  show "part_index ix base (Suc k) = (let p = part_index ix base k in
      p\<lparr>dx_names := (dx_names p)(dn_name e \<mapsto> e), dx_entries := (dx_entries p)(k \<mapsto> e), dx_used := (dx_used p)(k := True),
        dx_nr_files := dx_nr_files p + 1\<rparr>)"
    unfolding part_index_def nm en Let_def using assms(2) by (simp add: add.commute)
qed

text \<open>An environment in which a directory can be read.\<close>

definition quiet_dir :: "env \<Rightarrow> bool" where
  "quiet_dir E \<longleftrightarrow> quiet E \<and> (\<forall>t. kret E t (Other ''rhashtable_insert'' []) = None) \<and>
     (\<forall>t. kret E t (Other ''rhashtable_init'' []) = None)"

lemma build_records_wp:
  assumes ok: "index_ok nr ix" and k: "k + length rs \<le> dir_slots ix"
    and r: "\<And>j. j < length rs \<Longrightarrow> record_ok b (rs ! j) (dx_entries ix (k + j))"
  shows "wp (build_records E nr b rs k (part_index ix base k)) (\<lambda>(r, ix') s'. tframe s s' \<and> (r \<noteq> None \<longrightarrow> \<not> quiet_dir E) \<and>
     (r = None \<longrightarrow> ix' = part_index ix base (k + length rs))) s"
  using k r
proof (induction rs arbitrary: k s)
  case Nil
  then show ?case by (simp add: wp_return tframe_refl)
next
  case (Cons i rs)
  have r0: "record_ok b i (dx_entries ix k)" using Cons.prems(2) [of 0] by simp
  have IH: "wp (build_records E nr b rs (Suc k) (part_index ix base (Suc k))) (\<lambda>(r, ix') s'. tframe t s' \<and>
     (r \<noteq> None \<longrightarrow> \<not> quiet_dir E) \<and> (r = None \<longrightarrow> ix' = part_index ix base (Suc k + length rs))) t" for t
    by (rule Cons.IH) (use Cons.prems(1) Cons.prems(2) [of "Suc j" for j] in simp_all)
  show ?case
  proof (cases "dx_entries ix k")
    case None
    then show ?thesis using IH [of s] r0 part_index_skip [OF ok None] by (simp add: record_ok_def)
  next
    case (Some e)
    note e = index_entry(1) [OF ok Some, unfolded entry_ok_def] and st = part_index_step [OF ok Some, of base]
    have f: "file_inode b i = dn_ino e" "file_name b i = dn_name e" using r0 Some by (simp_all add: record_ok_def)
    have g: "file_inode b i \<noteq> 0" "\<not> (file_inode b i \<ge> nr \<or> b (260 * i + 4) = 0)"
      using e f file_name_first [of b i] by (auto simp: name_ok_def)
    have entry: "\<lparr>dn_name = dn_name e, dn_ino = dn_ino e, dn_slot = of_nat k\<rparr> = e"
    proof -
      have "k < 4294967296" using e dir_slots_small [OF ok] by simp
      then have "dn_slot e = of_nat k" using e by (intro unat_eq) (simp add: unat_of_nat_u32)
      then show ?thesis by (cases e) simp
    qed
    have t: "tframe s (s\<lparr>trace := x # trace s\<rparr>)" "tframe s (s\<lparr>trace := x # y # trace s\<rparr>)" for x y
      by (simp_all add: tframe_def suffix_ConsI)
    have q: "\<not> quiet_dir E" if "kret E tr Kmalloc = Some y \<or> kret E tr (Other ''rhashtable_insert'' []) = Some y" for tr y
      using that by (auto simp: quiet_dir_def quiet_def)
    define p where "p = part_index ix base k"
    let ?c = "Other ''rhashtable_insert'' []" and ?t = "(Kmalloc, None) # trace s"
    note pn = st(2) [folded p_def] and ps = st(1) [folded p_def, unfolded Let_def, symmetric]
    have IH': "wp (build_records E nr b rs (Suc k) (part_index ix base (Suc k))) (\<lambda>(r, ix') s'. tframe s s' \<and>
      (r \<noteq> None \<longrightarrow> \<not> quiet_dir E) \<and> (r = None \<longrightarrow> ix' = part_index ix base (k + length (i # rs)))) (s\<lparr>trace := x # y # trace s\<rparr>)" for x y
      by (rule wp_mono [OF IH]) (auto intro: tframe_trans [OF t(2)])
    show ?thesis
      unfolding build_records.simps if_not_P [OF g(1) [unfolded f]] if_not_P [OF g(2) [unfolded f]] Let_def f entry p_def [symmetric] wp_bind wp_ext
    proof (cases "kret E (trace s) Kmalloc", goal_cases)
      case (1)
      show ?case
      proof (cases "kret E ?t ?c")
        case n2: None
        show ?thesis using IH' [of "(?c, None)" "(Kmalloc, None)"]
          by (simp add: 1 n2 names_insert_def pn wp_bind wp_ext wp_return ps)
      next
        case (Some y)
        show ?thesis using t(2) q [of ?t y] by (simp add: 1 Some names_insert_def pn wp_bind wp_ext wp_return)
      qed
    qed (use t(1) q [of "trace s"] in \<open>auto simp add: wp_return\<close>)
  qed
qed

lemma build_entries_wp:
  assumes ok: "index_ok nr ix" and d: "disk_ok (cache s) ix" and j: "j \<le> length (dx_blocks ix)"
  shows "wp (build_entries E nr (drop j (dx_blocks ix)) (15 * j) (part_index ix base (15 * j))) (\<lambda>(r, ix') s'. tframe s s' \<and>
     (r \<noteq> None \<longrightarrow> \<not> quiet_dir E) \<and> (r = None \<longrightarrow> ix' = part_index ix base (dir_slots ix))) s"
  using d j
proof (induction "length (dx_blocks ix) - j" arbitrary: j s)
  case 0
  then show ?case by (simp add: wp_return tframe_refl dir_slots_def SIMPLEFS_FILES_PER_BLOCK_def mult.commute)
next
  case (Suc m)
  let ?b = "dx_blocks ix ! j"
  have j: "j < length (dx_blocks ix)" using Suc(2) by linarith
  have IH: "wp (build_entries E nr (drop (Suc j) (dx_blocks ix)) (15 * j + 15) (part_index ix base (15 * j + 15))) (\<lambda>(r, ix') s'.
      tframe t s' \<and> (r \<noteq> None \<longrightarrow> \<not> quiet_dir E) \<and> (r = None \<longrightarrow> ix' = part_index ix base (dir_slots ix))) t"
    if "disk_ok (cache t) ix" for t
  proof -
    have "m = length (dx_blocks ix) - Suc j" using Suc(2) by linarith
    then show ?thesis using Suc.hyps(1) [of "Suc j" t] j that by (simp add: add.commute)
  qed
  have rec: "wp (build_records E nr (cache s ?b) [0..<15] (15 * j) (part_index ix base (15 * j))) (\<lambda>(r, ix') s'. tframe t s' \<and>
      (r \<noteq> None \<longrightarrow> \<not> quiet_dir E) \<and> (r = None \<longrightarrow> ix' = part_index ix base (15 * j + length [0..<15]))) t" for t
  proof (rule build_records_wp [OF ok])
    show "15 * j + length [0..<15] \<le> dir_slots ix" using j by (simp add: dir_slots_def SIMPLEFS_FILES_PER_BLOCK_def)
    show "record_ok (cache s ?b) ([0..<15] ! i) (dx_entries ix (15 * j + i))" if "i < length [0..<15]" for i
    proof -
      have i: "i < 15" using that by simp
      then have "15 * j + i < dir_slots ix" using j by (simp add: dir_slots_def SIMPLEFS_FILES_PER_BLOCK_def)
      then have "record_ok (cache s (dx_blocks ix ! ((15 * j + i) div 15))) ((15 * j + i) mod 15) (dx_entries ix (15 * j + i))"
        using Suc.prems(1) unfolding disk_ok_def by blast
      moreover have "(15 * j + i) div 15 = j" "(15 * j + i) mod 15 = i" using i by simp_all
      moreover have "[0..<15] ! i = i" using i by (subst nth_upt) simp_all
      ultimately show ?thesis by simp
    qed
  qed
  define m where "m = [0..<15]"
  have m: "length m = 15" by (simp add: m_def)
  have qd: "\<not> quiet E \<Longrightarrow> \<not> quiet_dir E" by (simp add: quiet_dir_def)
  have read: "wp (simplefs_read_metadata E ?b) (\<lambda>d t. tframe s t \<and> (case d of Inl e \<Rightarrow> \<not> quiet E | Inr b \<Rightarrow> b = cache s ?b)) s"
    by (rule wp_keeps [OF read_metadata_tframe], rule read_metadata_wp) simp_all
  have f15: "SIMPLEFS_FILES_PER_BLOCK = 15" by (simp add: SIMPLEFS_FILES_PER_BLOCK_def SIMPLEFS_BLOCK_SIZE_def)
  have dj: "drop j (dx_blocks ix) = ?b # drop (Suc j) (dx_blocks ix)" using j by (simp add: Cons_nth_drop_Suc)
  show ?case
    unfolding dj build_entries.simps wp_bind f15 m_def [symmetric]
  proof (rule wp_mono [OF read], goal_cases)
    case (1 d t)
    show ?case
    proof (cases d)
      case (Inl e)
      then show ?thesis using 1 qd by (simp add: wp_return)
    next
      case (Inr b)
      have t: "tframe s t" "b = cache s ?b" using 1 Inr by simp_all
      show ?thesis
        unfolding Inr sum.case t(2) wp_bind
      proof (rule wp_mono [OF rec [folded m_def]], goal_cases)
        case (1 p u)
        obtain r ix' where p: "p = (r, ix')" by (cases p)
        have u: "tframe s u" using 1 tframe_trans [OF t(1)] by (auto simp: p)
        have du: "disk_ok (cache u) ix" using Suc.prems(1) tframe_simps(1) [OF u] by simp
        show ?case
        proof (cases r)
          case None
          have ix': "ix' = part_index ix base (15 * j + 15)" using 1 by (simp add: p None m)
          show ?thesis unfolding p None prod.case ix'
            using IH [OF du] by simp (erule wp_mono, auto intro: tframe_trans [OF u])
        next
          case (Some e)
          then show ?thesis using 1 u by (simp add: p wp_return)
        qed
      qed
    qed
  qed
qed

section \<open>The index\<close>

text \<open>The index that a scan of the images of \<open>ix\<close> gives.\<close>

definition rebuilt :: "simplefs_dir_index \<Rightarrow> simplefs_dir_index \<Rightarrow> bool" where
  "rebuilt ix ix' \<longleftrightarrow> dx_valid ix' \<and> dx_names ix' = dx_names ix \<and> dx_entries ix' = dx_entries ix \<and> dx_used ix' = dx_used ix \<and>
     dx_blocks ix' = dx_blocks ix \<and> extents (dx_mapping ix') = extents (dx_mapping ix) \<and>
     leaf_blocks (dx_mapping ix') = leaf_blocks (dx_mapping ix) \<and> dx_next_free ix' = 0 \<and>
     length (dx_blocks ix) \<le> unat (dx_capacity ix') \<and> dx_capacity ix' \<le> SIMPLEFS_MAX_DIR_BLOCKS \<and>
     dx_nr_files ix' = of_nat (card {i. dx_entries ix i \<noteq> None})"

lemma part_index_full:
  assumes ok: "index_ok nr ix"
  shows "dx_entries (part_index ix base (dir_slots ix)) = dx_entries ix" "dx_names (part_index ix base (dir_slots ix)) = dx_names ix"
    "dx_used (part_index ix base (dir_slots ix)) = dx_used ix"
    "dx_nr_files (part_index ix base (dir_slots ix)) = of_nat (card {i. dx_entries ix i \<noteq> None})"
proof -
  have slot: "i < dir_slots ix" if "dx_entries ix i = Some e" for i e
    using index_entry(1) [OF ok that] by (simp add: entry_ok_def)
  show "dx_entries (part_index ix base (dir_slots ix)) = dx_entries ix"
  proof
    fix i
    show "dx_entries (part_index ix base (dir_slots ix)) i = dx_entries ix i"
      using slot [of i] by (cases "dx_entries ix i") (simp_all add: part_index_def)
  qed
  show "dx_names (part_index ix base (dir_slots ix)) = dx_names ix"
  proof
    fix n
    show "dx_names (part_index ix base (dir_slots ix)) n = dx_names ix n"
    proof (cases "dx_names ix n")
      case (Some e)
      then show ?thesis using slot [OF index_name(2) [OF ok Some]] by (simp add: part_index_def)
    qed (simp add: part_index_def)
  qed
  have "dx_used ix i \<longleftrightarrow> i < dir_slots ix \<and> dx_entries ix i \<noteq> None" for i
    using ok slot [of i] unfolding index_ok_def by (metis not_None_eq)
  then show "dx_used (part_index ix base (dir_slots ix)) = dx_used ix" by (simp add: part_index_def fun_eq_iff)
  have "{i. dx_entries ix i \<noteq> None} = set (filter (\<lambda>i. dx_entries ix i \<noteq> None) [0..<dir_slots ix])"
    using slot by auto
  then have "card {i. dx_entries ix i \<noteq> None} = length (filter (\<lambda>i. dx_entries ix i \<noteq> None) [0..<dir_slots ix])"
    using distinct_card [of "filter (\<lambda>i. dx_entries ix i \<noteq> None) [0..<dir_slots ix]"] by simp
  then show "dx_nr_files (part_index ix base (dir_slots ix)) = of_nat (card {i. dx_entries ix i \<noteq> None})"
    by (simp add: part_index_def)
qed

lemma part_index_0: "bare base \<Longrightarrow> dx_nr_files base = 0 \<Longrightarrow> part_index ix base 0 = base"
  by (cases base) (auto simp: part_index_def bare_def split: option.split)

lemma rebuilt_index_ok: "index_ok nr ix \<Longrightarrow> rebuilt ix ix' \<Longrightarrow> index_ok nr ix'"
  unfolding index_ok_def rebuilt_def entry_ok_def dir_slots_def by simp

lemma rebuilt_dir_ok:
  assumes ok: "dir_ok s dir ix" and r: "rebuilt ix ix'"
    and t: "cache t = cache s" "sbi t = sbi s" "s_journal t = s_journal s" "s_fs_info t = s_fs_info s"
      "inodes t = (inodes s)(dir := (inodes s dir)\<lparr>dir_index := Some ix'\<rparr>)"
  shows "dir_ok t dir ix'"
proof -
  have d: "disk_ok (cache t) ix'" using ok r t(1) by (simp add: dir_ok_def disk_ok_def rebuilt_def dir_slots_def)
  have f: "file_ok t dir (extents (dx_mapping ix')) (leaf_blocks (dx_mapping ix'))"
    using ok r t by (simp add: dir_ok_def file_ok_def rebuilt_def handle_ok_def)
  show ?thesis
    using ok r t d f rebuilt_index_ok [OF _ r] by (simp add: dir_ok_def) (simp add: rebuilt_def)
qed

lemma dir_build_wp:
  assumes ok: "dir_ok s dir ix" and t: "cache t = cache s" "sbi t = sbi s" "ei_block (inodes t dir) = ei_block (inodes s dir)"
  shows "wp (simplefs_dir_build E dir empty_index) (\<lambda>(r, ix') t'. tframe t t' \<and> (r \<noteq> None \<longrightarrow> \<not> quiet_dir E) \<and>
     (r = None \<longrightarrow> rebuilt ix ix')) t"
proof -
  have tree: "tree_ok (cache t) (ei_block (inodes t dir)) (extents (dx_mapping ix)) (leaf_blocks (dx_mapping ix))"
    and nx: "normal (extents (dx_mapping ix))" and ix: "index_ok (nr_inodes (sbi s)) ix" "disk_ok (cache s) ix"
    and bl: "\<forall>b\<in>set (dx_blocks ix). b < nr_blocks (sbi s)" and m: "maps_blocks (extents (dx_mapping ix)) (dx_blocks ix)"
    using ok t unfolding dir_ok_def file_ok_def by simp_all
  have small: "length (dx_blocks ix) \<le> 1048575"
    using ix(1) by (auto simp: index_ok_def SIMPLEFS_MAX_DIR_BLOCKS_def word_le_nat_alt)
  have qd: "\<not> quiet E \<Longrightarrow> \<not> quiet_dir E" and nn: "\<not> (None :: status) \<noteq> None" by (simp_all add: quiet_dir_def)
  define Q where "Q = (\<lambda>(r :: status, ix') t'. tframe t t' \<and> (r \<noteq> None \<longrightarrow> \<not> quiet_dir E) \<and> (r = None \<longrightarrow> rebuilt ix ix'))"
  define F where "F = (\<lambda>(r :: status, ix'). if r \<noteq> None then ret (r, ix') else do {
         (r, ix') \<leftarrow> build_entries E (nr_inodes (sbi s)) (dx_blocks ix') 0 ix';
         ret (if r \<noteq> None then (r, ix') else (None, ix'\<lparr>dx_valid := True\<rparr>)) })"
  have F: "wp (F p) Q v" if v: "tframe t v" and buf: "extents buf = extents (dx_mapping ix)" "leaf_blocks buf = leaf_blocks (dx_mapping ix)"
      and p: "fst p \<noteq> None \<longrightarrow> \<not> quiet E" "fst p = None \<longrightarrow> bare (snd p) \<and>
        (\<exists>c. snd p = empty_index\<lparr>dx_mapping := buf, dx_blocks := dx_blocks ix, dx_capacity := c\<rparr>)" for p v buf
  proof (cases "fst p")
    case None
    then obtain c where c: "snd p = empty_index\<lparr>dx_mapping := buf, dx_blocks := dx_blocks ix, dx_capacity := c\<rparr>" and b: "bare (snd p)"
      using p(2) by blast
    have p0: "part_index ix (snd p) 0 = snd p" by (rule part_index_0 [OF b]) (simp add: c empty_index_def)
    have pe: "p = (None, snd p)" using None by (cases p) simp
    have bl: "dx_blocks (snd p) = dx_blocks ix" by (simp add: c)
    have dv: "disk_ok (cache v) ix" using ix(2) tframe_simps(1) [OF v] t(1) by simp
    note E = build_entries_wp [OF ix(1) dv, of 0 E "snd p", simplified mult_0_right drop_0 p0]
    show ?thesis
    proof (subst pe, unfold F_def prod.case if_not_P [OF nn] wp_bind bl, rule wp_mono [OF E], simp, goal_cases)
      case (1 q w)
      obtain r ix' where q: "q = (r, ix')" by (cases q)
      have w: "tframe t w" using 1 tframe_trans [OF v] by (auto simp: q)
      have "rebuilt ix (ix'\<lparr>dx_valid := True\<rparr>)" if "r = None"
        using 1 that part_index_full [OF ix(1), of "snd p"] b buf
        by (simp add: q rebuilt_def bare_def) (simp add: part_index_def c)
      then show ?case using 1 w by (simp add: q Q_def wp_return)
    qed
  next
    case (Some e)
    then show ?thesis using p(1) v qd by (cases p) (simp add: F_def Q_def wp_return)
  qed
  show ?thesis
    unfolding simplefs_dir_build_def wp_bind wp_gets Let_def t(2) Q_def [symmetric]
  proof (rule wp_mono [OF wp_keeps [OF load_extents_tframe load_extents_spec [OF tree]]], goal_cases)
    case (1 p u)
    obtain r buf where p: "p = (r, buf)" by (cases p)
    have u: "tframe t u" "loaded E (cache t) empty_buffer (extents (dx_mapping ix)) (leaf_blocks (dx_mapping ix)) (r, buf) u"
      using 1 by (simp_all add: p)
    show ?case
    proof (cases r)
      case None
      have buf: "extents buf = extents (dx_mapping ix)" "leaf_blocks buf = leaf_blocks (dx_mapping ix)"
        using u(2) None by (simp_all add: loaded_def empty_buffer_def)
      let ?ix = "empty_index\<lparr>dx_mapping := buf\<rparr>"
      have "wp (build_blocks E (nr_blocks (sbi s)) (extents buf) ?ix) (\<lambda>(r, ix') s'. tframe u s' \<and> (r \<noteq> None \<longrightarrow> \<not> quiet E) \<and>
         (r = None \<longrightarrow> bare ix' \<and> (\<exists>c. ix' = ?ix\<lparr>dx_blocks := dx_blocks ?ix @ dx_blocks ix, dx_capacity := c\<rparr>))) u"
        by (rule build_blocks_wp)
          (use nx buf m bl small in \<open>simp_all add: empty_index_def bare_def maps_from_def maps_blocks_def SIMPLEFS_MAX_DIR_BLOCKS_def\<close>)
      then have "wp (build_blocks E (nr_blocks (sbi s)) (extents buf) ?ix) (\<lambda>p. wp (F p) Q) u"
        by (rule wp_mono) (rule F [OF tframe_trans [OF u(1)] buf], auto simp: empty_index_def)
      then show ?thesis by (simp add: p None F_def wp_bind)
    next
      case (Some e)
      then show ?thesis using u qd by (auto simp: p wp_return Q_def loaded_def)
    qed
  qed
qed

end
