(* ===== verification/SFS_Acl.thy ===== *)
theory SFS_Acl
  imports SFS_Xattr
begin

text \<open>
  POSIX access control lists, \<open>simplefs_acl.c\<close>, stored as extended attributes. The representation of an
  ACL and its conversions are kernel code: they are the members of an \<open>acl_ops\<close> parameter, and an ACL
  is a value of a type of its own. The in-memory ACL cache of the VFS is a recorded call.
\<close>

datatype acl_type = ACL_TYPE_ACCESS | ACL_TYPE_DEFAULT

text \<open>
  \<open>posix_acl_to_xattr\<close> fails only for want of memory; \<open>posix_acl_from_xattr\<close> gives an error, no ACL or
  an ACL; \<open>posix_acl_update_mode\<close> the new mode and the ACL to store, if any is left; \<open>posix_acl_create\<close>
  the mode, the default ACL and the access ACL of a new inode.
\<close>

record 'a acl_ops =
  posix_acl_xattr_name :: "acl_type \<Rightarrow> u8 list"
  posix_acl_to_xattr :: "'a \<Rightarrow> u8 list option"
  posix_acl_from_xattr :: "u8 list \<Rightarrow> errno + 'a option"
  posix_acl_update_mode :: "u16 \<Rightarrow> 'a \<Rightarrow> errno + (u16 \<times> 'a option)"
  posix_acl_create :: "u32 \<Rightarrow> u16 \<Rightarrow> errno + (u16 \<times> 'a option \<times> 'a option)"

definition simplefs_get_acl :: "env \<Rightarrow> 'a acl_ops \<Rightarrow> u32 \<Rightarrow> acl_type \<Rightarrow> bool \<Rightarrow> (kst, errno + 'a option) state" where
  "simplefs_get_acl E A ino type rcu =
     (if rcu then ret (Inl ECHILD)
      else do {
        let name = posix_acl_xattr_name A type;
        retval \<leftarrow> simplefs_xattr_get E ino name None;
        (case retval of
           Inl e \<Rightarrow> ret (if e = ENODATA then Inr None else Inl e)
         | Inr (n, _) \<Rightarrow>
             if n = 0 then ret (Inr None)
             else do {
               nomem \<leftarrow> ext E Kmalloc;
               if nomem \<noteq> None then ret (Inl ENOMEM)
               else do {
                 retval \<leftarrow> simplefs_xattr_get E ino name (Some n);
                 ret (case retval of
                    Inl e \<Rightarrow> if e = ENODATA then Inr None else Inl e
                  | Inr (n, out) \<Rightarrow> if n = 0 then Inr None else posix_acl_from_xattr A (case out of None \<Rightarrow> [] | Some v \<Rightarrow> v))
               }
             })
      })"

definition xattr_remove :: xattr_flags where
  "xattr_remove = \<lparr>XATTR_CREATE = False, XATTR_REPLACE = True\<rparr>"

definition xattr_any :: xattr_flags where
  "xattr_any = \<lparr>XATTR_CREATE = False, XATTR_REPLACE = False\<rparr>"

definition set_acl_xattr :: "env \<Rightarrow> 'a acl_ops \<Rightarrow> u32 \<Rightarrow> 'a option \<Rightarrow> acl_type \<Rightarrow> (kst, status) state" where
  "set_acl_xattr E A ino acl type = do {
     let name = posix_acl_xattr_name A type;
     mode \<leftarrow> gets (\<lambda>s. i_mode (inodes s ino));
     if type = ACL_TYPE_DEFAULT \<and> \<not> S_ISDIR mode then ret (if acl \<noteq> None then Some EACCES else None)
     else do {
       let max_size = 4096 - 8 - SIMPLEFS_XATTR_ENTRY_SIZE (length name);
       error \<leftarrow> (case acl of
          Some a \<Rightarrow> (case posix_acl_to_xattr A a of
              None \<Rightarrow> ret (Some ENOMEM)
            | Some v \<Rightarrow> if length v > max_size then ret (Some EINVAL)
                else simplefs_xattr_set E ino name (Some v) xattr_any)
        | None \<Rightarrow> do {
            error \<leftarrow> simplefs_xattr_set E ino name None xattr_remove;
            ret (if error = Some ENODATA then None else error)
          });
       when_true (error = None) (note_call (Other ''set_cached_acl'' [uint ino]));
       ret error
     }
   }"

definition simplefs_set_acl :: "env \<Rightarrow> 'a acl_ops \<Rightarrow> u32 \<Rightarrow> 'a option \<Rightarrow> acl_type \<Rightarrow> (kst, status) state" where
  "simplefs_set_acl E A ino acl type = do {
     mode \<leftarrow> gets (\<lambda>s. i_mode (inodes s ino));
     let new = (case acl of
         Some a \<Rightarrow> if type = ACL_TYPE_ACCESS then map_sum id Some (posix_acl_update_mode A mode a) else Inr None
       | None \<Rightarrow> Inr None);
     (case new of
        Inl e \<Rightarrow> ret (Some e)
      | Inr upd \<Rightarrow> do {
          error \<leftarrow> set_acl_xattr E A ino (case upd of None \<Rightarrow> acl | Some (_, a) \<Rightarrow> a) type;
          (case upd of
             Some (mode, _) \<Rightarrow> when_true (error = None) (do {
               upd_inode ino (\<lambda>i. i\<lparr>i_mode := mode\<rparr>);
               _ \<leftarrow> inode_set_ctime_current E ino;
               note_call (Mark_inode_dirty ino)
             })
           | None \<Rightarrow> ret ());
          ret error
        })
   }"

definition simplefs_init_acl :: "env \<Rightarrow> 'a acl_ops \<Rightarrow> u32 \<Rightarrow> u32 \<Rightarrow> (kst, status) state" where
  "simplefs_init_acl E A ino dir = do {
     mode \<leftarrow> gets (\<lambda>s. i_mode (inodes s ino));
     (case posix_acl_create A dir mode of
        Inl e \<Rightarrow> ret (Some e)
      | Inr (mode, default_acl, acl) \<Rightarrow> do {
          upd_inode ino (\<lambda>i. i\<lparr>i_mode := mode\<rparr>);
          error \<leftarrow> (case default_acl of
             None \<Rightarrow> ret None
           | Some d \<Rightarrow> set_acl_xattr E A ino (Some d) ACL_TYPE_DEFAULT);
          (case acl of
             None \<Rightarrow> ret error
           | Some a \<Rightarrow> then_if_ok error (set_acl_xattr E A ino (Some a) ACL_TYPE_ACCESS))
        })
   }"

section \<open>An ACL that was set is read back\<close>

lemma get_acl_spec:
  fixes A :: "'a acl_ops"
  assumes ok: "xattr_ok s ino" and len: "length (posix_acl_xattr_name A type) \<le> 255"
  shows "wp (simplefs_get_acl E A ino type False) (\<lambda>r s'. same_disk s s' \<and> (case r of
      Inr x \<Rightarrow> (\<not> quiet E \<or> has_jbd2 (s_journal s)) \<and> x = None \<or>
        (case map_of (xattrs_of s ino) (posix_acl_xattr_name A type) of None \<Rightarrow> x = None
        | Some v \<Rightarrow> if v = [] then x = None else posix_acl_from_xattr A v = Inr x)
    | Inl e \<Rightarrow> \<not> quiet E \<or> has_jbd2 (s_journal s) \<or>
        (\<exists>v. map_of (xattrs_of s ino) (posix_acl_xattr_name A type) = Some v \<and> posix_acl_from_xattr A v = Inl e))) s"
proof -
  let ?n = "posix_acl_xattr_name A type"
  define Q where "Q = (\<lambda>(r :: errno + 'a option) s'. same_disk s s' \<and> (case r of
      Inr x \<Rightarrow> (\<not> quiet E \<or> has_jbd2 (s_journal s)) \<and> x = None \<or>
        (case map_of (xattrs_of s ino) ?n of None \<Rightarrow> x = None
        | Some v \<Rightarrow> if v = [] then x = None else posix_acl_from_xattr A v = Inr x)
    | Inl e \<Rightarrow> \<not> quiet E \<or> has_jbd2 (s_journal s) \<or>
        (\<exists>v. map_of (xattrs_of s ino) ?n = Some v \<and> posix_acl_from_xattr A v = Inl e)))"
  have bad: "Q (if e = ENODATA then Inr None else Inl e) s1" if "xattr_got E s ino ?n room (Inl e)" "same_disk s s1"
      "\<And>sz v. room = Some sz \<Longrightarrow> map_of (xattrs_of s ino) ?n = Some v \<Longrightarrow> length v \<le> sz" for e s1 room
    using that by (auto simp: Q_def xattr_got_def split: option.splits) (metis leD)+
  have second: "wp (simplefs_xattr_get E ino ?n (Some (length v))) (\<lambda>retval. wp (ret (case retval of
        Inl e \<Rightarrow> if e = ENODATA then Inr None else Inl e
      | Inr (n, out) \<Rightarrow> if n = 0 then Inr None else posix_acl_from_xattr A (case out of None \<Rightarrow> [] | Some v \<Rightarrow> v))) Q) s2"
    if v: "map_of (xattrs_of s ino) ?n = Some v" "v \<noteq> []" and s2: "same_disk s s2" "s_journal s2 = s_journal s" for v s2
  proof (rule wp_mono [OF xattr_get_spec])
    show "xattr_ok s2 ino" using ok xattr_same_disk(2) [OF s2(1)] by simp
    fix r s3
    assume r: "same_disk s2 s3 \<and> sframe s2 s3 \<and> xattr_got E s2 ino ?n (Some (length v)) r"
    have "xattr_got E s2 ino ?n (Some (length v)) r = xattr_got E s ino ?n (Some (length v)) r"
      by (simp only: xattr_got_def xattr_same_disk(1) [OF s2(1)] s2(2))
    then have g: "xattr_got E s ino ?n (Some (length v)) r" "same_disk s s3"
      using r s2(1) by (simp_all add: same_disk_def)
    show "wp (ret (case r of Inl e \<Rightarrow> if e = ENODATA then Inr None else Inl e
      | Inr (n, out) \<Rightarrow> if n = 0 then Inr None else posix_acl_from_xattr A (case out of None \<Rightarrow> [] | Some v \<Rightarrow> v))) Q s3"
    proof (cases r)
      case (Inl e)
      then show ?thesis using bad [of "Some (length v)" e s3] g v by (simp add: wp_return)
    next
      case (Inr p)
      then have "p = (length v, Some v)" using g(1) v by (auto simp: xattr_got_def split: prod.splits)
      then show ?thesis using Inr g(2) v by (cases "posix_acl_from_xattr A v") (auto simp: wp_return Q_def)
    qed
  qed (rule len)
  show ?thesis
    unfolding Q_def [symmetric] simplefs_get_acl_def Let_def if_False wp_bind
  proof (rule wp_mono [OF xattr_get_spec [OF ok len]], elim conjE)
    fix r s1
    assume s1: "same_disk s s1" "sframe s s1" and g: "xattr_got E s ino ?n None r"
    show "wp (case r of Inl e \<Rightarrow> ret (if e = ENODATA then Inr None else Inl e)
       | Inr (n, x) \<Rightarrow> if n = 0 then ret (Inr None) else State_Monad.bind (ext E Kmalloc) (\<lambda>nomem.
           if nomem \<noteq> None then ret (Inl ENOMEM) else State_Monad.bind (simplefs_xattr_get E ino ?n (Some n)) (\<lambda>retval.
             ret (case retval of Inl e \<Rightarrow> if e = ENODATA then Inr None else Inl e
             | Inr (n, out) \<Rightarrow> if n = 0 then Inr None else posix_acl_from_xattr A (case out of None \<Rightarrow> [] | Some v \<Rightarrow> v))))) Q s1"
    proof (cases r)
      case (Inl e)
      then show ?thesis using bad [of None e s1] g s1 by (simp add: wp_return)
    next
      case (Inr p)
      then obtain v where v: "map_of (xattrs_of s ino) ?n = Some v" "p = (length v, None)"
        using g by (auto simp: xattr_got_def split: prod.splits)
      have Q0: "Q (Inr None) s1" if "v = []" using v s1 that by (simp add: Q_def)
      have Q1: "Q (Inl ENOMEM) (s1\<lparr>trace := t\<rparr>)" if "kret E t' Kmalloc = Some y" for t t' y
        using that s1 by (simp add: Q_def same_disk_def quiet_def) (metis option.distinct(1))
      have "same_disk s (s1\<lparr>trace := t\<rparr>)" "s_journal (s1\<lparr>trace := t\<rparr>) = s_journal s" for t
        using s1 by (simp_all add: same_disk_def sframe_def)
      from second [OF v(1) _ this] show ?thesis
        using Q0 Q1 by (auto simp: Inr v wp_simps)
    qed
  qed
qed

lemma set_acl_spec:
  assumes "xattr_ok s ino" "handle_ok s" "posix_acl_to_xattr A a = Some v"
  shows "wp (set_acl_xattr E A ino (Some a) type) (\<lambda>r s'. r = None \<longrightarrow> xattr_ok s' ino \<and> s_journal s' = s_journal s \<and>
     map_of (xattrs_of s' ino) = (map_of (xattrs_of s ino))(posix_acl_xattr_name A type \<mapsto> v)) s" (is "wp _ ?Q s")
proof -
  have same: "same_disk s' (s'\<lparr>trace := t\<rparr>)" for s' t by (simp add: same_disk_def)
  have tr: "?Q r s' \<Longrightarrow> ?Q r (s'\<lparr>trace := t\<rparr>)" for r s' t
    using xattr_same_disk [OF same] by simp
  have Q: "?Q r s'" if "xattr_set_post s ino (posix_acl_xattr_name A type) (Some v) xattr_any r s'" for r s'
    using that assms(2) by (auto simp: xattr_set_post_def xattr_step_def uframe_def map_of_changed)
  have *: "wp (simplefs_xattr_set E ino (posix_acl_xattr_name A type) (Some v) xattr_any) ?Q s"
    by (rule wp_mono [OF xattr_set_spec [OF assms(1,2)]]) (rule Q)
  show ?thesis
    unfolding set_acl_xattr_def Let_def option.case assms(3)
    using tr by (auto simp: wp_simps split: option.splits intro!: wp_mono [OF *])
qed

text \<open>
  C36. An ACL that has been stored is read back. With no journal and no failing kernel call, if
  \<open>posix_acl_from_xattr\<close> undoes \<open>posix_acl_to_xattr\<close> on this ACL, then after a successful store
  \<open>simplefs_get_acl\<close> returns the ACL, and the ACL of the other type is what it was.
\<close>
theorem acl_roundtrip:
  assumes "xattr_ok s ino" "handle_ok s" "quiet E" "\<not> has_jbd2 (s_journal s)"
    and "\<And>t. length (posix_acl_xattr_name A t) \<le> 255"
    and "posix_acl_xattr_name A ACL_TYPE_ACCESS \<noteq> posix_acl_xattr_name A ACL_TYPE_DEFAULT"
    and "posix_acl_to_xattr A a = Some v" "v \<noteq> []" "posix_acl_from_xattr A v = Inr (Some a)"
    and "run_state (set_acl_xattr E A ino (Some a) type) s = (None, s1)"
    and "run_state (simplefs_get_acl E A ino type False) s1 = (r, s2)"
  shows "r = Inr (Some a) \<and> (\<forall>t. t \<noteq> type \<longrightarrow>
    map_of (xattrs_of s2 ino) (posix_acl_xattr_name A t) = map_of (xattrs_of s ino) (posix_acl_xattr_name A t))"
proof -
  have s1: "xattr_ok s1 ino" "s_journal s1 = s_journal s"
    "map_of (xattrs_of s1 ino) = (map_of (xattrs_of s ino))(posix_acl_xattr_name A type \<mapsto> v)"
    using wp_run [OF set_acl_spec [OF assms(1,2,7)] assms(10)] by simp_all
  note g = wp_run [OF get_acl_spec [OF s1(1) assms(5)] assms(11)]
  have "posix_acl_xattr_name A t \<noteq> posix_acl_xattr_name A type" if "t \<noteq> type" for t
    using assms(6) that by (cases t; cases type) auto
  moreover have "xattrs_of s2 ino = xattrs_of s1 ino" using g xattr_same_disk(1) by blast
  moreover have "r = Inr (Some a)" using g s1(2,3) assms(3,4,8,9) by (cases r) auto
  ultimately show ?thesis using s1(3) by auto
qed

text \<open>A concrete representation: an ACL is a mode, stored as two bytes.\<close>

definition demo_acl :: "u16 acl_ops" where
  "demo_acl = \<lparr>posix_acl_xattr_name = \<lambda>t. (case t of ACL_TYPE_ACCESS \<Rightarrow> [97] | ACL_TYPE_DEFAULT \<Rightarrow> [100]),
     posix_acl_to_xattr = \<lambda>m. Some [ucast m, ucast (drop_bit 8 m)],
     posix_acl_from_xattr = \<lambda>v. Inr (if v = [] then None else Some (ucast (v ! 0) OR push_bit 8 (ucast (v ! 1)))),
     posix_acl_update_mode = \<lambda>m a. Inr (m, Some a), posix_acl_create = \<lambda>_ m. Inr (m, None, None)\<rparr>"

theorem acl_roundtrip_witness:
  "\<exists>s1. run_state (set_acl_xattr env_ok demo_acl 1 (Some 5) ACL_TYPE_ACCESS) kst0 = (None, s1) \<and>
     fst (run_state (simplefs_get_acl env_ok demo_acl 1 ACL_TYPE_ACCESS False) s1) = Inr (Some 5)"
proof -
  have j: "s_journal kst0 = None" "\<not> s_shutdown kst0" "handle_ok kst0" "\<not> has_jbd2 (s_journal kst0)"
    by (simp_all add: demo_simps handle_ok_def has_jbd2_def)
  have fr: "free_run (sbi kst0) 5 1" by (simp add: free_run_def bm_all_def demo_simps)
  have xs: "xattrs_of kst0 1 = []" by (simp add: xattrs_of_def demo_simps)
  have "wp (simplefs_xattr_set env_ok 1 [97] (Some [5, 0]) xattr_any) (\<lambda>r s'. r = None) kst0"
    by (rule xattr_set_succeeds [OF j(1,2) demo_pre(5) xattr_ok_kst0])
      (use fr in \<open>auto simp: xattr_any_def xs changed_xattrs_def xattr_space_def SIMPLEFS_XATTR_ENTRY_SIZE_def\<close>)
  then have "wp (set_acl_xattr env_ok demo_acl 1 (Some 5) ACL_TYPE_ACCESS) (\<lambda>r s'. r = None) kst0"
    by (simp add: set_acl_xattr_def demo_acl_def Let_def SIMPLEFS_XATTR_ENTRY_SIZE_def wp_bind wp_gets wp_if)
      (erule wp_mono, simp add: wp_simps)
  then obtain s1 where r1: "run_state (set_acl_xattr env_ok demo_acl 1 (Some 5) ACL_TYPE_ACCESS) kst0 = (None, s1)"
    by (auto simp: wp_def split: prod.splits)
  obtain r s2 where r2: "run_state (simplefs_get_acl env_ok demo_acl 1 ACL_TYPE_ACCESS False) s1 = (r, s2)" by fastforce
  have "r = Inr (Some 5)"
    using acl_roundtrip [OF xattr_ok_kst0 j(3) demo_pre(5) j(4) _ _ _ _ _ r1 r2, of "[5, 0]"]
    by (simp add: demo_acl_def split: acl_type.split)
  then show ?thesis using r1 r2 by simp
qed

end
