(* ===== verification/SFS_Namespace.thy ===== *)
theory SFS_Namespace
  imports SFS_DirIndex SFS_Acl
begin

text \<open>
  The operations on names of \<open>simplefs_inode.c\<close> and the eviction of an inode of \<open>simplefs_super.c\<close>.

  A dentry has a name, an inode if it is positive and the inodes of its ancestors below the root. The
  VFS link-count helpers \<open>drop_nlink\<close>, \<open>clear_nlink\<close> and \<open>inc_nlink\<close> change \<open>i_nlink\<close>; the last
  \<open>iput\<close> of an inode and \<open>discard_new_inode\<close> call \<open>simplefs_evict_inode\<close>. \<open>d_instantiate\<close>,
  \<open>d_splice_alias\<close> and \<open>iput\<close> of an inode that stays in use are recorded calls.
\<close>

record dentry =
  d_name :: "u8 list"
  d_inode :: "u32 option"
  d_parents :: "u32 list"

section \<open>Helpers\<close>

definition S_ISFIFO :: "u16 \<Rightarrow> bool" where "S_ISFIFO m \<longleftrightarrow> m AND S_IFMT = 0x1000"
definition S_ISSOCK :: "u16 \<Rightarrow> bool" where "S_ISSOCK m \<longleftrightarrow> m AND S_IFMT = 0xC000"

definition is_dir :: "u32 \<Rightarrow> (kst, bool) state" where
  "is_dir ino = gets (\<lambda>s. S_ISDIR (i_mode (inodes s ino)))"

definition drop_nlink :: "u32 \<Rightarrow> (kst, unit) state" where
  "drop_nlink ino = upd_inode ino (\<lambda>i. i\<lparr>i_nlink := i_nlink i - 1\<rparr>)"

definition inc_nlink :: "u32 \<Rightarrow> (kst, unit) state" where
  "inc_nlink ino = upd_inode ino (\<lambda>i. i\<lparr>i_nlink := i_nlink i + 1\<rparr>)"

definition set_nlink :: "u32 \<Rightarrow> u32 \<Rightarrow> (kst, unit) state" where
  "set_nlink ino n = upd_inode ino (\<lambda>i. i\<lparr>i_nlink := n\<rparr>)"

text \<open>The guarded decrement \<open>if (inode->i_nlink > 0) drop_nlink(inode)\<close>.\<close>

definition drop_nlink_pos :: "u32 \<Rightarrow> (kst, unit) state" where
  "drop_nlink_pos ino = do {
     n \<leftarrow> gets (\<lambda>s. i_nlink (inodes s ino));
     when_true (n \<noteq> 0) (drop_nlink ino)
   }"

text \<open>\<open>inode_set_mtime_to_ts(inode, inode_set_ctime_current(inode))\<close>.\<close>

definition touch_mctime :: "env \<Rightarrow> u32 \<Rightarrow> (kst, unit) state" where
  "touch_mctime E ino = do {
     now \<leftarrow> inode_set_ctime_current E ino;
     upd_inode ino (\<lambda>i. i\<lparr>i_mtime := now\<rparr>)
   }"

definition simplefs_dir_is_empty :: "env \<Rightarrow> u32 \<Rightarrow> (kst, errno + bool) state" where
  "simplefs_dir_is_empty E ino = do {
     r \<leftarrow> simplefs_dir_get E ino;
     (case r of
        Some e \<Rightarrow> ret (Inl e)
      | None \<Rightarrow> do { ix \<leftarrow> the_index ino; ret (Inr (dx_nr_files ix = 0)) })
   }"

text \<open>\<open>simplefs_initxattrs\<close>; the array of attributes ends before the entry without a name.\<close>

fun simplefs_initxattrs :: "env \<Rightarrow> u32 \<Rightarrow> (u8 list \<times> u8 list) list \<Rightarrow> (kst, status) state" where
  "simplefs_initxattrs E ino [] = ret None"
| "simplefs_initxattrs E ino ((name, val) # xs) = do {
     err \<leftarrow> simplefs_xattr_set E ino name (Some val) xattr_any;
     if err \<noteq> None then ret err else simplefs_initxattrs E ino xs
   }"

text \<open>
  \<open>security_inode_init_security\<close> asks the security modules, here the parameter \<open>lsm\<close>, for the
  attributes of a new inode and hands them to the file system's callback.
\<close>

type_synonym lsm = "u32 \<Rightarrow> u32 \<Rightarrow> u8 list \<Rightarrow> errno + (u8 list \<times> u8 list) list"

definition simplefs_init_security :: "env \<Rightarrow> lsm \<Rightarrow> u32 \<Rightarrow> u32 \<Rightarrow> u8 list \<Rightarrow> (kst, status) state" where
  "simplefs_init_security E lsm ino dir name = (case lsm ino dir name of
     Inl e \<Rightarrow> ret (Some e)
   | Inr xs \<Rightarrow> simplefs_initxattrs E ino xs)"

definition simplefs_set_parent_ino :: "u32 \<Rightarrow> u32 \<Rightarrow> (kst, unit) state" where
  "simplefs_set_parent_ino ino dir = do {
     d \<leftarrow> is_dir ino;
     when_true d (upd_inode ino (\<lambda>i. i\<lparr>i_data := put32 dir (i_data i) 0\<rparr>))
   }"

definition simplefs_mark_dir_index_dirty :: "env \<Rightarrow> u32 \<Rightarrow> (kst, status) state" where
  "simplefs_mark_dir_index_dirty E dir = do {
     note_call (Mark_inode_dirty dir);
     r \<leftarrow> simplefs_persist_inode E dir;
     (case r of
        None \<Rightarrow> ret None
      | Some e \<Rightarrow> do {
          upd_index dir (\<lambda>ix. ix\<lparr>dx_valid := False\<rparr>);
          simplefs_journal_fail e;
          ret (Some e)
        })
   }"

definition simplefs_rename_check_subdir :: "u32 \<Rightarrow> dentry \<Rightarrow> (kst, status) state" where
  "simplefs_rename_check_subdir old_inode new_dentry = do {
     d \<leftarrow> is_dir old_inode;
     ret (if d \<and> old_inode \<in> set (d_parents new_dentry) then Some EINVAL else None)
   }"

definition simplefs_prepare_rename_target :: "env \<Rightarrow> u32 \<Rightarrow> u32 option \<Rightarrow> (kst, status) state" where
  "simplefs_prepare_rename_target E old_inode new_inode = (case new_inode of
     None \<Rightarrow> ret None
   | Some new \<Rightarrow> do {
       nd \<leftarrow> is_dir new;
       od \<leftarrow> is_dir old_inode;
       if nd then
         if \<not> od then ret (Some EISDIR)
         else do {
           r \<leftarrow> simplefs_dir_is_empty E new;
           ret (case r of Inl e \<Rightarrow> Some e | Inr vacant \<Rightarrow> if vacant then None else Some ENOTEMPTY)
         }
       else ret (if od then Some ENOTDIR else None)
     })"

definition simplefs_touch_rename_dirs :: "env \<Rightarrow> u32 \<Rightarrow> u32 \<Rightarrow> (kst, unit) state" where
  "simplefs_touch_rename_dirs E old_dir new_dir = do {
     touch_mctime E old_dir;
     note_call (Mark_inode_dirty old_dir);
     when_true (old_dir \<noteq> new_dir) (do {
       touch_mctime E new_dir;
       note_call (Mark_inode_dirty new_dir)
     })
   }"

section \<open>Removing a name\<close>

text \<open>The inode of the dentry loses the link: a directory all of its links.\<close>

definition lose_link :: "u32 \<Rightarrow> (kst, unit) state" where
  "lose_link ino = do {
     d \<leftarrow> is_dir ino;
     (if d then set_nlink ino 0 else drop_nlink_pos ino)
   }"

definition simplefs_unlink_internal :: "env \<Rightarrow> u32 \<Rightarrow> u8 list \<Rightarrow> u32 \<Rightarrow> (kst, status) state" where
  "simplefs_unlink_internal E dir name ino = do {
     r \<leftarrow> simplefs_dir_get E dir;
     if r \<noteq> None then ret r
     else do {
       ix \<leftarrow> the_index dir;
       (case simplefs_dir_find ix name ino of
          Inl e \<Rightarrow> ret (Some e)
        | Inr (slot, _) \<Rightarrow> do {
            r \<leftarrow> simplefs_dir_set E dir slot 0 None;
            if r \<noteq> None then ret r
            else do {
              upd_index dir (\<lambda>ix. ix\<lparr>dx_nr_files := dx_nr_files ix - 1\<rparr>);
              touch_mctime E dir;
              lose_link ino;
              _ \<leftarrow> inode_set_ctime_current E ino;
              note_call (Mark_inode_dirty ino);
              r \<leftarrow> simplefs_persist_inode E ino;
              r \<leftarrow> then_if_ok r (simplefs_mark_dir_index_dirty E dir);
              (case r of None \<Rightarrow> ret () | Some e \<Rightarrow> simplefs_journal_fail e);
              ret r
            }
          })
     }
   }"

text \<open>
  Every operation runs inside a handle of \<open>simplefs_journal_start\<close>. \<open>simplefs_journal_abort\<close>
  only reports the error to the tracer. The first form drops the status of the stop after a failure.
\<close>

definition in_handle :: "env \<Rightarrow> int \<Rightarrow> (kst, status) state \<Rightarrow> (kst, status) state" where
  "in_handle E credits m = do {
     handle \<leftarrow> simplefs_journal_start E credits;
     (case handle of
        Inl e \<Rightarrow> ret (Some e)
      | Inr h \<Rightarrow> do {
          r \<leftarrow> m;
          stop_ret \<leftarrow> simplefs_journal_stop E h;
          ret (if r = None then stop_ret else r)
        })
   }"

definition simplefs_unlink :: "env \<Rightarrow> u32 \<Rightarrow> u8 list \<Rightarrow> u32 \<Rightarrow> (kst, status) state" where
  "simplefs_unlink E dir name ino = in_handle E 32 (simplefs_unlink_internal E dir name ino)"

text \<open>The result \<open>None\<close> says that the bound of the trimming loop was too small.\<close>

definition simplefs_rmdir :: "env \<Rightarrow> u32 \<Rightarrow> u8 list \<Rightarrow> u32 \<Rightarrow> (kst, status option) state" where
  "simplefs_rmdir E dir name ino = do {
     d \<leftarrow> is_dir ino;
     if \<not> d then ret (Some (Some ENOTDIR))
     else do {
       vacant \<leftarrow> simplefs_dir_is_empty E ino;
       (case vacant of
          Inl e \<Rightarrow> ret (Some (Some e))
        | Inr False \<Rightarrow> ret (Some (Some ENOTEMPTY))
        | Inr True \<Rightarrow> do {
            r \<leftarrow> simplefs_dir_trim E ino;
            (case r of
               None \<Rightarrow> ret None
             | Some (Some e) \<Rightarrow> ret (Some (Some e))
             | Some None \<Rightarrow> do {
                 r \<leftarrow> in_handle E 32 (do {
                   r \<leftarrow> simplefs_unlink_internal E dir name ino;
                   if r \<noteq> None then ret r
                   else do {
                     drop_nlink_pos dir;
                     note_call (Mark_inode_dirty dir);
                     simplefs_persist_inode E dir
                   }
                 });
                 ret (Some r)
               })
          })
     }
   }"

section \<open>Looking up a name\<close>

text \<open>The result is the inode that \<open>d_splice_alias\<close> gets, which may be none.\<close>

definition simplefs_lookup :: "env \<Rightarrow> u32 \<Rightarrow> u8 list \<Rightarrow> (kst, errno + u32 option) state" where
  "simplefs_lookup E dir name = do {
     r \<leftarrow> simplefs_dir_get E dir;
     (case r of
        Some e \<Rightarrow> ret (Inl e)
      | None \<Rightarrow> do {
          ix \<leftarrow> the_index dir;
          (case simplefs_dir_find ix name 0 of
             Inr (_, ino) \<Rightarrow> do {
               inode \<leftarrow> simplefs_iget E ino;
               ret (case inode of Inl e \<Rightarrow> Inl e | Inr i \<Rightarrow> Inr (Some i))
             }
           | Inl e \<Rightarrow> ret (if e = ENOENT then Inr None else Inl e))
        })
   }"

text \<open>
  \<open>simplefs_get_link\<close>: the bytes of the target; a call without a dentry is a walk that cannot sleep.
\<close>

definition simplefs_get_link :: "env \<Rightarrow> bool \<Rightarrow> u32 \<Rightarrow> (kst, errno + u8 list) state" where
  "simplefs_get_link E rcu ino = do {
     i \<leftarrow> gets (\<lambda>s. inodes s ino);
     if rcu then ret (Inl ECHILD)
     else if i_size i < 32 then
       ret (if i_data i 0 = 0 then Inl EINVAL else Inr (takeWhile (\<lambda>c. c \<noteq> 0) (map (i_data i) [0..<32])))
     else if ei_block i = 0 then ret (Inl EINVAL)
     else do {
       data \<leftarrow> simplefs_get_folio E (ei_block i);
       (case data of
          Inl e \<Rightarrow> ret (Inl e)
        | Inr b \<Rightarrow> do {
            nomem \<leftarrow> ext E Kmalloc;
            ret (if nomem \<noteq> None then Inl ENOMEM else Inr (map b [0..<nat (i_size i)]))
          })
     }
   }"

section \<open>Evicting an inode\<close>

fun evict_extents :: "env \<Rightarrow> bool \<Rightarrow> simplefs_extent list \<Rightarrow> (kst, unit) state" where
  "evict_extents E dir [] = ret ()"
| "evict_extents E dir (e # es) = do {
     (if dir then do { _ \<leftarrow> simplefs_retire_metadata_blocks E (ee_start e) (simplefs_ext_len e); ret () }
      else put_blocks E (ee_start e) (simplefs_ext_len e));
     evict_extents E dir es
   }"

text \<open>The blocks of a file or directory; the result is false when its tree cannot be read.\<close>

definition evict_tree :: "env \<Rightarrow> u32 \<Rightarrow> (kst, bool) state" where
  "evict_tree E ino = do {
     i \<leftarrow> gets (\<lambda>s. inodes s ino);
     if (S_ISREG (i_mode i) \<or> S_ISDIR (i_mode i)) \<and> ei_block i \<noteq> 0 then do {
       (r, buf) \<leftarrow> simplefs_file_load_extents E (ei_block i);
       (case r of
          Some e \<Rightarrow> do { simplefs_journal_fail e; ret False }
        | None \<Rightarrow> do {
            evict_extents E (S_ISDIR (i_mode i)) (extents buf);
            retire_all E (leaf_blocks buf);
            _ \<leftarrow> simplefs_retire_metadata_blocks E (ei_block i) 1;
            ret True
          })
     }
     else ret True
   }"

text \<open>\<open>bad\<close> is \<open>is_bad_inode(inode)\<close>. When the tree cannot be read, the handle is not stopped.\<close>

definition simplefs_evict_inode :: "env \<Rightarrow> bool \<Rightarrow> u32 \<Rightarrow> (kst, unit) state" where
  "simplefs_evict_inode E bad ino = do {
     simplefs_dir_destroy ino;
     note_call (Other ''truncate_inode_pages_final'' [uint ino]);
     i \<leftarrow> gets (\<lambda>s. inodes s ino);
     shutdown \<leftarrow> gets s_shutdown;
     (if i_nlink i = 0 \<and> \<not> bad \<and> \<not> shutdown then do {
        handle \<leftarrow> simplefs_journal_start_sb E 64;
        (case handle of
           Inl e \<Rightarrow> ret ()
         | Inr h \<Rightarrow> do {
             readable \<leftarrow> evict_tree E ino;
             when_true readable (do {
               when_true (S_ISLNK (i_mode i) \<and> ei_block i \<noteq> 0)
                 (do { _ \<leftarrow> simplefs_retire_metadata_blocks E (ei_block i) 1; ret () });
               simplefs_xattr_delete_inode E ino;
               _ \<leftarrow> simplefs_clear_disk_inode E ino;
               when_true (ino \<noteq> 0) (put_inode E ino);
               _ \<leftarrow> simplefs_journal_stop E h;
               ret ()
             })
           })
      }
      else ret ());
     note_call (Other ''clear_inode'' [uint ino])
   }"

definition simplefs_release_new_inode :: "env \<Rightarrow> u32 \<Rightarrow> (kst, unit) state" where
  "simplefs_release_new_inode E ino = do { set_nlink ino 0; simplefs_evict_inode E False ino }"

section \<open>A new inode\<close>

text \<open>\<open>inode_init_owner\<close> of the VFS chooses the owner and adjusts the mode.\<close>

definition inode_init_owner :: "env \<Rightarrow> u32 \<Rightarrow> u32 \<Rightarrow> u16 \<Rightarrow> (kst, unit) state" where
  "inode_init_owner E ino dir mode = do {
     uid \<leftarrow> asknum E (Other ''inode_init_owner.uid'' [uint dir]);
     gid \<leftarrow> asknum E (Other ''inode_init_owner.gid'' [uint dir]);
     m \<leftarrow> asknum E (Other ''inode_init_owner.mode'' [uint dir, uint mode]);
     upd_inode ino (\<lambda>i. i\<lparr>i_uid := word_of_int uid, i_gid := word_of_int gid, i_mode := word_of_int m\<rparr>)
   }"

definition set_all_times :: "env \<Rightarrow> u32 \<Rightarrow> (kst, unit) state" where
  "set_all_times E ino = do {
     now \<leftarrow> current_time E;
     upd_inode ino (\<lambda>i. i\<lparr>i_atime := now, i_mtime := now, i_ctime := now, i_crtime := now\<rparr>)
   }"

text \<open>A link, a device, a pipe or a socket has no blocks of its own yet.\<close>

definition init_small_inode :: "env \<Rightarrow> 'a acl_ops \<Rightarrow> u32 \<Rightarrow> u32 \<Rightarrow> u16 \<Rightarrow> (kst, status) state" where
  "init_small_inode E A ino dir mode = do {
     inode_init_owner E ino dir mode;
     set_nlink ino 1;
     upd_inode ino (\<lambda>i. i\<lparr>i_blocks := 0\<rparr>);
     set_all_times E ino;
     simplefs_init_acl E A ino dir
   }"

text \<open>A file or directory gets a block for its extent root.\<close>

definition init_tree_inode :: "env \<Rightarrow> 'a acl_ops \<Rightarrow> u32 \<Rightarrow> u32 \<Rightarrow> u16 \<Rightarrow> (kst, status) state" where
  "init_tree_inode E A ino dir mode = do {
     bno \<leftarrow> get_free_blocks E 1;
     if bno = 0 then ret (Some ENOSPC)
     else do {
       metadata \<leftarrow> simplefs_get_zeroed_folio E bno;
       (case metadata of
          Inl e \<Rightarrow> do { put_blocks E bno 1; ret (Some e) }
        | Inr b \<Rightarrow> do {
            set_cache bno (simplefs_file_init_extent_root b);
            r \<leftarrow> simplefs_journal_dirty_folio E bno bno;
            if r \<noteq> None then do { put_blocks E bno 1; ret r }
            else do {
              inode_init_owner E ino dir mode;
              upd_inode ino (\<lambda>i. i\<lparr>i_blocks := simplefs_blocks_to_sectors 1\<rparr>);
              upd_inode ino (\<lambda>i. i\<lparr>ei_block := bno, i_size := 0, i_nlink := (if S_ISDIR mode then 2 else 1)\<rparr>);
              set_all_times E ino;
              simplefs_init_acl E A ino dir
            }
          })
     }
   }"

text \<open>
  The inode between \<open>new_inode\<close>, whose members the VFS and \<open>simplefs_alloc_inode\<close> initialise, and the
  choice of its kind. When its number is already in the inode cache, the object is given up at once:
  it is bad and its eviction frees nothing.
\<close>

definition fresh_inode :: "u32 \<Rightarrow> simplefs_inode_info \<Rightarrow> simplefs_inode_info" where
  "fresh_inode generation i = i\<lparr>i_mode := 0, i_nlink := 0, i_size := 0, i_blocks := 0, i_rdev := 0, i_vfs_flags := 0,
     i_generation := (if generation = 0 then 1 else generation), ei_block := 0, i_xattr_block := 0, i_flags := 0,
     prealloc_block := 0, prealloc_len := 0, i_data := zero_block, dir_index := None, i_link := False\<rparr>"

definition simplefs_new_inode :: "env \<Rightarrow> 'a acl_ops \<Rightarrow> u32 \<Rightarrow> u16 \<Rightarrow> (kst, errno + u32) state" where
  "simplefs_new_inode E A dir mode =
     (if \<not> S_ISDIR mode \<and> \<not> S_ISREG mode \<and> \<not> S_ISLNK mode \<and> \<not> S_ISCHR mode \<and> \<not> S_ISBLK mode \<and>
         \<not> S_ISFIFO mode \<and> \<not> S_ISSOCK mode then ret (Inl EINVAL)
      else do {
        free \<leftarrow> gets (\<lambda>s. nr_free_inodes (sbi s));
        if free = 0 then ret (Inl ENOSPC)
        else do {
          ino \<leftarrow> get_free_inode E;
          if ino = 0 then ret (Inl ENOSPC)
          else do {
            nomem \<leftarrow> ext E (Other ''new_inode'' []);
            if nomem \<noteq> None then do { put_inode E ino; ret (Inl ENOMEM) }
            else do {
              busy \<leftarrow> ext E (Other ''insert_inode_locked'' [uint ino]);
              if busy \<noteq> None then do { put_inode E ino; ret (Inl EIO) }
              else do {
                generation \<leftarrow> asknum E (Other ''get_random_u32'' []);
                upd_inode ino (fresh_inode (word_of_int generation));
                r \<leftarrow> (if S_ISREG mode \<or> S_ISDIR mode then init_tree_inode E A ino dir mode
                     else init_small_inode E A ino dir mode);
                (case r of
                   None \<Rightarrow> ret (Inr ino)
                 | Some e \<Rightarrow> do { set_nlink ino 0; simplefs_evict_inode E False ino; ret (Inl e) })
              }
            }
          }
        }
      })"

section \<open>Creating names\<close>

definition simplefs_create_internal :: "env \<Rightarrow> 'a acl_ops \<Rightarrow> lsm \<Rightarrow> u32 \<Rightarrow> u8 list \<Rightarrow> u16 \<Rightarrow> (kst, status) state" where
  "simplefs_create_internal E A lsm dir name mode =
     (if length name > SIMPLEFS_FILENAME_LEN then ret (Some ENAMETOOLONG)
      else do {
        inode \<leftarrow> simplefs_new_inode E A dir mode;
        (case inode of
           Inl e \<Rightarrow> ret (Some e)
         | Inr ino \<Rightarrow> do {
             r \<leftarrow> simplefs_init_security E lsm ino dir name;
             r \<leftarrow> then_if_ok r (do {
               simplefs_set_parent_ino ino dir;
               note_call (Mark_inode_dirty ino);
               simplefs_persist_inode E ino
             });
             r \<leftarrow> then_if_ok r (simplefs_dir_add E dir name ino);
             r \<leftarrow> then_if_ok r (do {
               when_true (S_ISDIR mode) (inc_nlink dir);
               touch_mctime E dir;
               note_call (Mark_inode_dirty dir);
               r \<leftarrow> simplefs_persist_inode E dir;
               (case r of None \<Rightarrow> ret () | Some e \<Rightarrow> simplefs_journal_fail e);
               ret r
             });
             (if r \<noteq> None then simplefs_release_new_inode E ino
              else note_call (Other ''d_instantiate'' [uint ino]));
             ret r
           })
      })"

definition simplefs_create :: "env \<Rightarrow> 'a acl_ops \<Rightarrow> lsm \<Rightarrow> u32 \<Rightarrow> u8 list \<Rightarrow> u16 \<Rightarrow> (kst, status) state" where
  "simplefs_create E A lsm dir name mode = in_handle E 32 (simplefs_create_internal E A lsm dir name mode)"

text \<open>\<open>simplefs_mkdir\<close> in the form for kernels from 6.15 on, which reports a failed stop as \<open>EIO\<close>.\<close>

definition simplefs_mkdir :: "env \<Rightarrow> 'a acl_ops \<Rightarrow> lsm \<Rightarrow> u32 \<Rightarrow> u8 list \<Rightarrow> u16 \<Rightarrow> (kst, status) state" where
  "simplefs_mkdir E A lsm dir name mode = do {
     handle \<leftarrow> simplefs_journal_start E 32;
     (case handle of
        Inl e \<Rightarrow> ret (Some e)
      | Inr h \<Rightarrow> do {
          r \<leftarrow> simplefs_create_internal E A lsm dir name (mode OR 0x4000);
          stop_ret \<leftarrow> simplefs_journal_stop E h;
          ret (if r \<noteq> None then r else if stop_ret \<noteq> None then Some EIO else None)
        })
   }"

text \<open>After a new inode has got its name, the results of writing it and its directory are ignored.\<close>

definition finish_new_name :: "env \<Rightarrow> u32 \<Rightarrow> u32 \<Rightarrow> (kst, unit) state" where
  "finish_new_name E ino dir = do {
     note_call (Mark_inode_dirty ino);
     _ \<leftarrow> simplefs_persist_inode E ino;
     touch_mctime E dir;
     note_call (Mark_inode_dirty dir);
     _ \<leftarrow> simplefs_persist_inode E dir;
     note_call (Other ''d_instantiate'' [uint ino])
   }"

definition simplefs_link :: "env \<Rightarrow> u32 \<Rightarrow> u32 \<Rightarrow> u8 list \<Rightarrow> (kst, status) state" where
  "simplefs_link E ino dir name = in_handle E 32 (do {
     _ \<leftarrow> inode_set_ctime_current E ino;
     inc_nlink ino;
     note_call (Mark_inode_dirty ino);
     err \<leftarrow> simplefs_dir_add E dir name ino;
     if err \<noteq> None then do {
       drop_nlink ino;
       note_call (Mark_inode_dirty ino);
       ret err
     }
     else do { finish_new_name E ino dir; ret None }
   })"

definition name_bytes :: "u8 list \<Rightarrow> block" where
  "name_bytes bs k = (if k < length bs then bs ! k else 0)"

text \<open>The target of a symbolic link is stored in the inode, or in a block when it is long.\<close>

definition store_target :: "env \<Rightarrow> u32 \<Rightarrow> u8 list \<Rightarrow> (kst, status) state" where
  "store_target E ino symname =
     (if length symname < 32 then do {
        upd_inode ino (\<lambda>i. i\<lparr>i_data := name_bytes symname, ei_block := 0, i_blocks := 0\<rparr>);
        ret None
      }
      else do {
        bno \<leftarrow> get_free_blocks E 1;
        if bno = 0 then ret (Some ENOSPC)
        else do {
          data \<leftarrow> simplefs_get_folio E bno;
          (case data of
             Inl e \<Rightarrow> do { put_blocks E bno 1; ret (Some e) }
           | Inr b \<Rightarrow> do {
               set_cache bno (name_bytes symname);
               err \<leftarrow> simplefs_journal_dirty_folio E bno bno;
               if err \<noteq> None then do { put_blocks E bno 1; ret err }
               else do {
                 upd_inode ino (\<lambda>i. i\<lparr>ei_block := bno, i_data := zero_block, i_blocks := simplefs_blocks_to_sectors 1\<rparr>);
                 ret None
               }
             })
        }
      })"

text \<open>What a new special inode or link has in common: labels, the name, and the end.\<close>

definition name_new_inode :: "env \<Rightarrow> lsm \<Rightarrow> u32 \<Rightarrow> u32 \<Rightarrow> u8 list \<Rightarrow> (kst, status) state" where
  "name_new_inode E lsm ino dir name = do {
     err \<leftarrow> simplefs_init_security E lsm ino dir name;
     err \<leftarrow> then_if_ok err (simplefs_dir_add E dir name ino);
     (if err \<noteq> None then simplefs_release_new_inode E ino else finish_new_name E ino dir);
     ret err
   }"

definition simplefs_symlink :: "env \<Rightarrow> 'a acl_ops \<Rightarrow> lsm \<Rightarrow> u32 \<Rightarrow> u8 list \<Rightarrow> u8 list \<Rightarrow> (kst, status) state" where
  "simplefs_symlink E A lsm dir name symname =
     (if length symname \<ge> 4096 then ret (Some ENAMETOOLONG)
      else in_handle E 32 (do {
        inode \<leftarrow> simplefs_new_inode E A dir 0xA1FF;
        (case inode of
           Inl e \<Rightarrow> ret (Some e)
         | Inr ino \<Rightarrow> do {
             err \<leftarrow> store_target E ino symname;
             if err \<noteq> None then do { simplefs_release_new_inode E ino; ret err }
             else do {
               upd_inode ino (\<lambda>i. i\<lparr>i_link := length symname < 32, i_size := int (length symname)\<rparr>);
               name_new_inode E lsm ino dir name
             }
           })
      }))"

text \<open>\<open>init_special_inode\<close> of the VFS, and the device number kept in \<open>i_data\<close>.\<close>

definition init_special_inode :: "u32 \<Rightarrow> u32 \<Rightarrow> (kst, unit) state" where
  "init_special_inode ino rdev =
     upd_inode ino (\<lambda>i. if S_ISCHR (i_mode i) \<or> S_ISBLK (i_mode i) then i\<lparr>i_rdev := rdev\<rparr> else i)"

definition keep_rdev :: "env \<Rightarrow> u32 \<Rightarrow> u32 \<Rightarrow> (kst, unit) state" where
  "keep_rdev E ino rdev =
     upd_inode ino (\<lambda>i. i\<lparr>i_data := put32 (word_of_int (kfun E ''old_encode_dev'' [uint rdev])) (i_data i) 0\<rparr>)"

definition simplefs_mknod :: "env \<Rightarrow> 'a acl_ops \<Rightarrow> lsm \<Rightarrow> u32 \<Rightarrow> u8 list \<Rightarrow> u16 \<Rightarrow> u32 \<Rightarrow> (kst, status) state" where
  "simplefs_mknod E A lsm dir name mode rdev = in_handle E 32 (do {
     inode \<leftarrow> simplefs_new_inode E A dir mode;
     (case inode of
        Inl e \<Rightarrow> ret (Some e)
      | Inr ino \<Rightarrow> do {
          init_special_inode ino rdev;
          when_true (S_ISBLK mode \<or> S_ISCHR mode) (keep_rdev E ino rdev);
          name_new_inode E lsm ino dir name
        })
   })"

text \<open>\<open>d_tmpfile\<close> takes the link away again.\<close>

definition simplefs_tmpfile :: "env \<Rightarrow> 'a acl_ops \<Rightarrow> u32 \<Rightarrow> u16 \<Rightarrow> (kst, status) state" where
  "simplefs_tmpfile E A dir mode = in_handle E 32 (do {
     inode \<leftarrow> simplefs_new_inode E A dir (mode OR 0x8000);
     (case inode of
        Inl e \<Rightarrow> ret (Some e)
      | Inr ino \<Rightarrow> do {
          set_nlink ino 1;
          note_call (Mark_inode_dirty ino);
          drop_nlink ino;
          note_call (Other ''d_tmpfile'' [uint ino]);
          err \<leftarrow> ext E (Other ''finish_open_simple'' [uint ino]);
          when_true (err \<noteq> None) (simplefs_evict_inode E False ino);
          ret err
        })
   })"

section \<open>Renaming\<close>

definition RENAME_NOREPLACE :: u32 where "RENAME_NOREPLACE = 1"
definition RENAME_EXCHANGE :: u32 where "RENAME_EXCHANGE = 2"
definition RENAME_WHITEOUT :: u32 where "RENAME_WHITEOUT = 4"

text \<open>The old inode gets its new change time and the directories theirs.\<close>

definition rename_times :: "env \<Rightarrow> u32 \<Rightarrow> u32 \<Rightarrow> u32 \<Rightarrow> (kst, unit) state" where
  "rename_times E old_inode old_dir new_dir = do {
     _ \<leftarrow> inode_set_ctime_current E old_inode;
     note_call (Mark_inode_dirty old_inode);
     simplefs_touch_rename_dirs E old_dir new_dir
   }"

text \<open>The existing target of a rename loses its name.\<close>

definition rename_drop_target :: "env \<Rightarrow> u32 \<Rightarrow> dentry \<Rightarrow> (kst, status) state" where
  "rename_drop_target E new_dir new_dentry = (case d_inode new_dentry of
     None \<Rightarrow> ret None
   | Some new_inode \<Rightarrow> do {
       r \<leftarrow> simplefs_unlink_internal E new_dir (d_name new_dentry) new_inode;
       if r \<noteq> None then ret r
       else do {
         d \<leftarrow> is_dir new_inode;
         when_true d (drop_nlink_pos new_dir);
         ret None
       }
     })"

text \<open>The entry at \<open>old_slot\<close> of \<open>old_dir\<close> moves to a free slot of \<open>new_dir\<close>.\<close>

definition rename_move :: "env \<Rightarrow> u32 \<Rightarrow> u32 \<Rightarrow> u32 \<Rightarrow> u32 \<Rightarrow> u8 list \<Rightarrow> (kst, status) state" where
  "rename_move E old_dir old_slot old_inode new_dir name = do {
     r \<leftarrow> (if old_dir = new_dir then ret None else simplefs_dir_get E new_dir);
     if r \<noteq> None then ret r
     else do {
       slot \<leftarrow> simplefs_dir_free_slot E new_dir;
       (case slot of
          Inl e \<Rightarrow> ret (Some e)
        | Inr new_slot \<Rightarrow> do {
            r \<leftarrow> simplefs_dir_set E new_dir new_slot old_inode (Some name);
            r \<leftarrow> then_if_ok r (do {
              upd_index new_dir (\<lambda>ix. ix\<lparr>dx_nr_files := dx_nr_files ix + 1\<rparr>);
              simplefs_mark_dir_index_dirty E new_dir
            });
            r \<leftarrow> then_if_ok r (simplefs_dir_set E old_dir old_slot 0 None);
            r \<leftarrow> then_if_ok r (do {
              upd_index old_dir (\<lambda>ix. ix\<lparr>dx_nr_files := dx_nr_files ix - 1\<rparr>);
              simplefs_mark_dir_index_dirty E old_dir
            });
            then_if_ok r (do {
              d \<leftarrow> is_dir old_inode;
              when_true (d \<and> old_dir \<noteq> new_dir) (do {
                simplefs_set_parent_ino old_inode new_dir;
                drop_nlink_pos old_dir;
                inc_nlink new_dir
              });
              rename_times E old_inode old_dir new_dir;
              ret None
            })
          })
     }
   }"

text \<open>\<open>old_inode\<close> is \<open>d_inode(old_dentry)\<close> and \<open>old_name\<close> its name; the old dentry is positive.\<close>

definition simplefs_rename_normal :: "env \<Rightarrow> u32 \<Rightarrow> u8 list \<Rightarrow> u32 \<Rightarrow> u32 \<Rightarrow> dentry \<Rightarrow> u32 \<Rightarrow> (kst, status) state" where
  "simplefs_rename_normal E old_dir old_name old_inode new_dir new_dentry flags =
     (if flags AND RENAME_NOREPLACE \<noteq> 0 \<and> d_inode new_dentry \<noteq> None then ret (Some EEXIST)
      else do {
        r \<leftarrow> simplefs_dir_get E old_dir;
        if r \<noteq> None then ret r
        else do {
          ix \<leftarrow> the_index old_dir;
          (case simplefs_dir_find ix old_name old_inode of
             Inl e \<Rightarrow> ret (Some e)
           | Inr (old_slot, _) \<Rightarrow>
               if old_dir = new_dir \<and> d_inode new_dentry = None then do {
                 r \<leftarrow> simplefs_dir_set E old_dir old_slot old_inode (Some (d_name new_dentry));
                 then_if_ok r (do { rename_times E old_inode old_dir new_dir; ret None })
               }
               else do {
                 r \<leftarrow> simplefs_rename_check_subdir old_inode new_dentry;
                 r \<leftarrow> then_if_ok r (simplefs_prepare_rename_target E old_inode (d_inode new_dentry));
                 r \<leftarrow> then_if_ok r (rename_drop_target E new_dir new_dentry);
                 then_if_ok r (rename_move E old_dir old_slot old_inode new_dir (d_name new_dentry))
               })
        }
      })"

text \<open>The link counts and parents of two directories whose entries have been exchanged.\<close>

definition exchange_links :: "u32 \<Rightarrow> u32 \<Rightarrow> u32 \<Rightarrow> u32 \<Rightarrow> (kst, unit) state" where
  "exchange_links old_dir old_inode new_dir new_inode = do {
     od \<leftarrow> is_dir old_inode;
     nd \<leftarrow> is_dir new_inode;
     when_true (old_dir \<noteq> new_dir \<and> od \<noteq> nd)
       (if od then do { drop_nlink_pos old_dir; inc_nlink new_dir }
        else do { inc_nlink old_dir; drop_nlink_pos new_dir });
     when_true (old_dir \<noteq> new_dir \<and> od) (simplefs_set_parent_ino old_inode new_dir);
     when_true (old_dir \<noteq> new_dir \<and> nd) (simplefs_set_parent_ino new_inode old_dir)
   }"

definition simplefs_rename_exchange :: "env \<Rightarrow> u32 \<Rightarrow> u8 list \<Rightarrow> u32 \<Rightarrow> u32 \<Rightarrow> dentry \<Rightarrow> (kst, status) state" where
  "simplefs_rename_exchange E old_dir old_name old_inode new_dir new_dentry = (case d_inode new_dentry of
     None \<Rightarrow> ret (Some ENOENT)
   | Some new_inode \<Rightarrow> do {
       r \<leftarrow> simplefs_dir_get E old_dir;
       if r \<noteq> None then ret r
       else do {
         ix \<leftarrow> the_index old_dir;
         (case simplefs_dir_find ix old_name old_inode of
            Inl e \<Rightarrow> ret (Some e)
          | Inr (old_slot, _) \<Rightarrow> do {
              r \<leftarrow> (if old_dir = new_dir then ret None else simplefs_dir_get E new_dir);
              if r \<noteq> None then ret r
              else do {
                ix \<leftarrow> the_index new_dir;
                (case simplefs_dir_find ix (d_name new_dentry) new_inode of
                   Inl e \<Rightarrow> ret (Some e)
                 | Inr (new_slot, _) \<Rightarrow> do {
                     r \<leftarrow> simplefs_dir_set E old_dir old_slot new_inode None;
                     if r \<noteq> None then ret r
                     else do {
                       r \<leftarrow> simplefs_dir_set E new_dir new_slot old_inode None;
                       if r \<noteq> None then do {
                         _ \<leftarrow> simplefs_dir_set E old_dir old_slot old_inode None;
                         ret r
                       }
                       else do {
                         exchange_links old_dir old_inode new_dir new_inode;
                         _ \<leftarrow> inode_set_ctime_current E old_inode;
                         note_call (Mark_inode_dirty old_inode);
                         _ \<leftarrow> inode_set_ctime_current E new_inode;
                         note_call (Mark_inode_dirty new_inode);
                         simplefs_touch_rename_dirs E old_dir new_dir;
                         ret None
                       }
                     }
                   })
              }
            })
       }
     })"

definition simplefs_rollback_whiteout_target :: "env \<Rightarrow> u32 \<Rightarrow> u32 \<Rightarrow> u32 option \<Rightarrow> (kst, unit) state" where
  "simplefs_rollback_whiteout_target E new_dir new_slot replaced = (case replaced of
     Some ino \<Rightarrow> do { _ \<leftarrow> simplefs_dir_set E new_dir new_slot ino None; ret () }
   | None \<Rightarrow> do {
       _ \<leftarrow> simplefs_dir_set E new_dir new_slot 0 None;
       ix \<leftarrow> the_index new_dir;
       when_true (dx_nr_files ix \<noteq> 0) (do {
         upd_index new_dir (\<lambda>ix. ix\<lparr>dx_nr_files := dx_nr_files ix - 1\<rparr>);
         _ \<leftarrow> simplefs_mark_dir_index_dirty E new_dir;
         ret ()
       })
     })"

text \<open>\<open>WHITEOUT_MODE\<close> and \<open>WHITEOUT_DEV\<close> are 0.\<close>

definition simplefs_new_whiteout :: "env \<Rightarrow> 'a acl_ops \<Rightarrow> lsm \<Rightarrow> u32 \<Rightarrow> u8 list \<Rightarrow> (kst, errno + u32) state" where
  "simplefs_new_whiteout E A lsm dir old_name = do {
     inode \<leftarrow> simplefs_new_inode E A dir 0x2000;
     (case inode of
        Inl e \<Rightarrow> ret (Inl e)
      | Inr ino \<Rightarrow> do {
          init_special_inode ino 0;
          keep_rdev E ino 0;
          r \<leftarrow> simplefs_init_security E lsm ino dir old_name;
          (case r of
             Some e \<Rightarrow> do { simplefs_release_new_inode E ino; ret (Inl e) }
           | None \<Rightarrow> ret (Inr ino))
        })
   }"

text \<open>The target's entry of a rename that leaves a whiteout: its slot, or the error.\<close>

definition whiteout_target :: "env \<Rightarrow> u32 \<Rightarrow> u32 \<Rightarrow> dentry \<Rightarrow> (kst, errno + u32) state" where
  "whiteout_target E old_inode new_dir new_dentry = (case d_inode new_dentry of
     Some new_inode \<Rightarrow> do {
       ix \<leftarrow> the_index new_dir;
       (case simplefs_dir_find ix (d_name new_dentry) new_inode of
          Inl e \<Rightarrow> ret (Inl e)
        | Inr (new_slot, _) \<Rightarrow> do {
            r \<leftarrow> simplefs_dir_set E new_dir new_slot old_inode None;
            ret (case r of Some e \<Rightarrow> Inl e | None \<Rightarrow> Inr new_slot)
          })
     }
   | None \<Rightarrow> do {
       slot \<leftarrow> simplefs_dir_free_slot E new_dir;
       (case slot of
          Inl e \<Rightarrow> ret (Inl e)
        | Inr new_slot \<Rightarrow> do {
            r \<leftarrow> simplefs_dir_set E new_dir new_slot old_inode (Some (d_name new_dentry));
            (case r of
               Some e \<Rightarrow> ret (Inl e)
             | None \<Rightarrow> do {
                 upd_index new_dir (\<lambda>ix. ix\<lparr>dx_nr_files := dx_nr_files ix + 1\<rparr>);
                 r \<leftarrow> simplefs_mark_dir_index_dirty E new_dir;
                 (case r of
                    None \<Rightarrow> ret (Inr new_slot)
                  | Some e \<Rightarrow> do {
                      upd_index new_dir (\<lambda>ix. ix\<lparr>dx_nr_files := dx_nr_files ix - 1\<rparr>);
                      _ \<leftarrow> simplefs_dir_set E new_dir new_slot 0 None;
                      ret (Inl e)
                    })
               })
          })
     })"

text \<open>The entries and inodes of a rename that leaves the whiteout \<open>w\<close> behind.\<close>

definition whiteout_entries :: "env \<Rightarrow> u32 \<Rightarrow> u32 \<Rightarrow> u8 list \<Rightarrow> u32 \<Rightarrow> u32 \<Rightarrow> dentry \<Rightarrow> (kst, status) state" where
  "whiteout_entries E w old_dir old_name old_inode new_dir new_dentry = do {
     r \<leftarrow> simplefs_dir_get E old_dir;
     if r \<noteq> None then ret r
     else do {
       ix \<leftarrow> the_index old_dir;
       (case simplefs_dir_find ix old_name old_inode of
          Inl e \<Rightarrow> ret (Some e)
        | Inr (old_slot, _) \<Rightarrow> do {
            r \<leftarrow> simplefs_rename_check_subdir old_inode new_dentry;
            r \<leftarrow> then_if_ok r (simplefs_prepare_rename_target E old_inode (d_inode new_dentry));
            r \<leftarrow> then_if_ok r (if old_dir = new_dir then ret None else simplefs_dir_get E new_dir);
            if r \<noteq> None then ret r
            else do {
              target \<leftarrow> whiteout_target E old_inode new_dir new_dentry;
              (case target of
                 Inl e \<Rightarrow> ret (Some e)
               | Inr new_slot \<Rightarrow> do {
                   r \<leftarrow> simplefs_dir_set E old_dir old_slot w None;
                   if r \<noteq> None then do {
                     simplefs_rollback_whiteout_target E new_dir new_slot (d_inode new_dentry);
                     ret r
                   }
                   else do {
                     note_call (Mark_inode_dirty w);
                     r \<leftarrow> simplefs_persist_inode E w;
                     (case r of
                        Some e \<Rightarrow> do { simplefs_journal_fail e; ret r }
                      | None \<Rightarrow> do {
                          _ \<leftarrow> inode_set_ctime_current E old_inode;
                          note_call (Mark_inode_dirty old_inode);
                          (case d_inode new_dentry of
                             None \<Rightarrow> ret ()
                           | Some new_inode \<Rightarrow> do {
                               lose_link new_inode;
                               _ \<leftarrow> inode_set_ctime_current E new_inode;
                               note_call (Mark_inode_dirty new_inode)
                             });
                          d \<leftarrow> is_dir old_inode;
                          when_true (d \<and> old_dir \<noteq> new_dir) (do {
                            simplefs_set_parent_ino old_inode new_dir;
                            drop_nlink_pos old_dir;
                            when_true (d_inode new_dentry = None) (inc_nlink new_dir)
                          });
                          simplefs_touch_rename_dirs E old_dir new_dir;
                          ret None
                        })
                   }
                 })
            }
          })
     }
   }"

definition simplefs_rename_whiteout :: "env \<Rightarrow> 'a acl_ops \<Rightarrow> lsm \<Rightarrow> u32 \<Rightarrow> u8 list \<Rightarrow> u32 \<Rightarrow> u32 \<Rightarrow> dentry \<Rightarrow> (kst, status) state" where
  "simplefs_rename_whiteout E A lsm old_dir old_name old_inode new_dir new_dentry = do {
     whiteout \<leftarrow> simplefs_new_whiteout E A lsm old_dir old_name;
     (case whiteout of
        Inl e \<Rightarrow> ret (Some e)
      | Inr w \<Rightarrow> do {
          r \<leftarrow> whiteout_entries E w old_dir old_name old_inode new_dir new_dentry;
          (if r \<noteq> None then simplefs_release_new_inode E w else note_call (Other ''iput'' [uint w]));
          ret r
        })
   }"

definition simplefs_rename_internal :: "env \<Rightarrow> 'a acl_ops \<Rightarrow> lsm \<Rightarrow> u32 \<Rightarrow> u8 list \<Rightarrow> u32 \<Rightarrow> u32 \<Rightarrow> dentry \<Rightarrow> u32 \<Rightarrow> (kst, status) state" where
  "simplefs_rename_internal E A lsm old_dir old_name old_inode new_dir new_dentry flags =
     (if flags AND NOT (RENAME_NOREPLACE OR RENAME_EXCHANGE OR RENAME_WHITEOUT) \<noteq> 0 then ret (Some EINVAL)
      else if flags AND RENAME_EXCHANGE \<noteq> 0
      then simplefs_rename_exchange E old_dir old_name old_inode new_dir new_dentry
      else if flags AND RENAME_WHITEOUT \<noteq> 0
      then simplefs_rename_whiteout E A lsm old_dir old_name old_inode new_dir new_dentry
      else simplefs_rename_normal E old_dir old_name old_inode new_dir new_dentry flags)"

text \<open>The inodes of a rename are written before the handle is stopped.\<close>

definition rename_persist :: "env \<Rightarrow> u32 \<Rightarrow> u32 \<Rightarrow> u32 \<Rightarrow> u32 option \<Rightarrow> (kst, status) state" where
  "rename_persist E old_dir old_inode new_dir new_inode = do {
     r \<leftarrow> simplefs_persist_inode E old_inode;
     r \<leftarrow> then_if_ok r (case new_inode of None \<Rightarrow> ret None | Some n \<Rightarrow> simplefs_persist_inode E n);
     r \<leftarrow> then_if_ok r (simplefs_persist_inode E old_dir);
     r \<leftarrow> then_if_ok r (if old_dir \<noteq> new_dir then simplefs_persist_inode E new_dir else ret None);
     (case r of None \<Rightarrow> ret () | Some e \<Rightarrow> simplefs_journal_fail e);
     ret r
   }"

definition rename_credits :: "u32 \<Rightarrow> u32 \<Rightarrow> dentry \<Rightarrow> u32 \<Rightarrow> int" where
  "rename_credits old_dir new_dir new_dentry flags = 8 + (if old_dir \<noteq> new_dir then 2 else 0) +
     (if d_inode new_dentry \<noteq> None then 2 else 0) + (if flags AND RENAME_EXCHANGE \<noteq> 0 then 2 else 0) +
     (if flags AND RENAME_WHITEOUT \<noteq> 0 then 4 else 0)"

text \<open>The result \<open>None\<close> says that the bound of the trimming loop was too small.\<close>

definition simplefs_rename :: "env \<Rightarrow> 'a acl_ops \<Rightarrow> lsm \<Rightarrow> u32 \<Rightarrow> u8 list \<Rightarrow> u32 \<Rightarrow> u32 \<Rightarrow> dentry \<Rightarrow> u32 \<Rightarrow> (kst, status option) state" where
  "simplefs_rename E A lsm old_dir old_name old_inode new_dir new_dentry flags = do {
     t \<leftarrow> (case d_inode new_dentry of
        None \<Rightarrow> ret (Some None)
      | Some n \<Rightarrow> do {
          d \<leftarrow> is_dir n;
          if flags AND RENAME_EXCHANGE = 0 \<and> d then simplefs_dir_trim E n else ret (Some None)
        });
     if t \<noteq> Some None then ret t
     else do {
       r \<leftarrow> in_handle E (rename_credits old_dir new_dir new_dentry flags) (do {
         r \<leftarrow> simplefs_rename_internal E A lsm old_dir old_name old_inode new_dir new_dentry flags;
         then_if_ok r (rename_persist E old_dir old_inode new_dir (d_inode new_dentry))
       });
       ret (Some r)
     }
   }"

end
