(* ===== verification/SFS_DirMap.thy ===== *)
theory SFS_DirMap
  imports SFS_DirBuild SFS_Namespace
begin

text \<open>
  All directories together. \<open>dirs_hold s M\<close> says that the state \<open>s\<close> stores, for every directory
  number \<open>d\<close> of \<open>M\<close>, the map \<open>M d\<close> from names to inode numbers: the images on disk describe it, a
  cached index agrees with them, and no two directories share a block. The operations on one
  directory are lifted to it, so that what they do to all others follows.
\<close>

section \<open>The state of all directories\<close>

definition with_index :: "kst \<Rightarrow> u32 \<Rightarrow> simplefs_dir_index \<Rightarrow> kst" where
  "with_index s dir ix = s\<lparr>inodes := (inodes s)(dir := (inodes s dir)\<lparr>dir_index := Some ix\<rparr>)\<rparr>"

text \<open>The images of \<open>dir\<close> describe \<open>ix\<close>, and a valid cached index is \<open>ix\<close>.\<close>

definition dir_view :: "kst \<Rightarrow> u32 \<Rightarrow> simplefs_dir_index \<Rightarrow> bool" where
  "dir_view s dir ix \<longleftrightarrow> dir_ok (with_index s dir ix) dir ix \<and>
     (\<forall>ix'. dir_index (inodes s dir) = Some ix' \<and> dx_valid ix' \<longrightarrow> ix' = ix)"

definition dirs :: "kst \<Rightarrow> (u32 \<Rightarrow> (u8 list \<Rightarrow> u32 option) option) \<Rightarrow> (u32 \<Rightarrow> simplefs_dir_index) \<Rightarrow> bool" where
  "dirs s M IX \<longleftrightarrow> (\<forall>d m. M d = Some m \<longrightarrow> dir_view s d (IX d) \<and> contents (IX d) = m) \<and>
     (\<forall>d e. M d \<noteq> None \<longrightarrow> M e \<noteq> None \<longrightarrow> d \<noteq> e \<longrightarrow> set (dir_area s d (IX d)) \<inter> set (dir_area s e (IX e)) = {})"

text \<open>The cached number of files, on which \<open>rmdir\<close> relies.\<close>

definition counted :: "(u32 \<Rightarrow> (u8 list \<Rightarrow> u32 option) option) \<Rightarrow> (u32 \<Rightarrow> simplefs_dir_index) \<Rightarrow> bool" where
  "counted M IX \<longleftrightarrow> (\<forall>d m. M d = Some m \<longrightarrow> dx_nr_files (IX d) = of_nat (card (dom m)))"

definition dirs_hold :: "kst \<Rightarrow> (u32 \<Rightarrow> (u8 list \<Rightarrow> u32 option) option) \<Rightarrow> bool" where
  "dirs_hold s M \<longleftrightarrow> (\<exists>IX. dirs s M IX \<and> counted M IX)"

lemma with_index_simps [simp]:
  "cache (with_index s d ix) = cache s" "sbi (with_index s d ix) = sbi s" "s_journal (with_index s d ix) = s_journal s"
  "trace (with_index s d ix) = trace s" "handle_ok (with_index s d ix) = handle_ok s"
  "dir_index (inodes (with_index s d ix) d) = Some ix" "ei_block (inodes (with_index s d ix) e) = ei_block (inodes s e)"
  "dir_area (with_index s d ix) e ix' = dir_area s e ix'" "free_of (with_index s d ix) = free_of s"
  by (simp_all add: with_index_def handle_ok_def dir_area_def free_of_def)

lemma with_index_same: "dir_index (inodes s d) = Some ix \<Longrightarrow> with_index s d ix = s"
proof -
  assume "dir_index (inodes s d) = Some ix"
  then have "(inodes s)(d := (inodes s d)\<lparr>dir_index := Some ix\<rparr>) = inodes s" by (simp add: fun_upd_idem)
  then show ?thesis by (simp add: with_index_def)
qed

lemma dir_ok_view: "dir_ok s dir ix \<Longrightarrow> dir_view s dir ix"
  by (auto simp: dir_view_def with_index_same dir_ok_def)

lemma dirsD:
  assumes "dirs s M IX" "M d = Some m"
  shows "dir_view s d (IX d)" "contents (IX d) = m"
  using assms by (simp_all add: dirs_def)

lemma dirs_disjoint: "dirs s M IX \<Longrightarrow> M d = Some m \<Longrightarrow> M e = Some k \<Longrightarrow> d \<noteq> e \<Longrightarrow>
    set (dir_area s d (IX d)) \<inter> set (dir_area s e (IX e)) = {}"
  unfolding dirs_def by blast

lemma dir_view_basic:
  assumes "dir_view s d ix"
  shows "handle_ok s" "geom_ok (sbi s)" "meta_ok (sbi s) (dir_area s d ix)" "index_ok (nr_inodes (sbi s)) ix"
    "unat (nr_inodes (sbi s)) \<le> 39 * unat (nr_istore_blocks (sbi s))"
  using assms dir_ok_basic [of "with_index s d ix" d ix] dir_ok_table [of "with_index s d ix" d ix] by (simp_all add: dir_view_def)

text \<open>What a change elsewhere means for a directory.\<close>

lemma dir_view_elsewhere:
  assumes v: "dir_view s e ix" and el: "elsewhere d A s s'" "set (dir_area s e ix) \<inter> A = {}"
    and i: "dir_index (inodes s' e) = dir_index (inodes s e)" "ei_block (inodes s' e) = ei_block (inodes s e)"
  shows "dir_view s' e ix" "dir_area s' e ix = dir_area s e ix"
proof -
  have ok: "dir_ok (with_index s e ix) e ix" using v by (simp add: dir_view_def)
  note bas = dir_ok_basic [OF ok]
  have m: "meta_ok (sbi s') (dir_area s e ix)" "\<forall>b\<in>set (dir_area s e ix). cache s' b = cache s b"
    using el bas(3) unfolding elsewhere_def by simp_all
  have "dir_ok (with_index s' e ix) e ix"
    by (rule dir_ok_same [OF ok same_dir_refl [OF bas(5)]]) (use el m i in \<open>auto simp: elsewhere_def grows_def\<close>)
  then show "dir_view s' e ix" using v i by (simp add: dir_view_def)
qed (use i in \<open>simp add: dir_area_def\<close>)

lemma dirs_step:
  assumes D: "dirs s M IX" and d: "M d = Some m" and v: "dir_view s' d ix'"
    and el: "elsewhere d (set (dir_area s d (IX d))) s s'"
    and a: "set (dir_area s' d ix') \<subseteq> set (dir_area s d (IX d)) \<union> free_of s"
  shows "dirs s' (M(d \<mapsto> contents ix')) (IX(d := ix'))"
proof -
  have other: "dir_view s' e (IX e)" "dir_area s' e (IX e) = dir_area s e (IX e)" "contents (IX e) = k"
    "set (dir_area s e (IX e)) \<inter> set (dir_area s' d ix') = {}" if e: "M e = Some k" "e \<noteq> d" for e k
  proof -
    note ev = dirsD [OF D e(1)] and dj = dirs_disjoint [OF D e(1) d e(2)]
    have i: "inodes s' e = inodes s e" using el e(2) by (simp add: elsewhere_def)
    show "dir_view s' e (IX e)" "dir_area s' e (IX e) = dir_area s e (IX e)"
      using dir_view_elsewhere [OF ev(1) el dj] i by simp_all
    show "contents (IX e) = k" by (rule ev(2))
    show "set (dir_area s e (IX e)) \<inter> set (dir_area s' d ix') = {}"
      using a dj meta_used [OF dir_view_basic(3) [OF ev(1)]] by blast
  qed
  show ?thesis
    unfolding dirs_def
  proof (intro conjI allI impI)
    fix e k
    assume "(M(d \<mapsto> contents ix')) e = Some k"
    then show "dir_view s' e ((IX(d := ix')) e)" "contents ((IX(d := ix')) e) = k"
      using v other by (auto split: if_splits)
  next
    fix e f
    assume ef: "(M(d \<mapsto> contents ix')) e \<noteq> None" "(M(d \<mapsto> contents ix')) f \<noteq> None" "e \<noteq> f"
    show "set (dir_area s' e ((IX(d := ix')) e)) \<inter> set (dir_area s' f ((IX(d := ix')) f)) = {}"
    proof (cases "e = d")
      case True
      then obtain k where "M f = Some k" "f \<noteq> d" using ef by auto
      then show ?thesis using other(2,4) [of f] True by auto
    next
      case False
      then obtain k where k: "M e = Some k" using ef(1) by auto
      show ?thesis
      proof (cases "f = d")
        case True
        then show ?thesis using other(2,4) [OF k False] False by simp
      next
        case nf: False
        then obtain l where l: "M f = Some l" using ef(2) by auto
        show ?thesis using dirs_disjoint [OF D k l ef(3)] other(2) [OF k False] other(2) [OF l nf] False nf by simp
      qed
    qed
  qed
qed

text \<open>Changes that no directory notices.\<close>

lemma dirs_elsewhere:
  assumes D: "dirs s M IX" and el: "elsewhere d {} s s'"
    and i: "\<And>e. M e \<noteq> None \<Longrightarrow> dir_index (inodes s' e) = dir_index (inodes s e) \<and> ei_block (inodes s' e) = ei_block (inodes s e)"
  shows "dirs s' M IX"
proof -
  have o: "dir_view s' e (IX e)" "dir_area s' e (IX e) = dir_area s e (IX e)" if "M e = Some k" for e k
    using dir_view_elsewhere [OF dirsD(1) [OF D that] el] i [of e] that by simp_all
  show ?thesis
    unfolding dirs_def
  proof (intro conjI allI impI)
    fix d e
    assume "M d \<noteq> None" "M e \<noteq> None" "d \<noteq> e"
    then show "set (dir_area s' d (IX d)) \<inter> set (dir_area s' e (IX e)) = {}"
      using o(2) dirs_disjoint [OF D] by fastforce
  qed (use o(1) D in \<open>auto simp: dirs_def\<close>)
qed

section \<open>Loading an index\<close>

text \<open>\<open>simplefs_dir_get\<close> changes no more than the cached index of \<open>dir\<close>.\<close>

definition index_only :: "u32 \<Rightarrow> kst \<Rightarrow> kst \<Rightarrow> bool" where
  "index_only d s s' \<longleftrightarrow> grows s s' \<and> sbi s' = sbi s \<and> cache s' = cache s \<and> s_journal s' = s_journal s \<and> s_fs_info s' = s_fs_info s \<and>
     s_shutdown s' = s_shutdown s \<and> (\<forall>e. e \<noteq> d \<longrightarrow> inodes s' e = inodes s e) \<and>
     (\<exists>x. inodes s' d = (inodes s d)\<lparr>dir_index := x\<rparr>)"

lemma index_only_elsewhere: "index_only d s s' \<Longrightarrow> handle_ok s \<Longrightarrow> elsewhere d A s s'"
  by (rule elsewhere_same) (auto simp: index_only_def handle_ok_def same_file_def)

lemma index_only_dirs:
  assumes D: "dirs s M IX" "M d = Some m" and i: "index_only d s s'" and v: "dir_view s' d ix'"
    and c: "contents ix' = m" "dir_area s d ix' = dir_area s d (IX d)"
  shows "dirs s' M (IX(d := ix'))"
proof -
  have "elsewhere d (set (dir_area s d (IX d))) s s'"
    using index_only_elsewhere [OF i] dir_view_basic(1) [OF dirsD(1) [OF D]] by blast
  moreover have "dir_area s' d ix' = dir_area s d ix'" using i by (auto simp: dir_area_def index_only_def)
  ultimately show ?thesis using dirs_step [OF D v] c D(2) by (simp add: fun_upd_idem)
qed

definition get_post :: "env \<Rightarrow> u32 \<Rightarrow> kst \<Rightarrow> simplefs_dir_index \<Rightarrow> status \<Rightarrow> kst \<Rightarrow> bool" where
  "get_post E d s ix r s' \<longleftrightarrow> index_only d s s' \<and> (if r = None then \<not> s_shutdown s \<and>
      (\<exists>ix'. dir_ok s' d ix' \<and> (ix' = ix \<or> rebuilt ix ix')) else dir_view s' d ix \<and> (s_shutdown s \<or> \<not> quiet_dir E))"

lemma dir_get_wp:
  assumes v: "dir_view s d ix"
  shows "wp (simplefs_dir_get E d) (get_post E d s ix) s"
proof -
  have ok: "dir_ok (with_index s d ix) d ix" using v by (simp add: dir_view_def)
  have refl: "index_only d s s" unfolding index_only_def by (auto simp: grows_refl intro: exI [of _ "dir_index (inodes s d)"])
  define u where "u x = s\<lparr>inodes := (inodes s)(d := (inodes s d)\<lparr>dir_index := None\<rparr>), trace := x @ trace s\<rparr>" for x
  have uv: "dir_view t d ix" "index_only d s t" if "tframe (u x) t" for t x
  proof -
    note t = tframe_simps [OF that]
    show "index_only d s t"
      using t(7) by (auto simp: index_only_def t(1-6) u_def grows_def elim: suffix_order.trans [rotated] intro: suffix_appendI)
    have "dir_ok (with_index t d ix) d ix"
      by (rule dir_ok_same [OF ok same_dir_refl [OF dir_ok_basic(5) [OF ok]]])
        (use dir_ok_basic [OF ok] t in \<open>auto simp: u_def handle_ok_def\<close>)
    then show "dir_view t d ix" by (simp add: dir_view_def t(3) u_def)
  qed
  have build: "wp (simplefs_dir_build E d empty_index) (\<lambda>(r, ix') t'. tframe (u x) t' \<and> (r \<noteq> None \<longrightarrow> \<not> quiet_dir E) \<and>
     (r = None \<longrightarrow> rebuilt ix ix')) (u x)" for x
    by (rule dir_build_wp [OF ok]) (simp_all add: u_def with_index_def)
  have load: "dir_ok (t\<lparr>inodes := (inodes t)(d := (inodes t d)\<lparr>dir_index := Some ix'\<rparr>)\<rparr>) d ix'"
    "index_only d s (t\<lparr>inodes := (inodes t)(d := (inodes t d)\<lparr>dir_index := Some ix'\<rparr>)\<rparr>)"
    if "tframe (u x) t" "rebuilt ix ix'" for t x ix'
  proof -
    note t = tframe_simps [OF that(1)]
    show "dir_ok (t\<lparr>inodes := (inodes t)(d := (inodes t d)\<lparr>dir_index := Some ix'\<rparr>)\<rparr>) d ix'"
      by (rule rebuilt_dir_ok [OF ok that(2)]) (simp_all add: t u_def with_index_def)
    show "index_only d s (t\<lparr>inodes := (inodes t)(d := (inodes t d)\<lparr>dir_index := Some ix'\<rparr>)\<rparr>)"
      using uv(2) [OF that(1)] unfolding index_only_def by (intro conjI exI [of _ "Some ix'"]) (simp_all add: t(3) u_def grows_def)
  qed
  define F where "F = (\<lambda>(r :: status, ix). if r \<noteq> None then ret r
       else do { upd_inode d (\<lambda>i. i\<lparr>dir_index := Some ix\<rparr>); ret None })"
  have F: "wp (F p) (get_post E d s ix) t"
    if "(case p of (r, ix') \<Rightarrow> \<lambda>t'. tframe (u x) t' \<and> (r \<noteq> None \<longrightarrow> \<not> quiet_dir E) \<and> (r = None \<longrightarrow> rebuilt ix ix')) t" "\<not> s_shutdown s" for p t x
  proof (cases p)
    case (Pair r ix')
    then show ?thesis
      using that uv [of x t] load [of x t ix']
      by (cases r) (simp_all add: F_def wp_return wp_bind wp_upd_inode get_post_def, blast)
  qed
  have tf: "tframe (u x) (u x)" for x by (rule tframe_refl)
  have q: "\<not> quiet_dir E" if "kret E tr Kmalloc = Some y \<or> kret E tr (Other ''rhashtable_init'' []) = Some y" for tr y
    using that by (auto simp: quiet_dir_def quiet_def)
  have valid: "dir_ok s d ix" if "dir_index (inodes s d) = Some ix'" "dx_valid ix'" for ix'
    using v that with_index_same [of s d ix] by (auto simp: dir_view_def)
  show ?thesis
  proof (cases "s_shutdown s \<or> (\<exists>ix'. dir_index (inodes s d) = Some ix' \<and> dx_valid ix')")
    case True
    then show ?thesis
      using refl v valid by (auto simp: simplefs_dir_get_def wp_bind wp_gets wp_return get_post_def split: option.split)
  next
    case False
    then have sd: "\<not> s_shutdown s" "\<not> (case dir_index (inodes s d) of None \<Rightarrow> False | Some ix \<Rightarrow> dx_valid ix)"
      by (auto split: option.splits)
    have u0: "s\<lparr>inodes := (inodes s)(d := (inodes s d)\<lparr>dir_index := None\<rparr>)\<rparr> = u []"
      and tr: "trace (u x) = x @ trace s" and up: "(u x)\<lparr>trace := y # x @ trace s\<rparr> = u (y # x)" for x y
      by (simp_all add: u_def)
    have b: "wp (simplefs_dir_build E d empty_index) (\<lambda>p. wp (F p) (get_post E d s ix)) (u x)" for x
      by (rule wp_mono [OF build]) (rule F [OF _ sd(1)])
    have e: "get_post E d s ix (Some y) (u x)" if "\<not> quiet_dir E" for x y
      using that uv [OF tf] by (simp add: get_post_def)
    show ?thesis
      unfolding simplefs_dir_get_def simplefs_dir_destroy_def wp_bind wp_gets if_not_P [OF sd(1)] if_not_P [OF sd(2)] wp_upd_inode wp_ext
        F_def [symmetric] u0
      using b e q by (cases "kret E (trace s) Kmalloc"; cases "kret E ((Kmalloc, None) # trace s) (Other ''rhashtable_init'' [])")
        (auto simp: wp_return wp_bind wp_ext tr up [of _ "[]", simplified] up [of _ "[_]", simplified], blast+)
  qed
qed

lemma entries_inj:
  assumes ok: "index_ok nr ix" and e: "dx_entries ix i = Some e" and f: "dx_entries ix j = Some f" and n: "dn_name e = dn_name f"
  shows "i = j"
proof -
  note a = index_entry [OF ok e] and b = index_entry [OF ok f]
  have u: "unat (dn_slot e) = i" "unat (dn_slot f) = j" using a(1) b(1) unfolding entry_ok_def by blast+
  have "Some e = Some f" unfolding a(2) [symmetric] b(2) [symmetric] n ..
  then show ?thesis unfolding u [symmetric] by simp
qed

lemma card_entries:
  assumes ok: "index_ok nr ix"
  shows "card {i. dx_entries ix i \<noteq> None} = card (dom (contents ix))"
proof -
  define f where "f i = dn_name (the (dx_entries ix i))" for i
  have f: "f i = dn_name e" if "dx_entries ix i = Some e" for i e unfolding f_def that option.sel ..
  have "inj_on f {i. dx_entries ix i \<noteq> None}"
  proof (rule inj_onI, unfold mem_Collect_eq)
    fix i j
    assume ij: "dx_entries ix i \<noteq> None" "dx_entries ix j \<noteq> None" "f i = f j"
    obtain e where e: "dx_entries ix i = Some e" using ij(1) by (cases "dx_entries ix i") simp_all
    obtain g where g: "dx_entries ix j = Some g" using ij(2) by (cases "dx_entries ix j") simp_all
    show "i = j" by (rule entries_inj [OF ok e g]) (use ij(3) f [OF e] f [OF g] in simp)
  qed
  moreover have "f ` {i. dx_entries ix i \<noteq> None} = dom (contents ix)"
  proof (intro equalityI subsetI)
    fix n
    assume "n \<in> f ` {i. dx_entries ix i \<noteq> None}"
    then obtain i where i: "dx_entries ix i \<noteq> None" "n = f i" by blast
    obtain e where e: "dx_entries ix i = Some e" using i(1) by (cases "dx_entries ix i") simp_all
    show "n \<in> dom (contents ix)"
      unfolding i(2) f [OF e] dom_def mem_Collect_eq contents_def index_entry(2) [OF ok e] by simp
  next
    fix n
    assume "n \<in> dom (contents ix)"
    then obtain e where n: "dx_names ix n = Some e" unfolding dom_def contents_def mem_Collect_eq by (cases "dx_names ix n") simp_all
    have "n = f (unat (dn_slot e))" unfolding f [OF index_name(2) [OF ok n]] index_name(1) [OF ok n] ..
    moreover have "dx_entries ix (unat (dn_slot e)) \<noteq> None" unfolding index_name(2) [OF ok n] by simp
    ultimately show "n \<in> f ` {i. dx_entries ix i \<noteq> None}" by blast
  qed
  ultimately show ?thesis by (metis card_image)
qed

lemma counted_upd: "counted M IX \<Longrightarrow> dx_nr_files ix = of_nat (card (dom m)) \<Longrightarrow> counted (M(d \<mapsto> m)) (IX(d := ix))"
  by (simp add: counted_def)

lemma dirs_get:
  assumes D: "dirs s M IX" "M d = Some m" "counted M IX"
  shows "wp (simplefs_dir_get E d) (\<lambda>r s'. \<exists>ix'. index_only d s s' \<and> dirs s' M (IX(d := ix')) \<and> counted M (IX(d := ix')) \<and>
    (if r = None then dir_ok s' d ix' \<and> \<not> s_shutdown s else s_shutdown s \<or> \<not> quiet_dir E)) s"
proof (rule wp_mono [OF dir_get_wp [OF dirsD(1) [OF D(1,2)]]])
  fix r s'
  assume p: "get_post E d s (IX d) r s'"
  note v = dirsD [OF D(1,2)] and io = p [unfolded get_post_def, THEN conjunct1]
  show "\<exists>ix'. index_only d s s' \<and> dirs s' M (IX(d := ix')) \<and> counted M (IX(d := ix')) \<and>
    (if r = None then dir_ok s' d ix' \<and> \<not> s_shutdown s else s_shutdown s \<or> \<not> quiet_dir E)"
  proof (cases r)
    case None
    then obtain ix' where ix': "dir_ok s' d ix'" "ix' = IX d \<or> rebuilt (IX d) ix'" "\<not> s_shutdown s" using p by (auto simp: get_post_def)
    have c: "contents ix' = m" using ix'(2) v(2) names_contents [of ix' "IX d"] by (auto simp: rebuilt_def)
    have n: "dx_nr_files ix' = of_nat (card (dom m))"
      using ix'(2) D(2,3) card_entries [OF dir_view_basic(4) [OF v(1)]] v(2) by (auto simp: rebuilt_def counted_def)
    have "dirs s' M (IX(d := ix'))"
      by (rule index_only_dirs [OF D(1,2) io dir_ok_view [OF ix'(1)] c]) (use ix'(2) in \<open>auto simp: dir_area_def rebuilt_def\<close>)
    then show ?thesis using io ix' n D(2,3) None by (intro exI [of _ ix']) (simp add: counted_def)
  next
    case (Some e)
    then have "dir_view s' d (IX d)" "s_shutdown s \<or> \<not> quiet_dir E" using p by (simp_all add: get_post_def)
    then show ?thesis
      using io index_only_dirs [OF D(1,2) io _ v(2)] D(3) Some by (intro exI [of _ "IX d"]) simp
  qed
qed

section \<open>Steps that the operations on names are made of\<close>

lemma dir_step_dirs:
  assumes D: "dirs s M IX" "M d = Some m" and st: "dir_step d s (IX d) s' ix'"
  shows "dirs s' (M(d \<mapsto> contents ix')) (IX(d := ix'))"
  using st unfolding dir_step_def by (intro dirs_step [OF D dir_ok_view]) auto

text \<open>The number of an inode is in range and no two numbers name one directory; both as at the start.\<close>

lemma dirs_set:
  assumes D: "dirs s M IX" "M d = Some m" "dir_ok s d (IX d)"
    and name: "case name of None \<Rightarrow> True | Some n \<Rightarrow> name_ok n" and ino: "ino < nr_inodes (sbi s)"
    and slot: "unat slot < dir_slots (IX d)"
  defines "x \<equiv> new_entry slot ino name (dx_entries (IX d) (unat slot))"
  shows "wp (simplefs_dir_set E d slot ino name) (\<lambda>r s'. case r of
     None \<Rightarrow> fits_slot (nr_inodes (sbi s)) (IX d) (unat slot) x \<and> dir_step d s (IX d) s' (put_entry (unat slot) x (IX d)) \<and>
       dirs s' (M(d \<mapsto> contents (put_entry (unat slot) x (IX d)))) (IX(d := put_entry (unat slot) x (IX d)))
   | Some e \<Rightarrow> failed s' \<or> dir_step d s (IX d) s' (IX d) \<and> dirs s' M IX) s"
proof (rule wp_mono [OF dir_set_wp [OF dir_ok_basic(4,5) [OF D(3)] name ino]], fold x_def)
  fix r s'
  assume p: "set_post s d (IX d) (unat slot) ino x r s'"
  show "case r of
     None \<Rightarrow> fits_slot (nr_inodes (sbi s)) (IX d) (unat slot) x \<and> dir_step d s (IX d) s' (put_entry (unat slot) x (IX d)) \<and>
       dirs s' (M(d \<mapsto> contents (put_entry (unat slot) x (IX d)))) (IX(d := put_entry (unat slot) x (IX d)))
   | Some e \<Rightarrow> failed s' \<or> dir_step d s (IX d) s' (IX d) \<and> dirs s' M IX"
  proof (cases r)
    case None
    note st = set_post_step [OF D(3) slot p [unfolded None]]
    show ?thesis using p st dir_step_dirs [OF D(1,2) st] by (simp add: None set_post_def)
  next
    case (Some e)
    have "failed s' \<or> dir_step d s (IX d) s' (IX d)" by (rule set_post_error_step [OF D(3) p [unfolded Some]])
    moreover have "M(d \<mapsto> contents (IX d)) = M" using dirsD(2) [OF D(1,2)] D(2) by (simp add: fun_upd_idem)
    ultimately show ?thesis using dir_step_dirs [OF D(1,2), of s' "IX d"] by (auto simp: Some)
  qed
qed


end
