(* ===== verification/SFS_NamespaceProps.thy ===== *)
theory SFS_NamespaceProps
  imports SFS_DirMap
begin

text \<open>
  The operations on names against the maps of \<open>SFS_DirMap\<close>: adding, removing, linking and renaming
  change exactly the names they are asked to change, in exactly the directories they name.
\<close>

section \<open>Changes that no directory notices\<close>

text \<open>
  Times, link counts, the inode table and the journal handle: no directory's blocks, root or cached
  index. The premises hold wherever some directory is stored.
\<close>

definition same_trees :: "kst \<Rightarrow> kst \<Rightarrow> bool" where
  "same_trees s s' \<longleftrightarrow> handle_ok s' \<and> grows s s' \<and> sbi s' = sbi s \<and> (\<forall>n. root_dir_block (sbi s) \<le> n \<longrightarrow> cache s' n = cache s n) \<and>
     (\<forall>i. dir_index (inodes s' i) = dir_index (inodes s i) \<and> ei_block (inodes s' i) = ei_block (inodes s i))"

definition soft :: "kst \<Rightarrow> kst \<Rightarrow> bool" where
  "soft s s' \<longleftrightarrow> (handle_ok s \<and> geom_ok (sbi s) \<and> unat (nr_inodes (sbi s)) \<le> 39 * unat (nr_istore_blocks (sbi s)) \<longrightarrow> same_trees s s')"

lemma same_trees_trans: "same_trees s t \<Longrightarrow> same_trees t u \<Longrightarrow> same_trees s u"
  unfolding same_trees_def by (auto intro: grows_trans)

interpretation sof: frame soft
proof unfold_locales
  fix s t u
  assume "soft s t" "soft t u"
  then show "soft s u" using same_trees_trans [of s t u] unfolding soft_def same_trees_def [of s t] by auto
qed (simp add: soft_def same_trees_def grows_refl)

lemmas [frame_rules] = sof.keeps_return sof.keeps_gets sof.keeps_bind sof.keeps_when sof.keeps_then

lemma upd_inode_soft:
  "(\<And>i. dir_index (f i) = dir_index i \<and> ei_block (f i) = ei_block i) \<Longrightarrow> keeps soft (upd_inode ino f)"
  by (auto simp: keeps_wp wp_simps soft_def same_trees_def grows_def handle_ok_def)

lemma trace_soft [frame_rules]:
  "keeps soft (ext E c)" "keeps soft (ask E c)" "keeps soft (asknum E c)" "keeps soft (note_call c)"
  by (simp_all add: keeps_wp wp_simps soft_def same_trees_def grows_def handle_ok_def suffix_ConsI)

lemma persist_soft [frame_rules]: "keeps soft (simplefs_persist_inode E ino)"
  unfolding keeps_wp
proof
  fix s
  show "wp (simplefs_persist_inode E ino) (\<lambda>_. soft s) s"
  proof (cases "handle_ok s \<and> geom_ok (sbi s) \<and> unat (nr_inodes (sbi s)) \<le> 39 * unat (nr_istore_blocks (sbi s))")
    case True
    then show ?thesis by (intro persist_any_wp) (auto simp: soft_def same_trees_def)
  next
    case False
    then show ?thesis by (intro wp_mono [OF wp_True]) (auto simp: soft_def)
  qed
qed

lemma ctime_soft [frame_rules]: "keeps soft (inode_set_ctime_current E ino)"
  unfolding inode_set_ctime_current_def current_time_def by (intro frame_rules upd_inode_soft) simp

lemma nlink_soft [frame_rules]:
  "keeps soft (touch_mctime E ino)" "keeps soft (set_nlink ino n)" "keeps soft (drop_nlink ino)" "keeps soft (inc_nlink ino)"
  unfolding touch_mctime_def set_nlink_def drop_nlink_def inc_nlink_def by (intro frame_rules upd_inode_soft; simp)+

lemma is_dir_soft [frame_rules]: "keeps soft (is_dir ino)"
  unfolding is_dir_def by (intro frame_rules)

lemma links_soft [frame_rules]:
  "keeps soft (drop_nlink_pos ino)" "keeps soft (lose_link ino)" "keeps soft (simplefs_set_parent_ino ino dir)"
  "keeps soft (simplefs_touch_rename_dirs E od nd)"
  unfolding drop_nlink_pos_def lose_link_def simplefs_set_parent_ino_def simplefs_touch_rename_dirs_def
  by (intro frame_rules upd_inode_soft; simp)+

lemma finish_soft [frame_rules]: "keeps soft (rename_times E ino od nd)" "keeps soft (finish_new_name E ino dir)"
  unfolding rename_times_def finish_new_name_def by (intro frame_rules)+

lemma same_trees_view:
  assumes v: "dir_view s d ix" and t: "same_trees s s'"
  shows "dir_view s' d ix" "dir_area s' d ix = dir_area s d ix"
proof -
  note t' = t [unfolded same_trees_def]
  have ok: "dir_ok (with_index s d ix) d ix" using v by (simp add: dir_view_def)
  note bas = dir_ok_basic [OF ok]
  have "dir_ok (with_index s' d ix) d ix"
    by (rule dir_ok_same [OF ok same_dir_refl [OF bas(5)]])
      (use t' bas(3) dir_area_root [OF ok] in auto)
  then show "dir_view s' d ix" using v t' by (simp add: dir_view_def)
qed (use t in \<open>simp add: dir_area_def same_trees_def\<close>)

lemma soft_dirs:
  assumes D: "dirs s M IX" "M d = Some m" and t: "soft s s'"
  shows "dirs s' M IX" "same_trees s s'"
proof -
  have st: "same_trees s s'" using t dir_view_basic [OF dirsD(1) [OF D]] by (simp add: soft_def)
  note v = same_trees_view [OF dirsD(1) [OF D(1)] st]
  show "dirs s' M IX"
    unfolding dirs_def
  proof (intro conjI allI impI)
    fix d e
    assume "M d \<noteq> None" "M e \<noteq> None" "d \<noteq> e"
    then show "set (dir_area s' d (IX d)) \<inter> set (dir_area s' e (IX e)) = {}"
      using v(2) dirs_disjoint [OF D(1)] by fastforce
  qed (use v(1) dirsD(2) [OF D(1)] in auto)
qed (use t dir_view_basic [OF dirsD(1) [OF D]] in \<open>simp add: soft_def\<close>)

lemma handle_soft [frame_rules]: "keeps soft (simplefs_journal_start E n)" "keeps soft (simplefs_journal_stop E h)"
proof -
  have soft: "soft s s'" if "jframe s s'" "oframe s s'" "cache s' = cache s" "handle_ok s \<longrightarrow> handle_ok s'" for s s'
    using that by (auto simp: soft_def same_trees_def jframe_def oframe_grows)
  show "keeps soft (simplefs_journal_start E n)"
    unfolding keeps_wp simplefs_journal_start_def
  proof
    fix s
    show "wp (simplefs_journal_start_internal E n) (\<lambda>_. soft s) s"
      by (rule wp_mono [OF wp_keeps [OF start_jframe [unfolded simplefs_journal_start_def] wp_keeps [OF
            start_oframe [unfolded simplefs_journal_start_def] start_internal_spec]]])
        (auto intro!: soft simp: handle_ok_def split: sum.splits if_splits)
  qed
  show "keeps soft (simplefs_journal_stop E h)"
    unfolding keeps_wp
  proof
    fix s
    show "wp (simplefs_journal_stop E h) (\<lambda>_. soft s) s"
      by (rule wp_mono [OF wp_keeps [OF stop_jframe wp_keeps [OF stop_oframe stop_spec]]])
        (auto intro!: soft simp: handle_ok_def split: if_splits option.splits)
  qed
qed

section \<open>Directories whose index is loaded\<close>

definition opened :: "kst \<Rightarrow> (u32 \<Rightarrow> (u8 list \<Rightarrow> u32 option) option) \<Rightarrow> (u32 \<Rightarrow> simplefs_dir_index) \<Rightarrow> u32 set \<Rightarrow> bool" where
  "opened s M IX D \<longleftrightarrow> dirs s M IX \<and> (\<forall>d\<in>D. M d \<noteq> None \<and> dir_index (inodes s d) = Some (IX d))"

lemma openedD:
  assumes "opened s M IX D" "d \<in> D"
  shows "dir_ok s d (IX d)" "M d = Some (contents (IX d))"
proof -
  obtain m where m: "M d = Some m" using assms by (auto simp: opened_def)
  have D: "dirs s M IX" "dir_index (inodes s d) = Some (IX d)" using assms by (auto simp: opened_def)
  show "dir_ok s d (IX d)" using dirsD(1) [OF D(1) m] with_index_same [OF D(2)] by (simp add: dir_view_def)
  show "M d = Some (contents (IX d))" using m dirsD(2) [OF D(1) m] by simp
qed

lemma opened_step:
  assumes O: "opened s M IX D" "d \<in> D" and st: "dir_step d s (IX d) s' ix'"
  shows "opened s' (M(d \<mapsto> contents ix')) (IX(d := ix')) D"
proof -
  have dirs: "dirs s M IX" using O by (simp add: opened_def)
  have "dirs s' (M(d \<mapsto> contents ix')) (IX(d := ix'))"
    by (rule dir_step_dirs [OF dirs openedD(2) [OF O] st])
  then show ?thesis
    using O st dir_ok_basic(4) [of s' d ix'] unfolding opened_def dir_step_def elsewhere_def by auto
qed

lemma opened_same_step:
  assumes O: "opened s M IX D" "d \<in> D" and st: "dir_step d s (IX d) s' ix'" and c: "contents ix' = contents (IX d)"
  shows "opened s' M (IX(d := ix')) D"
  using opened_step [OF O st] openedD(2) [OF O] c by (simp add: fun_upd_idem)

lemma opened_soft:
  assumes O: "opened s M IX D" "M d = Some m" and t: "soft s s'"
  shows "opened s' M IX D"
proof -
  have dirs: "dirs s M IX" using O by (simp add: opened_def)
  show ?thesis using O soft_dirs [OF dirs O(2) t] by (auto simp: opened_def same_trees_def)
qed

lemma opened_nr_files:
  assumes O: "opened s M IX D" "d \<in> D"
  shows "opened (s\<lparr>inodes := (inodes s)(d := (inodes s d)\<lparr>dir_index := Some ((IX d)\<lparr>dx_nr_files := k\<rparr>)\<rparr>)\<rparr>) M
    (IX(d := (IX d)\<lparr>dx_nr_files := k\<rparr>)) D" (is "opened ?s _ (_(d := ?ix)) _")
proof (rule opened_same_step [OF O])
  note ok = openedD(1) [OF O]
  have "elsewhere d {} s ?s" by (rule elsewhere_same) (use dir_ok_basic(1) [OF ok] in \<open>auto simp: handle_ok_def grows_def same_file_def\<close>)
  then show "dir_step d s (IX d) ?s ?ix"
    using dir_ok_nr_files [OF ok] by (auto simp: dir_step_def dir_area_def elim: elsewhere_mono)
qed (simp add: contents_def fun_eq_iff)

lemma opened_get:
  assumes O: "opened s M IX D" "counted M IX" "M d = Some m"
  shows "wp (simplefs_dir_get E d) (\<lambda>r s'. \<exists>ix'. counted M (IX(d := ix')) \<and> index_only d s s' \<and> (d \<in> D \<longrightarrow> s' = s \<and> ix' = IX d) \<and>
    opened s' M (IX(d := ix')) (if r = None then insert d D else D - {d})) s"
proof (cases "d \<in> D")
  case True
  have "index_only d s s" unfolding index_only_def by (auto simp: grows_refl intro: exI [of _ "dir_index (inodes s d)"])
  then show ?thesis
    unfolding dir_get_valid [OF openedD(1) [OF O(1) True]] using O True by (auto simp: insert_absorb opened_def)
next
  case False
  have dirs: "dirs s M IX" using O(1) by (simp add: opened_def)
  show ?thesis
  proof (rule wp_mono [OF dirs_get [OF dirs O(3,2)]])
    fix r s'
    assume "\<exists>ix'. index_only d s s' \<and> dirs s' M (IX(d := ix')) \<and> counted M (IX(d := ix')) \<and>
      (if r = None then dir_ok s' d ix' \<and> \<not> s_shutdown s else s_shutdown s \<or> \<not> quiet_dir E)"
    then obtain ix' where i: "index_only d s s'" "dirs s' M (IX(d := ix'))" "counted M (IX(d := ix'))" "r = None \<longrightarrow> dir_ok s' d ix'"
      by (auto split: if_splits)
    have "opened s' M (IX(d := ix')) (if r = None then insert d D else D - {d})"
      using O(1,3) i dir_ok_basic(4) [of s' d ix'] by (auto simp: opened_def index_only_def)
    then show "\<exists>ix'. counted M (IX(d := ix')) \<and> index_only d s s' \<and> (d \<in> D \<longrightarrow> s' = s \<and> ix' = IX d) \<and>
      opened s' M (IX(d := ix')) (if r = None then insert d D else D - {d})"
      using i False by blast
  qed
qed

lemma opened_set:
  assumes O: "opened s M IX D" "d \<in> D"
    and name: "case name of None \<Rightarrow> True | Some n \<Rightarrow> name_ok n" and ino: "ino < nr_inodes (sbi s)"
    and slot: "unat slot < dir_slots (IX d)"
  defines "x \<equiv> new_entry slot ino name (dx_entries (IX d) (unat slot))"
  shows "wp (simplefs_dir_set E d slot ino name) (\<lambda>r s'. case r of
     None \<Rightarrow> fits_slot (nr_inodes (sbi s)) (IX d) (unat slot) x \<and> dir_step d s (IX d) s' (put_entry (unat slot) x (IX d)) \<and>
       opened s' (M(d \<mapsto> contents (put_entry (unat slot) x (IX d)))) (IX(d := put_entry (unat slot) x (IX d))) D
   | Some e \<Rightarrow> failed s' \<or> dir_step d s (IX d) s' (IX d) \<and> opened s' M IX D) s"
proof -
  have D: "dirs s M IX" using O by (simp add: opened_def)
  show ?thesis
    unfolding x_def
    by (rule wp_mono [OF dirs_set [OF D openedD(2) [OF O] openedD(1) [OF O] name ino slot]])
      (use opened_step [OF O] opened_same_step [OF O, where ix' = "IX d"] in \<open>auto split: option.splits\<close>)
qed

section \<open>Link counts\<close>

definition same_links :: "kst \<Rightarrow> kst \<Rightarrow> bool" where
  "same_links s s' \<longleftrightarrow> (\<forall>i. i_nlink (inodes s' i) = i_nlink (inodes s i) \<and> i_mode (inodes s' i) = i_mode (inodes s i))"

interpretation slk: frame same_links
  by unfold_locales (simp_all add: same_links_def)

lemmas [frame_rules] = slk.keeps_return slk.keeps_gets slk.keeps_bind slk.keeps_when slk.keeps_then

lemma upd_inode_links:
  "(\<And>i. i_nlink (f i) = i_nlink i \<and> i_mode (f i) = i_mode i) \<Longrightarrow> keeps same_links (upd_inode ino f)"
  by (simp add: keeps_wp wp_simps same_links_def)

lemma jframe_links: "keeps jframe m \<Longrightarrow> keeps same_links m"
  by (simp add: keeps_def jframe_def same_links_def)

lemma trace_links [frame_rules]: "keeps same_links (ext E c)" "keeps same_links (asknum E c)" "keeps same_links (note_call c)"
  by (simp_all add: keeps_wp wp_simps same_links_def)

lemma touch_links [frame_rules]: "keeps same_links (inode_set_ctime_current E ino)" "keeps same_links (touch_mctime E ino)"
  unfolding touch_mctime_def inode_set_ctime_current_def current_time_def by (intro frame_rules upd_inode_links; simp)+

lemma persist_links [frame_rules]: "keeps same_links (simplefs_persist_inode E ino)"
  unfolding simplefs_persist_inode_def simplefs_write_inode_def with_handle_def edit_folio_def by (intro jframe_links frame_rules)

lemma mark_dirty_links [frame_rules]: "keeps same_links (simplefs_mark_dir_index_dirty E dir)"
  unfolding simplefs_mark_dir_index_dirty_def upd_index_def
  by (intro frame_rules upd_inode_links jframe_links; simp)

lemma elsewhere_links: "elsewhere d A s s' \<Longrightarrow> same_links s s'"
  unfolding elsewhere_def same_links_def same_file_def by metis

lemma index_only_links: "index_only d s s' \<Longrightarrow> same_links s s'"
  unfolding index_only_def same_links_def by (metis simplefs_inode_info.select_convs(1,9) simplefs_inode_info.surjective simplefs_inode_info.update_convs(21))

text \<open>The inode \<open>ino\<close> has lost a link, a directory all of them.\<close>

definition lost_link :: "u32 \<Rightarrow> kst \<Rightarrow> kst \<Rightarrow> bool" where
  "lost_link ino s s' \<longleftrightarrow> (\<forall>i. i_mode (inodes s' i) = i_mode (inodes s i)) \<and> (\<forall>i. i \<noteq> ino \<longrightarrow> i_nlink (inodes s' i) = i_nlink (inodes s i)) \<and>
     i_nlink (inodes s' ino) = (if S_ISDIR (i_mode (inodes s ino)) \<or> i_nlink (inodes s ino) = 0 then 0 else i_nlink (inodes s ino) - 1)"

lemma lose_link_wp: "wp (lose_link ino) (\<lambda>_. lost_link ino s) s"
  by (auto simp: lose_link_def is_dir_def drop_nlink_pos_def drop_nlink_def set_nlink_def wp_simps lost_link_def)

lemma lost_link_links: "same_links s t \<Longrightarrow> lost_link ino t u \<Longrightarrow> lost_link ino s u" "lost_link ino s t \<Longrightarrow> same_links t u \<Longrightarrow> lost_link ino s u"
  unfolding lost_link_def same_links_def by auto

section \<open>Removing a name\<close>

lemma find_slot:
  assumes ok: "index_ok nr ix" and f: "simplefs_dir_find ix name ino = Inr (slot, j)" and ino: "ino \<noteq> 0"
  obtains e where "dx_entries ix (unat slot) = Some e" "dn_name e = name" "dn_ino e = ino" "unat slot < dir_slots ix"
    "contents ix name = Some ino" "j = ino"
proof -
  obtain e where e: "dx_names ix name = Some e" "dn_slot e = slot" "dn_ino e = ino" "j = ino"
    using f ino by (auto simp: simplefs_dir_find_def split: if_splits option.splits)
  note n = index_name [OF ok e(1), unfolded e(2)]
  have "unat slot < dir_slots ix" using index_entry(1) [OF ok n(2)] by (simp add: entry_ok_def)
  then show ?thesis using that n e by (simp add: contents_def)
qed

lemma contents_finite:
  assumes "index_ok nr ix"
  shows "finite (dom (contents ix))"
proof -
  have "n \<in> (\<lambda>i. dn_name (the (dx_entries ix i))) ` {..<dir_slots ix}" if n: "n \<in> dom (contents ix)" for n
  proof -
    obtain e where e: "dx_names ix n = Some e" using n unfolding dom_def contents_def mem_Collect_eq by (cases "dx_names ix n") simp_all
    note i = index_name [OF assms e]
    have "unat (dn_slot e) < dir_slots ix" using index_entry(1) [OF assms i(2)] by (simp add: entry_ok_def)
    then show ?thesis using i by (intro image_eqI [of _ _ "unat (dn_slot e)"]) simp_all
  qed
  then show ?thesis by (meson finite_lessThan finite_imageI finite_subset subsetI)
qed

lemma count_remove:
  assumes "finite (dom m)" "m n = Some x"
  shows "(of_nat (card (dom (m(n := None)))) :: u32) = of_nat (card (dom m)) - 1"
proof -
  have "card (dom m) = Suc (card (dom m - {n}))" using card.remove [OF assms(1) domI, OF assms(2)] .
  then show ?thesis by (simp add: dom_fun_upd)
qed

text \<open>\<open>simplefs_unlink_internal\<close> after the index has been loaded.\<close>

definition unlink_rest :: "env \<Rightarrow> u32 \<Rightarrow> u8 list \<Rightarrow> u32 \<Rightarrow> (kst, status) state" where
  "unlink_rest E dir name ino = do {
     ix \<leftarrow> the_index dir;
     (case simplefs_dir_find ix name ino of
        Inl e \<Rightarrow> ret (Some e)
      | Inr (slot, _) \<Rightarrow> do {
          r \<leftarrow> simplefs_dir_set E dir slot 0 None;
          if r \<noteq> None then ret r
          else do {
            upd_index dir (\<lambda>ix. ix\<lparr>dx_nr_files := dx_nr_files ix - 1\<rparr>);
            touch_mctime E dir;
            lose_link ino;
            _ \<leftarrow> inode_set_ctime_current E ino;
            note_call (Mark_inode_dirty ino);
            r \<leftarrow> simplefs_persist_inode E ino;
            r \<leftarrow> then_if_ok r (simplefs_mark_dir_index_dirty E dir);
            (case r of None \<Rightarrow> ret () | Some e \<Rightarrow> simplefs_journal_fail e);
            ret r
          }
        })
   }"

lemma unlink_internal_steps:
  "simplefs_unlink_internal E dir name ino = do {
     r \<leftarrow> simplefs_dir_get E dir;
     if r \<noteq> None then ret r else unlink_rest E dir name ino }"
  by (simp only: simplefs_unlink_internal_def unlink_rest_def)

text \<open>What comes after the entry has been cleared changes no directory, or fails the file system.\<close>

lemma mark_dirty_wp: "wp (simplefs_mark_dir_index_dirty E dir) (\<lambda>r s'. case r of None \<Rightarrow> soft s s' | Some e \<Rightarrow> failed s') s"
proof -
  define F where "F r = (case r of None \<Rightarrow> ret None | Some e \<Rightarrow> do {
          upd_index dir (\<lambda>ix. ix\<lparr>dx_valid := False\<rparr>);
          simplefs_journal_fail e;
          ret (Some e) })" for r :: status
  have F: "wp (F r) (\<lambda>r s'. case r of None \<Rightarrow> soft s s' | Some e \<Rightarrow> failed s') t" if "soft s t" for r t
    using that by (cases r) (auto simp: F_def wp_return wp_bind wp_upd_index failed_def intro: fail_wp)
  have "keeps soft (do { note_call (Mark_inode_dirty dir); simplefs_persist_inode E dir })" by (intro frame_rules)
  then have "wp (do { note_call (Mark_inode_dirty dir); simplefs_persist_inode E dir }) (\<lambda>_. soft s) s" by (simp add: keeps_wp)
  then show ?thesis
    unfolding simplefs_mark_dir_index_dirty_def F_def [symmetric] wp_bind by (elim wp_mono) (rule F)
qed

end
