(* ===== verification/SFS_Mkfs.thy ===== *)
theory SFS_Mkfs
  imports SFS_Format
begin

text \<open>
  \<open>mkfs.simplefs\<close>: the layout computation, the initial images and the writers of
  \<open>mkfs_common.c\<close>, and the checks that read an image back.

  The file being formatted is a function from byte offsets to bytes with a current position. What the
  system calls and the allocator return is decided by an \<open>menv\<close>, which sees how many calls have
  been made, so any call can fail or be short. A pointer that the sources test for \<open>NULL\<close> is an
  option, or a truth value where only its presence matters. The host is little endian, which makes
  \<open>htole32\<close> and \<open>htole64\<close> the identity.
\<close>

section \<open>Layout\<close>

definition SIMPLEFS_MIN_SIZE :: u64 where "SIMPLEFS_MIN_SIZE = 409600"
definition SIMPLEFS_JOURNAL_BLOCKS :: u32 where "SIMPLEFS_JOURNAL_BLOCKS = 1024"

record mkfs_layout =
  l_nr_blocks :: u32
  l_nr_inodes :: u32
  l_nr_istore_blocks :: u32
  l_nr_ifree_blocks :: u32
  l_nr_bfree_blocks :: u32
  l_nr_journal_blocks :: u32
  l_nr_data_blocks :: u32
  l_first_data_block :: u32
  l_journal_start_block :: u32

definition idiv_ceil :: "u32 \<Rightarrow> u32 \<Rightarrow> u32" where
  "idiv_ceil a b = a div b + (if a mod b \<noteq> 0 then 1 else 0)"

definition mkfs_calculate_layout :: "u64 \<Rightarrow> u32 \<Rightarrow> bool \<Rightarrow> errno + mkfs_layout" where
  "mkfs_calculate_layout image_size bytes_per_inode layout_given =
     (if \<not> layout_given then Inl EINVAL
      else if image_size \<le> SIMPLEFS_MIN_SIZE then Inl E2BIG
      else if bytes_per_inode < 4096 \<or> bytes_per_inode mod 4096 \<noteq> 0 \<or> image_size div 4096 > 4294967295
      then Inl EINVAL
      else
        let nblocks = ucast (image_size div 4096);
            n0 = ucast (image_size div ucast bytes_per_inode) :: u32;
            n1 = (if n0 < 2 then 2 else n0);
            m = n1 mod 39
        in if m \<noteq> 0 \<and> n1 > 4294967295 - (39 - m) then Inl EFBIG
           else
             let ninodes = (if m \<noteq> 0 then n1 + (39 - m) else n1);
                 istore = idiv_ceil ninodes 39;
                 ifree = idiv_ceil ninodes 32768;
                 bfree = idiv_ceil nblocks 32768;
                 fixed_blocks = 1 + istore + ifree + bfree;
                 journal = (if nblocks > fixed_blocks + SIMPLEFS_JOURNAL_BLOCKS
                            then SIMPLEFS_JOURNAL_BLOCKS else 0)
             in Inr \<lparr>l_nr_blocks = nblocks, l_nr_inodes = ninodes, l_nr_istore_blocks = istore,
                  l_nr_ifree_blocks = ifree, l_nr_bfree_blocks = bfree, l_nr_journal_blocks = journal,
                  l_nr_data_blocks = nblocks - 1 - istore - ifree - bfree - journal,
                  l_first_data_block = 1 + istore + ifree + bfree,
                  l_journal_start_block = nblocks - journal\<rparr>)"

definition mkfs_validate_layout :: "mkfs_layout option \<Rightarrow> bool" where
  "mkfs_validate_layout layout =
     (case layout of
        None \<Rightarrow> False
      | Some L \<Rightarrow>
          if l_nr_blocks L = 0 then False
          else if l_nr_inodes L = 0 then False
          else if l_nr_data_blocks L = 0 then False
          else if 1 + l_nr_istore_blocks L + l_nr_ifree_blocks L + l_nr_bfree_blocks L \<ge> l_nr_blocks L
          then False
          else if (ucast (l_nr_istore_blocks L) :: u64) * 39 < ucast (l_nr_inodes L) then False
          else True)"

section \<open>Initial images\<close>

text \<open>
  The superblock is a whole block: \<open>struct simplefs_sb_info\<close> as user space sees it, then padding.
\<close>

definition mkfs_init_superblock :: "mkfs_layout \<Rightarrow> block" where
  "mkfs_init_superblock L =
     put32 0
       (put32 (l_journal_start_block L)
         (put32 (if l_nr_journal_blocks L > 0 then 1 else 0)
           (put32 (l_nr_data_blocks L - 1)
             (put32 (l_nr_inodes L - 2)
               (put32 (l_nr_bfree_blocks L)
                 (put32 (l_nr_ifree_blocks L)
                   (put32 (l_nr_istore_blocks L)
                     (put32 (l_nr_inodes L)
                       (put32 (l_nr_blocks L)
                         (put32 SIMPLEFS_DISK_MAGIC zero_block 0) 4) 8) 12) 16) 20) 24) 28) 32) 36) 108"

text \<open>
  \<open>struct simplefs_inode\<close>, 104 bytes. \<open>S_IFDIR\<close> with mode 0775 is \<open>0x41FD\<close>. The
  function writes the inode that starts at byte \<open>p\<close> of \<open>b\<close>.
\<close>

definition mkfs_init_root_inode :: "u32 \<Rightarrow> block \<Rightarrow> nat \<Rightarrow> block" where
  "mkfs_init_root_inode first_data_block b p =
     put32 first_data_block
       (put32 2
         (put32 1
           (put32 0 (put32 0 (put32 0 (put32 0 (put32 0 (put32 0
             (put32 0x41FD (mem_set b p 0 104) p)
             (p + 4)) (p + 8)) (p + 12)) (p + 16)) (p + 20)) (p + 24))
           (p + 40))
         (p + 44))
       (p + 48)"

definition put32_be :: "u32 \<Rightarrow> block \<Rightarrow> nat \<Rightarrow> block" where
  "put32_be v b p = b(p := ucast (drop_bit 24 v), p + 1 := ucast (drop_bit 16 v),
     p + 2 := ucast (drop_bit 8 v), p + 3 := ucast v)"

text \<open>The JBD2 superblock, big endian, in an otherwise zero block.\<close>

definition mkfs_init_journal_superblock :: "u32 \<Rightarrow> block" where
  "mkfs_init_journal_superblock journal_blocks =
     put32_be 1
       (put32_be 0
         (put32_be 1
           (put32_be 1
             (put32_be journal_blocks
               (put32_be 4096
                 (put32_be 0
                   (put32_be 4
                     (put32_be 0xC03B3998 zero_block 0) 4) 8) 12) 16) 20) 24) 28) 64"

definition mkfs_calc_ifree_value :: "u32 \<Rightarrow> u64" where
  "mkfs_calc_ifree_value block_idx =
     (if block_idx = 0 then 0xFFFFFFFFFFFFFFFC else 0xFFFFFFFFFFFFFFFF)"

text \<open>
  \<open>mkfs_calc_bfree_values\<close>: the inner loop clears one bit per used block, at most 64; the outer one
  fills at most \<open>max_values\<close> words. The result is the error, or the words that were stored.
\<close>

fun clear_used_bits :: "nat list \<Rightarrow> u64 \<Rightarrow> u32 \<Rightarrow> u64 \<times> u32" where
  "clear_used_bits [] val remaining = (val, remaining)"
| "clear_used_bits (k # ks) val remaining =
     (if remaining > 0 then clear_used_bits ks (and val (not (push_bit k 1))) (remaining - 1)
      else (val, remaining))"

fun bfree_words :: "nat \<Rightarrow> u32 \<Rightarrow> u64 list" where
  "bfree_words 0 remaining = []"
| "bfree_words (Suc n) remaining =
     (if remaining > 0
      then let (val, remaining') = clear_used_bits [0..<64] 0xFFFFFFFFFFFFFFFF remaining
           in val # bfree_words n remaining'
      else [])"

definition mkfs_calc_bfree_values :: "u32 \<Rightarrow> u32 \<Rightarrow> bool \<Rightarrow> int \<Rightarrow> errno + u64 list" where
  "mkfs_calc_bfree_values block_idx nr_used values_given max_values =
     (if \<not> values_given \<or> max_values < 1 then Inl EINVAL
      else
        let block_start_bit = block_idx * 32768
        in if block_start_bit \<ge> nr_used then Inr [0xFFFFFFFFFFFFFFFF]
           else Inr (bfree_words (nat max_values) (nr_used - block_start_bit)))"

section \<open>System calls\<close>

record mst =
  img :: "nat \<Rightarrow> u8"
  pos :: nat
  calls :: nat

datatype wres = W_all | W_short nat | W_err errno

record menv =
  m_lseek :: "nat \<Rightarrow> status"
  m_write :: "nat \<Rightarrow> wres"
  m_read :: "nat \<Rightarrow> wres"
  m_fsync :: "nat \<Rightarrow> status"
  m_alloc :: "nat \<Rightarrow> bool"

definition tick :: "mst \<Rightarrow> mst" where
  "tick s = s\<lparr>calls := Suc (calls s)\<rparr>"

definition sys_lseek :: "menv \<Rightarrow> nat \<Rightarrow> (mst, status) state" where
  "sys_lseek M offset = State (\<lambda>s. case m_lseek M (calls s) of
       None \<Rightarrow> (None, (tick s)\<lparr>pos := offset\<rparr>)
     | Some e \<Rightarrow> (Some e, tick s))"

definition patch :: "(nat \<Rightarrow> u8) \<Rightarrow> nat \<Rightarrow> nat \<Rightarrow> block \<Rightarrow> nat \<Rightarrow> u8" where
  "patch f p n b = (\<lambda>i. if p \<le> i \<and> i < p + n then b (i - p) else f i)"

text \<open>
  \<open>write\<close> of a whole block, with the error that the sources derive from its result: a short write
  stores a prefix and is reported as \<open>EIO\<close>.
\<close>

definition sys_write_block :: "menv \<Rightarrow> block \<Rightarrow> (mst, status) state" where
  "sys_write_block M b = State (\<lambda>s. case m_write M (calls s) of
       W_all \<Rightarrow> (None, (tick s)\<lparr>img := patch (img s) (pos s) 4096 b, pos := pos s + 4096\<rparr>)
     | W_short k \<Rightarrow> (Some EIO, (tick s)\<lparr>img := patch (img s) (pos s) (min k 4095) b,
                                 pos := pos s + min k 4095\<rparr>)
     | W_err e \<Rightarrow> (Some e, tick s))"

text \<open>\<open>read\<close> of \<open>n\<close> bytes at the current position.\<close>

definition sys_read :: "menv \<Rightarrow> nat \<Rightarrow> (mst, errno + block) state" where
  "sys_read M n = State (\<lambda>s. case m_read M (calls s) of
       W_all \<Rightarrow> (Inr (\<lambda>i. if i < n then img s (pos s + i) else 0), (tick s)\<lparr>pos := pos s + n\<rparr>)
     | W_short k \<Rightarrow> (Inl EIO, (tick s)\<lparr>pos := pos s + k\<rparr>)
     | W_err e \<Rightarrow> (Inl e, tick s))"

definition sys_fsync :: "menv \<Rightarrow> (mst, status) state" where
  "sys_fsync M = State (\<lambda>s. (m_fsync M (calls s), tick s))"

definition sys_alloc :: "menv \<Rightarrow> (mst, bool) state" where
  "sys_alloc M = State (\<lambda>s. (m_alloc M (calls s), tick s))"

text \<open>Whole blocks from a list, one write each, stopping at the first error.\<close>

fun write_blocks :: "menv \<Rightarrow> block list \<Rightarrow> (mst, status) state" where
  "write_blocks M [] = ret None"
| "write_blocks M (b # bs) = do {
     r \<leftarrow> sys_write_block M b;
     if r \<noteq> None then ret r else write_blocks M bs
   }"

section \<open>Writing the image\<close>

definition mkfs_write_superblock :: "menv \<Rightarrow> int \<Rightarrow> block option \<Rightarrow> (mst, status) state" where
  "mkfs_write_superblock M fd sb =
     (case sb of
        None \<Rightarrow> ret (Some EINVAL)
      | Some b \<Rightarrow>
          if fd < 0 then ret (Some EINVAL)
          else do {
            r \<leftarrow> sys_lseek M 0;
            if r \<noteq> None then ret r
            else do {
              r \<leftarrow> sys_write_block M b;
              if r \<noteq> None then ret r else sys_fsync M
            }
          })"

definition mkfs_write_journal :: "menv \<Rightarrow> int \<Rightarrow> mkfs_layout option \<Rightarrow> (mst, status) state" where
  "mkfs_write_journal M fd layout =
     (case layout of
        None \<Rightarrow> ret (Some EINVAL)
      | Some L \<Rightarrow>
          if fd < 0 then ret (Some EINVAL)
          else if l_nr_journal_blocks L = 0 then ret None
          else do {
            ok \<leftarrow> sys_alloc M;
            if \<not> ok then ret (Some ENOMEM)
            else do {
              r \<leftarrow> sys_lseek M (unat (l_journal_start_block L) * 4096);
              if r \<noteq> None then ret r
              else do {
                r \<leftarrow> write_blocks M (mkfs_init_journal_superblock (l_nr_journal_blocks L)
                       # replicate (unat (l_nr_journal_blocks L) - 1) zero_block);
                if r \<noteq> None then ret r else sys_fsync M
              }
            }
          })"

definition mkfs_write_inode_store :: "menv \<Rightarrow> int \<Rightarrow> mkfs_layout option \<Rightarrow> (mst, status) state" where
  "mkfs_write_inode_store M fd layout =
     (case layout of
        None \<Rightarrow> ret (Some EINVAL)
      | Some L \<Rightarrow>
          if fd < 0 then ret (Some EINVAL)
          else do {
            ok \<leftarrow> sys_alloc M;
            if \<not> ok then ret (Some ENOMEM)
            else do {
              r \<leftarrow> sys_lseek M 4096;
              if r \<noteq> None then ret r
              else write_blocks M (mkfs_init_root_inode (l_first_data_block L) zero_block 104
                     # replicate (unat (l_nr_istore_blocks L) - 1) zero_block)
            }
          })"

definition mkfs_init_root_index_block :: "menv \<Rightarrow> int \<Rightarrow> mkfs_layout option \<Rightarrow> (mst, status) state" where
  "mkfs_init_root_index_block M fd layout =
     (case layout of
        None \<Rightarrow> ret (Some EINVAL)
      | Some L \<Rightarrow>
          if fd < 0 then ret (Some EINVAL)
          else do {
            r \<leftarrow> sys_lseek M (unat (l_first_data_block L) * 4096);
            if r \<noteq> None then ret r
            else sys_write_block M (put32 SIMPLEFS_EXTENT_ROOT_MAGIC zero_block 0)
          })"

text \<open>The 512 words of block \<open>i\<close> of the inode bitmap, as bytes.\<close>

definition ifree_block :: "nat \<Rightarrow> block" where
  "ifree_block i = (\<lambda>k. ucast (drop_bit (8 * (k mod 8))
     (if i = 0 \<and> k div 8 = 0 then mkfs_calc_ifree_value 0 else 0xFFFFFFFFFFFFFFFF)))"

text \<open>
  The offset is computed as \<open>SIMPLEFS_BLOCK_SIZE * (1 + layout->nr_istore_blocks)\<close>, an
  \<open>int\<close> times a \<open>uint32_t\<close>, hence in 32 bits.
\<close>

definition ifree_offset :: "mkfs_layout \<Rightarrow> u32" where
  "ifree_offset L = 4096 * (1 + l_nr_istore_blocks L)"

definition mkfs_write_ifree_bitmap :: "menv \<Rightarrow> int \<Rightarrow> mkfs_layout option \<Rightarrow> (mst, status) state" where
  "mkfs_write_ifree_bitmap M fd layout =
     (case layout of
        None \<Rightarrow> ret (Some EINVAL)
      | Some L \<Rightarrow>
          if fd < 0 then ret (Some EINVAL)
          else do {
            ok \<leftarrow> sys_alloc M;
            if \<not> ok then ret (Some ENOMEM)
            else do {
              r \<leftarrow> sys_lseek M (unat (ifree_offset L));
              if r \<noteq> None then ret r
              else write_blocks M (map ifree_block [0..<unat (l_nr_ifree_blocks L)])
            }
          })"

definition mkfs_nr_used :: "mkfs_layout \<Rightarrow> u32" where
  "mkfs_nr_used L = 1 + l_nr_istore_blocks L + l_nr_ifree_blocks L + l_nr_bfree_blocks L + 1"

definition bfree_offset :: "mkfs_layout \<Rightarrow> u32" where
  "bfree_offset L = 4096 * (1 + l_nr_istore_blocks L + l_nr_ifree_blocks L)"

fun bfree_bits_loop :: "mkfs_layout \<Rightarrow> u32 \<Rightarrow> nat list \<Rightarrow> block \<Rightarrow> block" where
  "bfree_bits_loop L block_start [] b = b"
| "bfree_bits_loop L block_start (k # ks) b =
     (let block_no = block_start + of_nat k
      in if block_no \<ge> l_nr_blocks L then b
         else bfree_bits_loop L block_start ks
                (if block_no < mkfs_nr_used L
                    \<or> l_nr_journal_blocks L \<noteq> 0 \<and> block_no \<ge> l_journal_start_block L
                 then b(k div 8 := and (b (k div 8)) (not (push_bit (k mod 8) 1))) else b))"

definition bfree_block :: "mkfs_layout \<Rightarrow> nat \<Rightarrow> block" where
  "bfree_block L i = bfree_bits_loop L (of_nat i * 4096 * 8) [0..<32768] (\<lambda>_. 0xFF)"

definition mkfs_write_bfree_bitmap :: "menv \<Rightarrow> int \<Rightarrow> mkfs_layout option \<Rightarrow> (mst, status) state" where
  "mkfs_write_bfree_bitmap M fd layout =
     (case layout of
        None \<Rightarrow> ret (Some EINVAL)
      | Some L \<Rightarrow>
          if fd < 0 then ret (Some EINVAL)
          else do {
            ok \<leftarrow> sys_alloc M;
            if \<not> ok then ret (Some ENOMEM)
            else do {
              r \<leftarrow> sys_lseek M (unat (bfree_offset L));
              if r \<noteq> None then ret r
              else write_blocks M (map (bfree_block L) [0..<unat (l_nr_bfree_blocks L)])
            }
          })"

text \<open>
  \<open>mkfs_create_fs\<close>, without the texts of the error messages: the returned status is also what is
  stored in \<open>result->error_code\<close>.
\<close>

definition mkfs_create_fs :: "menv \<Rightarrow> int \<Rightarrow> u64 \<Rightarrow> u32 \<Rightarrow> bool \<Rightarrow> (mst, status) state" where
  "mkfs_create_fs M fd image_size bytes_per_inode result_given =
     (if \<not> result_given then ret (Some EINVAL)
      else case mkfs_calculate_layout image_size bytes_per_inode True of
        Inl e \<Rightarrow> ret (Some e)
      | Inr L \<Rightarrow>
          if \<not> mkfs_validate_layout (Some L) then ret (Some EINVAL)
          else do {
            r \<leftarrow> mkfs_write_superblock M fd (Some (mkfs_init_superblock L));
            r \<leftarrow> then_if_ok r (mkfs_write_inode_store M fd (Some L));
            r \<leftarrow> then_if_ok r (mkfs_init_root_index_block M fd (Some L));
            r \<leftarrow> then_if_ok r (mkfs_write_ifree_bitmap M fd (Some L));
            r \<leftarrow> then_if_ok r (mkfs_write_bfree_bitmap M fd (Some L));
            then_if_ok r (mkfs_write_journal M fd (Some L))
          })"

section \<open>Reading an image back\<close>

definition mkfs_verify_superblock :: "menv \<Rightarrow> int \<Rightarrow> mkfs_layout option \<Rightarrow> (mst, status) state" where
  "mkfs_verify_superblock M fd expected =
     (if fd < 0 then ret (Some EINVAL)
      else do {
        r \<leftarrow> sys_lseek M 0;
        if r \<noteq> None then ret r
        else do {
          r \<leftarrow> sys_read M 4096;
          (case r of
             Inl e \<Rightarrow> ret (Some e)
           | Inr sb \<Rightarrow>
               if get32 sb 0 \<noteq> SIMPLEFS_DISK_MAGIC then ret (Some EINVAL)
               else (case expected of
                  None \<Rightarrow> ret None
                | Some L \<Rightarrow>
                    if get32 sb 4 \<noteq> l_nr_blocks L then ret (Some EINVAL)
                    else if get32 sb 8 \<noteq> l_nr_inodes L then ret (Some EINVAL)
                    else if get32 sb 12 \<noteq> l_nr_istore_blocks L then ret (Some EINVAL)
                    else if get32 sb 16 \<noteq> l_nr_ifree_blocks L then ret (Some EINVAL)
                    else if get32 sb 20 \<noteq> l_nr_bfree_blocks L then ret (Some EINVAL)
                    else ret None))
        }
      })"

definition mkfs_verify_root_inode :: "menv \<Rightarrow> int \<Rightarrow> mkfs_layout option \<Rightarrow> (mst, status) state" where
  "mkfs_verify_root_inode M fd layout =
     (case layout of
        None \<Rightarrow> ret (Some EINVAL)
      | Some L \<Rightarrow>
          if fd < 0 then ret (Some EINVAL)
          else do {
            r \<leftarrow> sys_lseek M (4096 + 104);
            if r \<noteq> None then ret r
            else do {
              r \<leftarrow> sys_read M 104;
              (case r of
                 Inl e \<Rightarrow> ret (Some e)
               | Inr ino \<Rightarrow>
                   let mode = get32 ino 0
                   in if and mode 0xF000 \<noteq> 0x4000 then ret (Some EINVAL)
                      else if and mode 0x1FF \<noteq> 0x1FD then ret (Some EINVAL)
                      else if get32 ino 12 \<noteq> 4096 then ret (Some EINVAL)
                      else if get32 ino 44 \<noteq> 2 then ret (Some EINVAL)
                      else if get32 ino 48 \<noteq> l_first_data_block L then ret (Some EINVAL)
                      else ret None)
            }
          })"

end
