(* ===== verification/SFS_MkfsLayout.thy ===== *)
theory SFS_MkfsLayout
  imports SFS_Mkfs
begin

text \<open>
  The layout that \<open>mkfs_calculate_layout\<close> computes: it never wraps, divides the device into
  consecutive areas that are large enough, and is accepted by \<open>mkfs_validate_layout\<close>.
\<close>

definition ceil_div :: "nat \<Rightarrow> nat \<Rightarrow> nat" where
  "ceil_div a b = a div b + (if a mod b \<noteq> 0 then 1 else 0)"

lemma ceil_div_bounds:
  assumes "0 < b"
  shows "a \<le> b * ceil_div a b \<and> b * ceil_div a b < a + b"
proof -
  have a: "a = b * (a div b) + a mod b" by simp
  have r: "a mod b < b" using assms by simp
  show ?thesis
  proof (cases "a mod b = 0")
    case True
    then have "b * ceil_div a b = a" using a by (simp add: ceil_div_def)
    then show ?thesis using assms by simp
  next
    case False
    then have "b * ceil_div a b = b * (a div b) + b" by (simp add: ceil_div_def)
    then show ?thesis using a r False by linarith
  qed
qed

lemma unat_idiv_ceil:
  fixes a b :: u32
  assumes "2 \<le> unat b"
  shows "unat (idiv_ceil a b) = ceil_div (unat a) (unat b)"
proof -
  have "unat a div unat b < 2147483648"
    using assms unat_lt_u32 [of a] by (simp add: div_less_iff_less_mult del: unat_lt_u32)
  then have "unat (a div b) + unat (1 :: u32) < 4294967296" by (simp add: unat_div)
  moreover have "(a mod b \<noteq> 0) = (unat a mod unat b \<noteq> 0)" by (simp add: unat_mod [symmetric] unat_eq_zero)
  ultimately show ?thesis
    by (simp add: idiv_ceil_def ceil_div_def unat_div unat_add_no_wrap)
qed

text \<open>The same layout in natural numbers.\<close>

definition nat_inodes :: "nat \<Rightarrow> nat \<Rightarrow> nat" where
  "nat_inodes sz bpi = 39 * ceil_div (max 2 (sz div bpi)) 39"

definition layout_is :: "mkfs_layout \<Rightarrow> nat \<Rightarrow> nat \<Rightarrow> nat \<Rightarrow> nat \<Rightarrow> nat \<Rightarrow> nat \<Rightarrow> bool" where
  "layout_is L n ni s f b j \<longleftrightarrow>
     unat (l_nr_blocks L) = n \<and> unat (l_nr_inodes L) = ni \<and> unat (l_nr_istore_blocks L) = s \<and>
     unat (l_nr_ifree_blocks L) = f \<and> unat (l_nr_bfree_blocks L) = b \<and> unat (l_nr_journal_blocks L) = j \<and>
     unat (l_first_data_block L) = 1 + s + f + b \<and> unat (l_journal_start_block L) = n - j \<and>
     unat (l_nr_data_blocks L) = n - (1 + s + f + b) - j"

lemma fixed_lt:
  assumes "100 \<le> n" "ni < max 2 m + 39" "m \<le> (n :: nat)" "39 * s < ni + 39" "32768 * f < ni + 32768"
    and "32768 * b < n + 32768"
  shows "1 + s + f + b < n"
proof -
  have "39 * s < n + 78" using assms by linarith
  then have s: "39 * (1 + s) \<le> n + 116" by simp
  have f: "32768 * f \<le> n + 32806" using assms by linarith
  have b: "32768 * b \<le> n + 32767" using assms by linarith
  have "1 + s \<le> (n + 116) div 39" using s by (simp add: less_eq_div_iff_mult_less_eq mult.commute)
  moreover have "f + b \<le> (2 * n + 65573) div 32768"
    using f b by (simp add: less_eq_div_iff_mult_less_eq mult.commute)
  moreover have "(n + 116) div 39 + (2 * n + 65573) div 32768 < n" using assms(1) by linarith
  ultimately show ?thesis by linarith
qed

lemma unat_ucast_u32: "unat (x :: u64) < 4294967296 \<Longrightarrow> unat (ucast x :: u32) = unat x"
  by (simp add: unsigned_ucast_eq take_bit_nat_eq_self)

lemma unat_add3_u32:
  fixes a b c :: u32
  assumes "1 + unat a + unat b + unat c < 4294967296"
  shows "unat (1 + a + b + c) = 1 + unat a + unat b + unat c"
proof -
  have "unat (1 + a) = 1 + unat a" using assms by (subst unat_add_no_wrap) simp_all
  moreover from this have "unat (1 + a + b) = 1 + unat a + unat b"
    using assms by (subst unat_add_no_wrap) simp_all
  ultimately show ?thesis using assms by (subst unat_add_no_wrap) simp_all
qed

lemma unat_sub_nat:
  fixes x y :: u32
  assumes "unat y \<le> unat x"
  shows "unat (x - y) = unat x - unat y"
  using assms by (intro unat_sub_le) (simp add: word_le_nat_alt)

text \<open>The number of inodes after rounding up to whole blocks of the inode store.\<close>

lemma rounded_inodes:
  fixes n1 :: u32
  assumes "m = n1 mod 39" "\<not> (m \<noteq> 0 \<and> n1 > 4294967295 - (39 - m))"
  shows "unat (if m \<noteq> 0 then n1 + (39 - m) else n1) = 39 * ceil_div (unat n1) 39"
proof -
  have um: "unat m = unat n1 mod 39" using assms(1) by (simp add: unat_mod)
  show ?thesis
  proof (cases "m = 0")
    case True
    then have "unat n1 mod 39 = 0" using um by simp
    then show ?thesis using True by (auto simp: ceil_div_def)
  next
    case False
    then have nz: "unat n1 mod 39 \<noteq> 0" using um by (metis unat_eq_zero)
    have d: "unat (39 - m) = 39 - unat m" by (rule unat_sub_nat [of m 39, simplified]) (simp add: um less_imp_le)
    have le: "n1 \<le> 4294967295 - (39 - m)" using assms(2) False by (simp add: not_less)
    have "unat (4294967295 - (39 - m) :: u32) = 4294967295 - unat (39 - m)"
      using unat_sub_nat [of "39 - m" "4294967295 :: u32"] d by simp
    then have "unat n1 + unat (39 - m) < 4294967296" using le d by (simp add: word_le_nat_alt)
    then have "unat (n1 + (39 - m)) = unat n1 + (39 - unat n1 mod 39)"
      by (subst unat_add_no_wrap) (simp_all add: d um)
    moreover have "unat n1 = 39 * (unat n1 div 39) + unat n1 mod 39" by simp
    moreover have "unat n1 mod 39 < 39" by simp
    ultimately have "unat (n1 + (39 - m)) = 39 * (unat n1 div 39) + 39" by linarith
    then show ?thesis using False nz by (simp add: ceil_div_def)
  qed
qed

definition nat_fixed :: "nat \<Rightarrow> nat \<Rightarrow> nat" where
  "nat_fixed n ni = 1 + ceil_div ni 39 + ceil_div ni 32768 + ceil_div n 32768"

definition nat_journal :: "nat \<Rightarrow> nat \<Rightarrow> nat" where
  "nat_journal n ni = (if nat_fixed n ni + 1024 < n then 1024 else 0)"

lemma nat_fixed_lt:
  assumes "100 \<le> n" "m \<le> n"
  shows "nat_fixed n (39 * ceil_div (max 2 m) 39) < n"
proof -
  let ?ni = "39 * ceil_div (max 2 m) 39"
  have "?ni < max 2 m + 39" using ceil_div_bounds [of 39 "max 2 m"] by simp
  then show ?thesis
    unfolding nat_fixed_def using fixed_lt [OF assms(1) _ assms(2)] ceil_div_bounds [of 39 ?ni]
      ceil_div_bounds [of 32768 ?ni] ceil_div_bounds [of 32768 n] by simp
qed

lemma layout_words:
  assumes n: "unat nblocks = n" and ni: "unat ninodes = ni" and fixed: "nat_fixed n ni < n"
    and j: "journal = (if nblocks > (1 + idiv_ceil ninodes 39 + idiv_ceil ninodes 32768 + idiv_ceil nblocks 32768)
        + SIMPLEFS_JOURNAL_BLOCKS then SIMPLEFS_JOURNAL_BLOCKS else 0)"
  shows "layout_is \<lparr>l_nr_blocks = nblocks, l_nr_inodes = ninodes, l_nr_istore_blocks = idiv_ceil ninodes 39,
       l_nr_ifree_blocks = idiv_ceil ninodes 32768, l_nr_bfree_blocks = idiv_ceil nblocks 32768,
       l_nr_journal_blocks = journal,
       l_nr_data_blocks = nblocks - 1 - idiv_ceil ninodes 39 - idiv_ceil ninodes 32768
         - idiv_ceil nblocks 32768 - journal,
       l_first_data_block = 1 + idiv_ceil ninodes 39 + idiv_ceil ninodes 32768 + idiv_ceil nblocks 32768,
       l_journal_start_block = nblocks - journal\<rparr>
     n ni (ceil_div ni 39) (ceil_div ni 32768) (ceil_div n 32768) (nat_journal n ni)"
proof -
  let ?s = "idiv_ceil ninodes 39" and ?f = "idiv_ceil ninodes 32768" and ?b = "idiv_ceil nblocks 32768"
  let ?fx = "1 + ?s + ?f + ?b"
  have s: "unat ?s = ceil_div ni 39" and f: "unat ?f = ceil_div ni 32768" and b: "unat ?b = ceil_div n 32768"
    using n ni by (simp_all add: unat_idiv_ceil)
  have lt: "n < 4294967296" using n unat_lt_u32 [of nblocks] by simp
  have fx: "unat ?fx = nat_fixed n ni"
    using unat_add3_u32 [of ?s ?f ?b] fixed lt s f b by (simp add: nat_fixed_def)
  have small: "ceil_div ni 39 \<le> 4294967295 div 39 + 1" "ceil_div ni 32768 \<le> 131072" "ceil_div n 32768 \<le> 131072"
    using ceil_div_bounds [of 39 ni] ceil_div_bounds [of 32768 ni] ceil_div_bounds [of 32768 n] lt
      ni unat_lt_u32 [of ninodes] by auto
  have "unat (?fx + SIMPLEFS_JOURNAL_BLOCKS) = nat_fixed n ni + 1024"
    using fx small by (subst unat_add_no_wrap) (simp_all add: SIMPLEFS_JOURNAL_BLOCKS_def nat_fixed_def)
  then have uj: "unat journal = nat_journal n ni"
    using j n by (auto simp: nat_journal_def word_less_nat_alt SIMPLEFS_JOURNAL_BLOCKS_def)
  have jn: "nat_fixed n ni + nat_journal n ni \<le> n" using fixed by (simp add: nat_journal_def)
  have eq: "nblocks - 1 - ?s - ?f - ?b - journal = nblocks - ?fx - journal" by (simp add: algebra_simps)
  have "unat (nblocks - ?fx) = n - nat_fixed n ni"
    using unat_sub_nat [of ?fx nblocks] fx n fixed by simp
  then have "unat (nblocks - 1 - ?s - ?f - ?b - journal) = n - nat_fixed n ni - nat_journal n ni"
    using unat_sub_nat [of journal "nblocks - ?fx"] uj jn unfolding eq by simp
  moreover have "unat (nblocks - journal) = n - nat_journal n ni"
    using unat_sub_nat [of journal nblocks] uj n jn by simp
  ultimately show ?thesis
    using n ni s f b uj fx by (simp add: layout_is_def nat_fixed_def)
qed

lemma calculate_layout_nat:
  assumes "mkfs_calculate_layout sz bpi g = Inr L"
  defines "n \<equiv> unat sz div 4096" and "ni \<equiv> nat_inodes (unat sz) (unat bpi)"
  shows "layout_is L n ni (ceil_div ni 39) (ceil_div ni 32768) (ceil_div n 32768) (nat_journal n ni)
    \<and> nat_fixed n ni < n \<and> 100 \<le> n \<and> ni < 4294967296"
proof -
  define n1 where "n1 = (if (ucast (sz div ucast bpi) :: u32) < 2 then 2 else ucast (sz div ucast bpi) :: u32)"
  define m where "m = n1 mod 39"
  have c: "409600 < sz" "4096 \<le> bpi" "sz div 4096 \<le> 4294967295" "\<not> (m \<noteq> 0 \<and> n1 > 4294967295 - (39 - m))"
    using assms(1) by (auto simp: mkfs_calculate_layout_def SIMPLEFS_MIN_SIZE_def Let_def n1_def m_def not_less not_le
        split: if_splits)
  have L: "L = (let nblocks = ucast (sz div 4096);
             ninodes = (if m \<noteq> 0 then n1 + (39 - m) else n1);
             istore = idiv_ceil ninodes 39;
             ifree = idiv_ceil ninodes 32768;
             bfree = idiv_ceil nblocks 32768;
             fixed_blocks = 1 + istore + ifree + bfree;
             journal = (if nblocks > fixed_blocks + SIMPLEFS_JOURNAL_BLOCKS
                        then SIMPLEFS_JOURNAL_BLOCKS else 0)
         in \<lparr>l_nr_blocks = nblocks, l_nr_inodes = ninodes, l_nr_istore_blocks = istore,
              l_nr_ifree_blocks = ifree, l_nr_bfree_blocks = bfree, l_nr_journal_blocks = journal,
              l_nr_data_blocks = nblocks - 1 - istore - ifree - bfree - journal,
              l_first_data_block = 1 + istore + ifree + bfree,
              l_journal_start_block = nblocks - journal\<rparr>)"
    using assms(1) unfolding mkfs_calculate_layout_def
    by (simp only: Let_def n1_def m_def split: if_splits) simp_all
  have n: "unat (ucast (sz div 4096) :: u32) = n"
    using c(3) unat_ucast_u32 [of "sz div 4096"] by (simp add: n_def unat_div word_le_nat_alt)
  have "100 \<le> n" using c(1) by (simp add: n_def word_less_nat_alt less_eq_div_iff_mult_less_eq)
  have m_le: "unat sz div unat bpi \<le> n"
    unfolding n_def using c(2) by (intro div_le_mono2) (simp_all add: word_le_nat_alt)
  moreover have "n < 4294967296" using n unat_lt_u32 [of "ucast (sz div 4096) :: u32"] by linarith
  ultimately have "unat (ucast (sz div ucast bpi) :: u32) = unat sz div unat bpi"
    by (subst unat_ucast_u32) (simp_all add: unat_div)
  then have n1: "unat n1 = max 2 (unat sz div unat bpi)"
    by (auto simp: n1_def word_less_nat_alt)
  have ni: "unat (if m \<noteq> 0 then n1 + (39 - m) else n1) = ni"
    using rounded_inodes [OF m_def c(4)] n1 by (simp add: ni_def nat_inodes_def)
  have fx: "nat_fixed n ni < n"
    unfolding ni_def nat_inodes_def by (rule nat_fixed_lt [OF \<open>100 \<le> n\<close> m_le])
  have "ni < 4294967296" using ni unat_lt_u32 [of "if m \<noteq> 0 then n1 + (39 - m) else n1"] by linarith
  then show ?thesis using layout_words [OF n ni fx refl] fx \<open>100 \<le> n\<close> unfolding L Let_def by blast
qed

section \<open>Properties of the layout\<close>

lemma nat_inodes_cap: "ni = nat_inodes sz bpi \<Longrightarrow> 2 \<le> ni \<and> 39 * ceil_div ni 39 = ni"
  using ceil_div_bounds [of 39 "max 2 (sz div bpi)"] by (auto simp: nat_inodes_def ceil_div_def)

lemma validate_layout_is:
  assumes "layout_is L n ni s f b j" "1 + s + f + b < n" "1 + s + f + b + j < n" "ni = 39 * s" "2 \<le> ni"
  shows "mkfs_validate_layout (Some L)"
proof -
  note d = assms(1) [unfolded layout_is_def]
  have nz: "l_nr_blocks L \<noteq> 0" "l_nr_inodes L \<noteq> 0" "l_nr_data_blocks L \<noteq> 0"
    using d assms by auto
  have "n < 4294967296" using d unat_lt_u32 [of "l_nr_blocks L"] by linarith
  then have "unat (1 + l_nr_istore_blocks L + l_nr_ifree_blocks L + l_nr_bfree_blocks L) = 1 + s + f + b"
    using unat_add3_u32 [of "l_nr_istore_blocks L" "l_nr_ifree_blocks L" "l_nr_bfree_blocks L"] d assms(2) by simp
  then have used: "\<not> l_nr_blocks L \<le> 1 + l_nr_istore_blocks L + l_nr_ifree_blocks L + l_nr_bfree_blocks L"
    using d assms(2) by (simp add: word_le_nat_alt)
  have "unat ((ucast (l_nr_istore_blocks L) :: u64) * 39) = s * 39"
    using d unat_lt_u32 [of "l_nr_inodes L"] assms(4) by (simp add: unat_word_ariths)
  then have "\<not> (ucast (l_nr_istore_blocks L) :: u64) * 39 < ucast (l_nr_inodes L)"
    using d assms(4) by (simp add: word_less_nat_alt)
  then show ?thesis using nz used by (simp add: mkfs_validate_layout_def)
qed

lemma partition_layout_is:
  assumes "layout_is L n ni s f b j" "1 + s + f + b + j < n" "j \<in> {0, 1024}"
  shows "1 + unat (l_nr_istore_blocks L) + unat (l_nr_ifree_blocks L) + unat (l_nr_bfree_blocks L)
        + unat (l_nr_data_blocks L) + unat (l_nr_journal_blocks L) = n
    \<and> unat (l_journal_start_block L) = unat (l_first_data_block L) + unat (l_nr_data_blocks L)
    \<and> 1 \<le> unat (l_nr_data_blocks L)"
  using assms by (auto simp: layout_is_def)

lemma data_room: "nat_fixed n ni < n \<Longrightarrow> nat_fixed n ni + nat_journal n ni < n"
  by (auto simp: nat_journal_def)

text \<open>
  C26. Every layout that \<open>mkfs_calculate_layout\<close> produces is accepted by
  \<open>mkfs_validate_layout\<close> and divides the device into consecutive areas without overlap or gap:
  superblock, inode store, inode bitmap, block bitmap, data and journal blocks sum up to all blocks of
  the image, the data area starts right after the bitmaps and ends where the journal starts, and has at
  least one block. The inode store holds exactly all inodes, and each bitmap has a bit for each of its
  objects. No 32-bit computation in it wraps.
\<close>
theorem mkfs_layout_partition:
  assumes "mkfs_calculate_layout sz bpi g = Inr L"
  shows "mkfs_validate_layout (Some L)
    \<and> 1 + unat (l_nr_istore_blocks L) + unat (l_nr_ifree_blocks L) + unat (l_nr_bfree_blocks L)
        + unat (l_nr_data_blocks L) + unat (l_nr_journal_blocks L) = unat sz div 4096
    \<and> unat (l_nr_blocks L) = unat sz div 4096
    \<and> unat (l_first_data_block L) = 1 + unat (l_nr_istore_blocks L) + unat (l_nr_ifree_blocks L) + unat (l_nr_bfree_blocks L)
    \<and> unat (l_journal_start_block L) = unat (l_first_data_block L) + unat (l_nr_data_blocks L)
    \<and> 1 \<le> unat (l_nr_data_blocks L)
    \<and> unat (l_nr_inodes L) = 39 * unat (l_nr_istore_blocks L) \<and> 2 \<le> unat (l_nr_inodes L)
    \<and> unat (l_nr_inodes L) \<le> 32768 * unat (l_nr_ifree_blocks L)
    \<and> unat (l_nr_blocks L) \<le> 32768 * unat (l_nr_bfree_blocks L)
    \<and> unat (l_nr_journal_blocks L) \<in> {0, 1024}"
proof -
  let ?n = "unat sz div 4096" and ?ni = "nat_inodes (unat sz) (unat bpi)"
  note nat = calculate_layout_nat [OF assms]
  note cap = nat_inodes_cap [OF refl, of "unat sz" "unat bpi"]
  have room: "nat_fixed ?n ?ni + nat_journal ?n ?ni < ?n" using data_room nat by blast
  have "mkfs_validate_layout (Some L)"
    by (rule validate_layout_is [OF conjunct1 [OF nat]])
      (use nat room cap in \<open>auto simp: nat_fixed_def\<close>)
  moreover note partition_layout_is [OF conjunct1 [OF nat]]
  ultimately show ?thesis
    using nat room cap ceil_div_bounds [of 32768 ?ni] ceil_div_bounds [of 32768 ?n]
    by (auto simp: layout_is_def [of L] nat_fixed_def nat_journal_def)
qed

theorem mkfs_layout_partition_witness:
  "(case mkfs_calculate_layout 26214400 16384 True of
      Inr L \<Rightarrow> mkfs_validate_layout (Some L) \<and> unat (l_nr_blocks L) = 6400
    | Inl e \<Rightarrow> False)"
proof -
  have "isl (mkfs_calculate_layout 26214400 16384 True) = False"
    by (simp add: mkfs_calculate_layout_def SIMPLEFS_MIN_SIZE_def Let_def)
  then obtain L where "mkfs_calculate_layout 26214400 16384 True = Inr L"
    by (cases "mkfs_calculate_layout 26214400 16384 True") simp_all
  then show ?thesis using mkfs_layout_partition [of 26214400 16384 True L] by simp
qed

lemma rounding_overflow:
  fixes n1 :: u32
  assumes "m = n1 mod 39"
  shows "(m \<noteq> 0 \<and> n1 > 4294967295 - (39 - m)) = (4294967296 \<le> 39 * ceil_div (unat n1) 39)"
proof (cases "m \<noteq> 0 \<and> n1 > 4294967295 - (39 - m)")
  case False
  have "unat (if m \<noteq> 0 then n1 + (39 - m) else n1) < 4294967296" by (rule unat_lt_u32)
  then have "39 * ceil_div (unat n1) 39 < 4294967296"
    using rounded_inodes [OF assms False] by linarith
  then show ?thesis using False by linarith
next
  case True
  have um: "unat m = unat n1 mod 39" using assms by (simp add: unat_mod)
  have d: "unat (39 - m) = 39 - unat m" by (rule unat_sub_nat [of m 39, simplified]) (simp add: um less_imp_le)
  have "unat (4294967295 - (39 - m) :: u32) = 4294967295 - unat (39 - m)"
    using unat_sub_nat [of "39 - m" "4294967295 :: u32"] d by simp
  then have "4294967295 - (39 - unat n1 mod 39) < unat n1"
    using True d um unfolding word_less_nat_alt by simp
  then have "4294967295 < unat n1 + (39 - unat n1 mod 39)" by linarith
  moreover have "unat n1 = 39 * (unat n1 div 39) + unat n1 mod 39" "unat n1 mod 39 < 39" by simp_all
  moreover have "unat n1 mod 39 \<noteq> 0" using True um by (metis unat_eq_zero)
  then have "39 * ceil_div (unat n1) 39 = 39 * (unat n1 div 39) + 39" by (simp add: ceil_div_def)
  ultimately have "4294967296 \<le> 39 * ceil_div (unat n1) 39" by linarith
  then show ?thesis using True by simp
qed



end
