(* ===== verification/SFS_MkfsImage.thy ===== *)
theory SFS_MkfsImage
  imports SFS_MkfsLayout
begin

text \<open>
  What a successful \<open>mkfs_create_fs\<close> has written: the superblock, the inode store with the root
  inode, both bitmaps, the extent root of the root directory and the journal, each in its area.
\<close>

section \<open>Bits of the initial bitmaps\<close>

lemma bit_calc_ifree: "bit (mkfs_calc_ifree_value 0) n \<longleftrightarrow> 2 \<le> n \<and> n < 64"
proof -
  have "mkfs_calc_ifree_value 0 = not (mask 2)" by (simp add: mkfs_calc_ifree_value_def mask_eq_exp_minus_1)
  then show ?thesis by (auto simp: bit_not_iff bit_mask_iff)
qed

lemma bit_all_ones: "bit (0xFFFFFFFFFFFFFFFF :: u64) n \<longleftrightarrow> n < 64"
proof -
  have "(0xFFFFFFFFFFFFFFFF :: u64) = - 1" by simp
  then show ?thesis by (simp only: bit_minus_1_iff) simp
qed

lemma block_bit_ifree:
  assumes "k < 32768"
  shows "block_bit (ifree_block i) k \<longleftrightarrow> \<not> (i = 0 \<and> k < 2)"
proof -
  let ?n = "8 * (k div 8 mod 8) + k mod 8"
  have lt: "?n < 64" by (rule less_le_trans [of _ "8 * 7 + 8"]) (simp_all add: add_le_less_mono less_Suc_eq_le [symmetric])
  have small: "?n = k" if "k div 8 = 0" using that by auto
  show ?thesis
  proof (cases "i = 0 \<and> k div 8 div 8 = 0")
    case True
    then have "k div 8 < 8" by auto
    then have n: "?n = k" by simp
    have "k div 8 div 8 = 0" using True by simp
    moreover have "k mod 8 < LENGTH(8)" by simp
    ultimately show ?thesis using True lt n
      by (simp only: block_bit_def ifree_block_def bit_ucast_iff bit_drop_bit_eq comp_def if_True
          simp_thms bit_calc_ifree add.commute [of "k mod 8"]) auto
  next
    case False
    have "\<not> (i = 0 \<and> k < 2)" "k mod 8 < LENGTH(8)" using False by auto
    then show ?thesis using lt
      by (simp only: block_bit_def ifree_block_def bit_ucast_iff bit_drop_bit_eq comp_def False if_False
          bit_all_ones add.commute [of "k mod 8"]) auto
  qed
qed

lemma block_bit_clear:
  "block_bit (b(k div 8 := and (b (k div 8)) (not (push_bit (k mod 8) 1)))) j \<longleftrightarrow> block_bit b j \<and> j \<noteq> k"
proof -
  have "j = k" if "j div 8 = k div 8" "j mod 8 = k mod 8" using that by (metis div_mult_mod_eq)
  then show ?thesis by (auto simp: block_bit_def bit_and_iff bit_not_iff bit_push_bit_iff bit_exp_iff)
qed

text \<open>Which blocks mkfs marks as used.\<close>

definition mkfs_used :: "mkfs_layout \<Rightarrow> nat \<Rightarrow> bool" where
  "mkfs_used L i \<longleftrightarrow> i < unat (mkfs_nr_used L) \<or>
     l_nr_journal_blocks L \<noteq> 0 \<and> unat (l_journal_start_block L) \<le> i"

lemma bfree_bits_loop_bit:
  assumes "unat start + k0 < 4294967296" "k0 \<le> m" "j < m"
  shows "block_bit (bfree_bits_loop L start [k0..<m] b) j \<longleftrightarrow>
     block_bit b j \<and> \<not> (k0 \<le> j \<and> unat start + j < unat (l_nr_blocks L) \<and> mkfs_used L (unat start + j))"
  using assms
proof (induction "m - k0" arbitrary: k0 b)
  case (Suc n)
  let ?w = "start + of_nat k0 :: u32"
  have cons: "[k0..<m] = k0 # [Suc k0..<m]" using Suc.hyps(2) by (simp add: upt_conv_Cons)
  have k0: "unat (of_nat k0 :: u32) = k0" using Suc.prems(1) by (intro unat_of_nat_u32) simp
  have w: "unat ?w = unat start + k0" using Suc.prems(1) k0 by (subst unat_add_no_wrap) simp_all
  let ?b = "if ?w < mkfs_nr_used L \<or> l_nr_journal_blocks L \<noteq> 0 \<and> ?w \<ge> l_journal_start_block L
    then b(k0 div 8 := and (b (k0 div 8)) (not (push_bit (k0 mod 8) 1))) else b"
  show ?case
  proof (cases "l_nr_blocks L \<le> ?w")
    case True
    then show ?thesis using w by (auto simp: cons Let_def word_le_nat_alt)
  next
    case False
    then have lt: "unat start + k0 < unat (l_nr_blocks L)" using w by (simp add: word_le_nat_alt)
    have used: "mkfs_used L (unat start + k0) \<longleftrightarrow>
        ?w < mkfs_nr_used L \<or> l_nr_journal_blocks L \<noteq> 0 \<and> ?w \<ge> l_journal_start_block L"
      using w by (simp add: mkfs_used_def word_less_nat_alt word_le_nat_alt)
    have bit: "block_bit ?b j \<longleftrightarrow> block_bit b j \<and> \<not> (j = k0 \<and> mkfs_used L (unat start + k0))"
      unfolding used using block_bit_clear [of b k0 j] by auto
    have "unat start + Suc k0 < 4294967296" using lt unat_lt_u32 [of "l_nr_blocks L"] by linarith
    then have "block_bit (bfree_bits_loop L start [Suc k0..<m] ?b) j \<longleftrightarrow> block_bit ?b j \<and>
        \<not> (Suc k0 \<le> j \<and> unat start + j < unat (l_nr_blocks L) \<and> mkfs_used L (unat start + j))"
      using Suc.hyps Suc.prems by simp
    moreover have "bfree_bits_loop L start [k0..<m] b = bfree_bits_loop L start [Suc k0..<m] ?b"
      using False by (simp add: cons Let_def)
    ultimately show ?thesis using bit lt by (cases "j = k0") auto
  qed
qed auto

lemma block_bit_bfree:
  assumes "i * 32768 < 4294967296" "k < 32768"
  shows "block_bit (bfree_block L i) k \<longleftrightarrow>
    \<not> (i * 32768 + k < unat (l_nr_blocks L) \<and> mkfs_used L (i * 32768 + k))"
proof -
  have "of_nat i * 4096 * 8 = (of_nat (i * 32768) :: u32)" by simp
  then have s: "unat (of_nat i * 4096 * 8 :: u32) = i * 32768"
    using unat_of_nat_u32 [of "i * 32768"] assms(1) by (simp add: mult.commute)
  have "block_bit (\<lambda>_. 0xFF) k"
  proof -
    have "(0xFF :: u8) = - 1" by simp
    then show ?thesis unfolding block_bit_def by (simp only: bit_minus_1_iff) simp
  qed
  then show ?thesis
    unfolding bfree_block_def using bfree_bits_loop_bit [of "of_nat i * 4096 * 8" 0 32768 k L] assms s by simp
qed

section \<open>Where the writers write\<close>

text \<open>A list of blocks written over the file from byte \<open>p\<close> on.\<close>

definition overlay :: "(nat \<Rightarrow> u8) \<Rightarrow> nat \<Rightarrow> block list \<Rightarrow> nat \<Rightarrow> u8" where
  "overlay f p bs = (\<lambda>i. if p \<le> i \<and> i < p + 4096 * length bs
     then (bs ! ((i - p) div 4096)) ((i - p) mod 4096) else f i)"

lemma overlay_Nil: "overlay f p [] = f"
  by (auto simp: overlay_def fun_eq_iff)

lemma overlay_Cons: "overlay f p (b # bs) = overlay (patch f p 4096 b) (p + 4096) bs"
proof
  fix i
  show "overlay f p (b # bs) i = overlay (patch f p 4096 b) (p + 4096) bs i"
  proof (cases "p \<le> i \<and> i < p + 4096")
    case True
    then have "i - p < 4096" by linarith
    then have "(i - p) div 4096 = 0" "(i - p) mod 4096 = i - p" by simp_all
    then show ?thesis using True by (simp add: overlay_def patch_def)
  next
    case False
    show ?thesis
    proof (cases "p + 4096 \<le> i")
      case True
      then have "i - p = (i - (p + 4096)) + 4096" by simp
      then have "(i - p) div 4096 = Suc ((i - (p + 4096)) div 4096)"
          "(i - p) mod 4096 = (i - (p + 4096)) mod 4096"
        by (simp_all only: div_add_self2 mod_add_self2)
      then show ?thesis using True by (auto simp: overlay_def patch_def)
    qed (use False in \<open>auto simp: overlay_def patch_def\<close>)
  qed
qed

lemma write_blocks_spec:
  "wp (write_blocks M bs) (\<lambda>r s'. r = None \<longrightarrow> img s' = overlay (img s) (pos s) bs) s"
proof (induction bs arbitrary: s)
  case (Cons b bs)
  show ?case
    unfolding write_blocks.simps wp_bind
    by (auto simp: sys_write_block_def wp_def [of "State _"] tick_def wp_simps overlay_Cons
        split: wres.splits intro: wp_mono [OF Cons.IH])
qed (simp add: wp_simps overlay_Nil)

definition block_at :: "(nat \<Rightarrow> u8) \<Rightarrow> nat \<Rightarrow> block" where
  "block_at f n = (\<lambda>k. f (4096 * n + k))"

lemma block_at_overlay:
  assumes "k < 4096"
  shows "block_at (overlay f (4096 * q) bs) n k =
    (if q \<le> n \<and> n < q + length bs then (bs ! (n - q)) k else block_at f n k)"
proof -
  have "4096 * n + k - 4096 * q = 4096 * (n - q) + k" if "q \<le> n" using that by (simp add: algebra_simps)
  moreover have "(4096 * (n - q) + k) div 4096 = n - q" "(4096 * (n - q) + k) mod 4096 = k" using assms by simp_all
  ultimately show ?thesis using assms by (auto simp: block_at_def overlay_def)
qed

definition over :: "(mst, status) state \<Rightarrow> nat \<Rightarrow> block list \<Rightarrow> bool" where
  "over m p bs \<longleftrightarrow> (\<forall>s. wp m (\<lambda>r s'. r = None \<longrightarrow> img s' = overlay (img s) p bs) s)"

lemma seek_write_over:
  assumes "\<And>s. wp k (\<lambda>r s'. r = None \<longrightarrow> img s' = img s) s"
  shows "over (do { r \<leftarrow> sys_lseek M p; if r \<noteq> None then ret r else do {
      r \<leftarrow> write_blocks M bs; if r \<noteq> None then ret r else k } }) p bs"
proof -
  have after: "wp (if r \<noteq> None then ret r else k) (\<lambda>r s'. r = None \<longrightarrow> img s' = overlay f p bs) s"
    if "r = None \<longrightarrow> img s = overlay f p bs" for r s f
    using that wp_mono [OF assms [of s]] by (cases r) (auto simp: wp_simps)
  have "wp (write_blocks M bs) (\<lambda>r. wp (if r \<noteq> None then ret r else k)
      (\<lambda>r s'. r = None \<longrightarrow> img s' = overlay (img s) p bs)) ((tick s)\<lparr>pos := p\<rparr>)" for s
    by (rule wp_mono [OF write_blocks_spec]) (rule after, simp add: tick_def)
  then show ?thesis
    by (auto simp: over_def wp_bind sys_lseek_def wp_def [of "State _"] wp_return split: option.splits)
qed

lemma pass_status: "(\<lambda>r. if r \<noteq> None then ret r else ret None) = (\<lambda>r :: status. ret r :: (mst, status) state)"
  by (rule HOL.ext) simp

lemma seek_write_over0: "over (do { r \<leftarrow> sys_lseek M p; if r \<noteq> None then ret r else write_blocks M bs }) p bs"
  using seek_write_over [of "ret None" M p bs] unfolding pass_status wp_return
    bind_right_identity by blast

lemma write_one: "write_blocks M [b] = sys_write_block M b"
  unfolding write_blocks.simps pass_status by simp

lemma fsync_over: "wp (sys_fsync M) (\<lambda>r s'. r = None \<longrightarrow> img s' = img s) s"
  by (simp add: sys_fsync_def wp_def tick_def)

lemma alloc_over:
  assumes "over m p bs"
  shows "over (do { ok \<leftarrow> sys_alloc M; if \<not> ok then ret (Some e) else m }) p bs"
proof -
  have "img (tick s) = img s" for s by (simp add: tick_def)
  then have "wp m (\<lambda>r s'. r = None \<longrightarrow> img s' = overlay (img s) p bs) (tick s)" for s
    using assms unfolding over_def by metis
  then show ?thesis
    by (simp add: over_def wp_bind sys_alloc_def wp_def [of "State _"] wp_return)
qed

lemma fd_ok: "0 \<le> fd \<Longrightarrow> (fd < (0 :: int)) = False"
  by simp

lemma superblock_over: "0 \<le> fd \<Longrightarrow> over (mkfs_write_superblock M fd (Some b)) 0 [b]"
  unfolding mkfs_write_superblock_def option.case fd_ok if_False write_one [symmetric]
  by (rule seek_write_over [OF fsync_over])

lemma inode_store_over: "0 \<le> fd \<Longrightarrow> over (mkfs_write_inode_store M fd (Some L)) 4096
   (mkfs_init_root_inode (l_first_data_block L) zero_block 104 # replicate (unat (l_nr_istore_blocks L) - 1) zero_block)"
  unfolding mkfs_write_inode_store_def option.case fd_ok if_False
  by (rule alloc_over [OF seek_write_over0])

lemma root_index_over: "0 \<le> fd \<Longrightarrow> over (mkfs_init_root_index_block M fd (Some L))
   (unat (l_first_data_block L) * 4096) [put32 SIMPLEFS_EXTENT_ROOT_MAGIC zero_block 0]"
  unfolding mkfs_init_root_index_block_def option.case fd_ok if_False write_one [symmetric]
  by (rule seek_write_over0)

lemma ifree_over: "0 \<le> fd \<Longrightarrow> over (mkfs_write_ifree_bitmap M fd (Some L)) (unat (ifree_offset L))
   (map ifree_block [0..<unat (l_nr_ifree_blocks L)])"
  unfolding mkfs_write_ifree_bitmap_def option.case fd_ok if_False
  by (rule alloc_over [OF seek_write_over0])

lemma bfree_over: "0 \<le> fd \<Longrightarrow> over (mkfs_write_bfree_bitmap M fd (Some L)) (unat (bfree_offset L))
   (map (bfree_block L) [0..<unat (l_nr_bfree_blocks L)])"
  unfolding mkfs_write_bfree_bitmap_def option.case fd_ok if_False
  by (rule alloc_over [OF seek_write_over0])

definition journal_blocks :: "mkfs_layout \<Rightarrow> block list" where
  "journal_blocks L = (if l_nr_journal_blocks L = 0 then []
     else mkfs_init_journal_superblock (l_nr_journal_blocks L)
       # replicate (unat (l_nr_journal_blocks L) - 1) zero_block)"

lemma journal_over: "0 \<le> fd \<Longrightarrow> over (mkfs_write_journal M fd (Some L))
   (unat (l_journal_start_block L) * 4096) (journal_blocks L)"
proof (cases "l_nr_journal_blocks L = 0")
  case True
  assume "0 \<le> fd"
  then show ?thesis using True
    by (simp add: mkfs_write_journal_def journal_blocks_def over_def wp_simps overlay_Nil)
next
  case False
  assume fd: "0 \<le> fd"
  show ?thesis
    unfolding mkfs_write_journal_def journal_blocks_def option.case fd_ok [OF fd] if_False if_not_P [OF False]
    by (rule alloc_over [OF seek_write_over [OF fsync_over]])
qed

section \<open>The complete image\<close>

definition mkfs_image :: "mkfs_layout \<Rightarrow> (nat \<Rightarrow> u8) \<Rightarrow> nat \<Rightarrow> u8" where
  "mkfs_image L f =
    (let f1 = overlay f 0 [mkfs_init_superblock L];
         f2 = overlay f1 4096 (mkfs_init_root_inode (l_first_data_block L) zero_block 104
                # replicate (unat (l_nr_istore_blocks L) - 1) zero_block);
         f3 = overlay f2 (unat (l_first_data_block L) * 4096) [put32 SIMPLEFS_EXTENT_ROOT_MAGIC zero_block 0];
         f4 = overlay f3 (unat (ifree_offset L)) (map ifree_block [0..<unat (l_nr_ifree_blocks L)]);
         f5 = overlay f4 (unat (bfree_offset L)) (map (bfree_block L) [0..<unat (l_nr_bfree_blocks L)])
     in overlay f5 (unat (l_journal_start_block L) * 4096) (journal_blocks L))"

lemma over_step: "over m p bs \<Longrightarrow> (r = None \<longrightarrow> img s = f) \<Longrightarrow>
   wp (then_if_ok r m) (\<lambda>r s'. r = None \<longrightarrow> img s' = overlay f p bs) s"
  by (cases r) (auto simp: over_def wp_simps)

lemma create_fs_image:
  assumes "run_state (mkfs_create_fs M fd sz bpi g) s = (None, s')" "0 \<le> fd"
  shows "\<exists>L. mkfs_calculate_layout sz bpi True = Inr L \<and> img s' = mkfs_image L (img s)"
proof -
  obtain L where L: "mkfs_calculate_layout sz bpi True = Inr L" "g" "mkfs_validate_layout (Some L)"
    using assms(1) by (auto simp: mkfs_create_fs_def split: sum.splits if_splits)
  have "wp (mkfs_create_fs M fd sz bpi g) (\<lambda>r s'. r = None \<longrightarrow> img s' = mkfs_image L (img s)) s"
    unfolding mkfs_create_fs_def L sum.case wp_bind mkfs_image_def Let_def
    using L
    apply (simp only: not_True_eq_False if_False wp_bind)
    apply (rule wp_mono [OF superblock_over [OF assms(2), unfolded over_def, rule_format]])
    apply (subst wp_bind, rule wp_mono [OF over_step [OF inode_store_over [OF assms(2)]]], assumption)
    apply (subst wp_bind, rule wp_mono [OF over_step [OF root_index_over [OF assms(2)]]], assumption)
    apply (subst wp_bind, rule wp_mono [OF over_step [OF ifree_over [OF assms(2)]]], assumption)
    apply (subst wp_bind, rule wp_mono [OF over_step [OF bfree_over [OF assms(2)]]], assumption)
    apply (rule over_step [OF journal_over [OF assms(2)]], assumption)
    done
  from wp_run [OF this assms(1)] L(1) show ?thesis by simp
qed

text \<open>
  The image by blocks, for layouts whose bitmaps start below 4 GiB, where the 32-bit offsets of the two
  bitmap writers do not wrap.
\<close>

definition offsets_fit :: "mkfs_layout \<Rightarrow> bool" where
  "offsets_fit L \<longleftrightarrow> unat (l_nr_istore_blocks L) + unat (l_nr_ifree_blocks L) + 1 < 1048576"

lemma layout_offsets:
  assumes "offsets_fit L"
  shows "unat (ifree_offset L) = 4096 * (1 + unat (l_nr_istore_blocks L))"
    "unat (bfree_offset L) = 4096 * (1 + unat (l_nr_istore_blocks L) + unat (l_nr_ifree_blocks L))"
proof -
  let ?s = "unat (l_nr_istore_blocks L)" and ?f = "unat (l_nr_ifree_blocks L)"
  have s: "ifree_offset L = of_nat (4096 * (1 + ?s))" by (simp add: ifree_offset_def)
  have f: "bfree_offset L = of_nat (4096 * (1 + ?s + ?f))" by (simp add: bfree_offset_def)
  show "unat (ifree_offset L) = 4096 * (1 + ?s)"
    unfolding s by (rule unat_of_nat_u32) (use assms in \<open>simp add: offsets_fit_def\<close>)
  show "unat (bfree_offset L) = 4096 * (1 + ?s + ?f)"
    unfolding f by (rule unat_of_nat_u32) (use assms in \<open>simp add: offsets_fit_def\<close>)
qed

lemma image_block:
  assumes "layout_is L n ni s f b j" "1 + s + f + b + j < n" "offsets_fit L" "1 \<le> s" "k < 4096" "q < n"
    and "j = 0 \<longrightarrow> l_nr_journal_blocks L = 0"
  shows "block_at (mkfs_image L f0) q k =
    (if q = 0 then mkfs_init_superblock L k
     else if q = 1 then mkfs_init_root_inode (l_first_data_block L) zero_block 104 k
     else if q < 1 + s then 0
     else if q < 1 + s + f then ifree_block (q - (1 + s)) k
     else if q < 1 + s + f + b then bfree_block L (q - (1 + s + f)) k
     else if q = 1 + s + f + b then put32 SIMPLEFS_EXTENT_ROOT_MAGIC zero_block 0 k
     else if q < n - j then block_at f0 q k
     else if q = n - j then mkfs_init_journal_superblock (l_nr_journal_blocks L) k
     else 0)"
proof -
  note d = assms(1) [unfolded layout_is_def]
  note o = layout_offsets [OF assms(3)]
  have c: "\<And>x. x * 4096 = (4096 :: nat) * x" and c0: "overlay g 0 bs = overlay g (4096 * 0) bs"
    and c1: "overlay g 4096 bs = overlay g (4096 * 1) bs" for g bs by simp_all
  have len: "length (journal_blocks L) = j"
    using d assms(7) by (auto simp: journal_blocks_def unat_eq_zero)
  have u: "unat (l_nr_istore_blocks L) = s" "unat (l_nr_ifree_blocks L) = f" "unat (l_nr_bfree_blocks L) = b"
      "unat (l_first_data_block L) = 1 + s + f + b" "unat (l_journal_start_block L) = n - j"
      "length (mkfs_init_root_inode (l_first_data_block L) zero_block 104 # replicate (s - 1) zero_block) = s"
    using d assms(4) by simp_all
  have nj: "1 + s + f + b < n - j" using assms(2) by linarith
  note unf = mkfs_image_def Let_def c c0 c1 o block_at_overlay [OF assms(5)] u list.size
  consider "q = 0" | "q = 1" | "1 < q" "q < 1 + s" | "1 + s \<le> q" "q < 1 + s + f"
    | "1 + s + f \<le> q" "q < 1 + s + f + b" | "q = 1 + s + f + b" | "1 + s + f + b < q" "q < n - j"
    | "q = n - j" "1 + s + f + b < q" | "n - j < q" by linarith
  then show ?thesis
  proof cases
    case 8
    then have "journal_blocks L ! 0 = mkfs_init_journal_superblock (l_nr_journal_blocks L)"
      using assms(6) len by (cases "l_nr_journal_blocks L = 0") (simp_all add: journal_blocks_def)
    then show ?thesis unfolding unf using 8 assms(2,6) len by simp
  next
    case 9
    then have "journal_blocks L ! (q - (n - j)) = zero_block"
      using assms(6) len by (cases "l_nr_journal_blocks L = 0") (simp_all add: journal_blocks_def nth_Cons')
    moreover have "1 + s + f + b < q" using 9 assms(2) by linarith
    ultimately show ?thesis unfolding unf using 9 assms(2,6) len by (simp add: zero_block_def)
  qed (unfold unf, use assms(2,4) len nj in \<open>simp_all add: nth_Cons' zero_block_def\<close>)
qed

text \<open>The image that a given layout leads to, area by area.\<close>

definition image_ok :: "mkfs_layout \<Rightarrow> (nat \<Rightarrow> block) \<Rightarrow> bool" where
  "image_ok L blk \<longleftrightarrow>
     (let s = unat (l_nr_istore_blocks L); f = unat (l_nr_ifree_blocks L); first = unat (l_first_data_block L) in
      get32 (blk 0) 0 = SIMPLEFS_DISK_MAGIC \<and> get32 (blk 0) 4 = l_nr_blocks L \<and>
      get32 (blk 0) 8 = l_nr_inodes L \<and> get32 (blk 0) 12 = l_nr_istore_blocks L \<and>
      get32 (blk 0) 16 = l_nr_ifree_blocks L \<and> get32 (blk 0) 20 = l_nr_bfree_blocks L \<and>
      get32 (blk 0) 24 = l_nr_inodes L - 2 \<and> get32 (blk 0) 28 = l_nr_data_blocks L - 1 \<and>
      get32 (blk 0) 32 = (if l_nr_journal_blocks L > 0 then 1 else 0) \<and>
      get32 (blk 0) 36 = l_journal_start_block L \<and> get32 (blk 0) 108 = 0 \<and>
      get32 (blk 1) 104 = 0x41FD \<and> get32 (blk 1) 148 = 2 \<and> get32 (blk 1) 152 = l_first_data_block L \<and>
      (\<forall>i < unat (l_nr_inodes L). block_bit (blk (1 + s + i div 32768)) (i mod 32768) = (2 \<le> i)) \<and>
      (\<forall>i < unat (l_nr_blocks L). block_bit (blk (1 + s + f + i div 32768)) (i mod 32768) =
         (first < i \<and> i < unat (l_journal_start_block L))) \<and>
      eh_magic (blk first) = SIMPLEFS_EXTENT_ROOT_MAGIC \<and> eh_entries (blk first) = 0 \<and> eh_depth (blk first) = 0)"

lemma get32_zero: "get32 zero_block p = 0"
  by (simp add: get32_def zero_block_def)

lemma get16_zero: "get16 zero_block p = 0"
  by (simp add: get16_def zero_block_def)

lemma get32_mem_set: "p \<le> q \<Longrightarrow> q + 4 \<le> p + n \<Longrightarrow> get32 (mem_set b p 0 n) q = 0"
  by (simp add: get32_def mem_set_def)

lemma superblock_fields:
  "get32 (mkfs_init_superblock L) 0 = SIMPLEFS_DISK_MAGIC" "get32 (mkfs_init_superblock L) 4 = l_nr_blocks L"
  "get32 (mkfs_init_superblock L) 8 = l_nr_inodes L" "get32 (mkfs_init_superblock L) 12 = l_nr_istore_blocks L"
  "get32 (mkfs_init_superblock L) 16 = l_nr_ifree_blocks L" "get32 (mkfs_init_superblock L) 20 = l_nr_bfree_blocks L"
  "get32 (mkfs_init_superblock L) 24 = l_nr_inodes L - 2" "get32 (mkfs_init_superblock L) 28 = l_nr_data_blocks L - 1"
  "get32 (mkfs_init_superblock L) 32 = (if l_nr_journal_blocks L > 0 then 1 else 0)"
  "get32 (mkfs_init_superblock L) 36 = l_journal_start_block L" "get32 (mkfs_init_superblock L) 108 = 0"
  by (simp_all add: mkfs_init_superblock_def mem_simps)

lemma root_inode_fields:
  "get32 (mkfs_init_root_inode d b 104) 104 = 0x41FD" "get32 (mkfs_init_root_inode d b 104) 116 = 0"
  "get32 (mkfs_init_root_inode d b 104) 148 = 2" "get32 (mkfs_init_root_inode d b 104) 152 = d"
  by (simp_all add: mkfs_init_root_inode_def mem_simps)

lemma image_blocks:
  assumes "layout_is L n ni s f b j" "1 + s + f + b + j < n" "offsets_fit L" "1 \<le> s"
    and "j = 0 \<longrightarrow> l_nr_journal_blocks L = 0" "p + 4 \<le> 4096"
  shows "get32 (block_at (mkfs_image L f0) 0) p = get32 (mkfs_init_superblock L) p"
    "get32 (block_at (mkfs_image L f0) 1) p = get32 (mkfs_init_root_inode (l_first_data_block L) zero_block 104) p"
    "get32 (block_at (mkfs_image L f0) (1 + s + f + b)) p = get32 (put32 SIMPLEFS_EXTENT_ROOT_MAGIC zero_block 0) p"
  using assms by (auto intro!: le32.get_local simp: image_block [OF assms(1-4)])

lemma block_bit_local: "b (k div 8) = c (k div 8) \<Longrightarrow> block_bit b k = block_bit c k"
  by (simp add: block_bit_def)

lemma mkfs_used_iff:
  assumes "layout_is L n ni s f b j" "1 + s + f + b + j < n" "j = 0 \<longleftrightarrow> l_nr_journal_blocks L = 0" "i < n"
  shows "mkfs_used L i \<longleftrightarrow> \<not> (unat (l_first_data_block L) < i \<and> i < unat (l_journal_start_block L))"
proof -
  note d = assms(1) [unfolded layout_is_def]
  have n: "n < 4294967296" using d unat_lt_u32 [of "l_nr_blocks L"] by linarith
  have "unat (1 + l_nr_istore_blocks L + l_nr_ifree_blocks L + l_nr_bfree_blocks L) = 1 + s + f + b"
    using unat_add3_u32 [of "l_nr_istore_blocks L" "l_nr_ifree_blocks L" "l_nr_bfree_blocks L"] d assms(2) n by simp
  then have "unat (mkfs_nr_used L) = 1 + s + f + b + 1"
    unfolding mkfs_nr_used_def using assms(2) n by (subst unat_add_no_wrap) simp_all
  then show ?thesis using d assms(2-4) by (cases "j = 0") (auto simp: mkfs_used_def)
qed

lemma image_ok_image:
  assumes lay: "layout_is L n ni s f b j" and room: "1 + s + f + b + j < n" and fit: "offsets_fit L"
    and s: "1 \<le> s" and j: "j = 0 \<longleftrightarrow> l_nr_journal_blocks L = 0"
    and cap: "ni \<le> 32768 * f" "n \<le> 32768 * b"
  shows "image_ok L (block_at (mkfs_image L f0))"
proof -
  note d = lay [unfolded layout_is_def]
  have j': "j = 0 \<longrightarrow> l_nr_journal_blocks L = 0" using j by simp
  let ?blk = "block_at (mkfs_image L f0)"
  have byte: "i mod 32768 div 8 < 4096" for i :: nat by (simp add: div_less_iff_less_mult)
  have ifree: "block_bit (?blk (1 + s + i div 32768)) (i mod 32768) = (2 \<le> i)" if "i < ni" for i
  proof -
    have q: "i div 32768 < f" using that cap(1) by (simp add: div_less_iff_less_mult mult.commute)
    have "?blk (1 + s + i div 32768) (i mod 32768 div 8) = ifree_block (i div 32768) (i mod 32768 div 8)"
      using image_block [OF lay room fit s byte, of "1 + s + i div 32768" f0] j' q room s
      by simp
    then have "block_bit (?blk (1 + s + i div 32768)) (i mod 32768) = block_bit (ifree_block (i div 32768)) (i mod 32768)"
      by (rule block_bit_local)
    also have "\<dots> = (2 \<le> i)" unfolding block_bit_ifree [of "i mod 32768", simplified]
      by (cases "i div 32768 = 0") (auto simp: div_eq_0_iff not_less)
    finally show ?thesis .
  qed
  have bfree: "block_bit (?blk (1 + s + f + i div 32768)) (i mod 32768) =
      (unat (l_first_data_block L) < i \<and> i < unat (l_journal_start_block L))" if "i < n" for i
  proof -
    have q: "i div 32768 < b" using that cap(2) by (simp add: div_less_iff_less_mult mult.commute)
    have "i div 32768 * 32768 \<le> i" by (rule div_times_less_eq_dividend)
    then have lt: "i div 32768 * 32768 < 4294967296"
      using that d unat_lt_u32 [of "l_nr_blocks L"] by linarith
    have "?blk (1 + s + f + i div 32768) (i mod 32768 div 8) = bfree_block L (i div 32768) (i mod 32768 div 8)"
      using image_block [OF lay room fit s byte, of "1 + s + f + i div 32768" f0] j' q room s
      by simp
    then have "block_bit (?blk (1 + s + f + i div 32768)) (i mod 32768) = block_bit (bfree_block L (i div 32768)) (i mod 32768)"
      by (rule block_bit_local)
    also have "\<dots> \<longleftrightarrow> \<not> (i < n \<and> mkfs_used L i)"
      using block_bit_bfree [OF lt, of "i mod 32768" L] d by simp
    finally show ?thesis using mkfs_used_iff [OF lay room j that] that by simp
  qed
  have root: "eh_magic (?blk (1 + s + f + b)) = SIMPLEFS_EXTENT_ROOT_MAGIC"
    using image_blocks(3) [OF lay room fit s j', where p = 0] by (simp add: eh_magic_def get32_put32)
  have "get16 (?blk (1 + s + f + b)) p = get16 (put32 SIMPLEFS_EXTENT_ROOT_MAGIC zero_block 0) p" if "p + 2 \<le> 4096" for p
    using that room j' s by (intro le16.get_local) (simp add: image_block [OF lay room fit s])
  then have "eh_entries (?blk (1 + s + f + b)) = 0" "eh_depth (?blk (1 + s + f + b)) = 0"
    by (simp_all add: eh_entries_def eh_depth_def get16_put32_other get16_zero)
  then show ?thesis
    using ifree bfree root d image_blocks(1,2) [OF lay room fit s j']
    by (simp add: image_ok_def Let_def superblock_fields root_inode_fields)
qed

section \<open>Properties of the image\<close>

lemma layout_room:
  assumes "mkfs_calculate_layout sz bpi g = Inr L"
  obtains n ni s f b j where "layout_is L n ni s f b j" "1 + s + f + b + j < n" "1 \<le> s" "ni = 39 * s" "2 \<le> ni"
    "j = 0 \<longleftrightarrow> l_nr_journal_blocks L = 0" "ni \<le> 32768 * f" "n \<le> 32768 * b" "n = unat sz div 4096"
proof -
  let ?n = "unat sz div 4096" and ?ni = "nat_inodes (unat sz) (unat bpi)"
  note nat = calculate_layout_nat [OF assms]
  note cap = nat_inodes_cap [OF refl, of "unat sz" "unat bpi"]
  have jz: "nat_journal ?n ?ni = 0 \<longleftrightarrow> l_nr_journal_blocks L = 0"
    using nat by (simp add: layout_is_def unat_eq_zero [symmetric] del: unat_eq_zero)
  have s1: "1 \<le> ceil_div ?ni 39" using cap by (cases "ceil_div ?ni 39") auto
  show thesis
    by (rule that [OF conjunct1 [OF nat]])
      (use nat data_room [of ?n ?ni] cap jz s1 ceil_div_bounds [of 32768 ?ni] ceil_div_bounds [of 32768 ?n]
        in \<open>simp_all add: nat_fixed_def\<close>)
qed


definition reliable :: "menv \<Rightarrow> bool" where
  "reliable M \<longleftrightarrow> (\<forall>c. m_lseek M c = None \<and> m_write M c = W_all \<and> m_fsync M c = None \<and> m_alloc M c)"

definition succeeds :: "(mst, status) state \<Rightarrow> bool" where
  "succeeds m \<longleftrightarrow> (\<forall>s. wp m (\<lambda>r _. r = None) s)"

lemma succeeds_bind: "succeeds m \<Longrightarrow> succeeds (k None) \<Longrightarrow> succeeds (State_Monad.bind m k)"
  unfolding succeeds_def wp_bind by (metis (mono_tags, lifting) wp_mono)

lemma succeeds_calls:
  assumes "reliable M"
  shows "succeeds (sys_lseek M p)" "succeeds (sys_fsync M)" "succeeds (sys_write_block M b)"
  using assms by (simp_all add: succeeds_def wp_def sys_lseek_def sys_fsync_def sys_write_block_def reliable_def)

lemma succeeds_alloc:
  "reliable M \<Longrightarrow> succeeds k \<Longrightarrow> succeeds (do { ok \<leftarrow> sys_alloc M; if \<not> ok then ret (Some e) else k })"
  by (simp add: succeeds_def wp_bind sys_alloc_def reliable_def wp_def [of "State _"])

lemma succeeds_return: "succeeds (ret None)"
  by (simp add: succeeds_def wp_return)

lemma succeeds_blocks: "reliable M \<Longrightarrow> succeeds (write_blocks M bs)"
  by (induction bs) (auto simp: succeeds_return intro!: succeeds_bind succeeds_calls)

lemma succeeds_writers:
  assumes "reliable M" "0 \<le> fd"
  shows "succeeds (mkfs_write_superblock M fd (Some b))" "succeeds (mkfs_write_inode_store M fd (Some L))"
    "succeeds (mkfs_init_root_index_block M fd (Some L))" "succeeds (mkfs_write_ifree_bitmap M fd (Some L))"
    "succeeds (mkfs_write_bfree_bitmap M fd (Some L))" "succeeds (mkfs_write_journal M fd (Some L))"
  unfolding mkfs_write_superblock_def mkfs_write_inode_store_def mkfs_init_root_index_block_def
    mkfs_write_ifree_bitmap_def mkfs_write_bfree_bitmap_def mkfs_write_journal_def option.case fd_ok [OF assms(2)] if_False
  using assms(1)
  by (auto simp: succeeds_return intro!: succeeds_bind succeeds_calls succeeds_blocks succeeds_alloc)

lemma create_succeeds:
  assumes "reliable M" "0 \<le> fd" "mkfs_calculate_layout sz bpi True = Inr L" "mkfs_validate_layout (Some L)"
  shows "succeeds (mkfs_create_fs M fd sz bpi True)"
  unfolding mkfs_create_fs_def assms(3) sum.case
  using assms(4) succeeds_writers [OF assms(1,2)]
  by (auto simp: then_if_ok_def intro!: succeeds_bind)

text \<open>
  C25. When no system call fails, \<open>mkfs_create_fs\<close> on an open file returns exactly the status of
  the layout computation: it succeeds whenever a layout exists, since a computed layout is never
  rejected afterwards.
\<close>
theorem mkfs_create_fs_total:
  assumes "reliable M" "0 \<le> fd"
  shows "fst (run_state (mkfs_create_fs M fd sz bpi True) s) =
    (case mkfs_calculate_layout sz bpi True of Inl e \<Rightarrow> Some e | Inr L \<Rightarrow> None)"
proof (cases "mkfs_calculate_layout sz bpi True")
  case (Inl e)
  then show ?thesis by (simp add: mkfs_create_fs_def)
next
  case (Inr L)
  obtain n ni st f b j where "layout_is L n ni st f b j" "1 + st + f + b + j < n" "ni = 39 * st" "2 \<le> ni"
    using layout_room [OF Inr] by metis
  then have "mkfs_validate_layout (Some L)" by (intro validate_layout_is) auto
  then show ?thesis using create_succeeds [OF assms Inr] Inr
    by (auto simp: succeeds_def wp_def split_beta)
qed

definition menv_ok :: menv where
  "menv_ok = \<lparr>m_lseek = \<lambda>_. None, m_write = \<lambda>_. W_all, m_read = \<lambda>_. W_all, m_fsync = \<lambda>_. None, m_alloc = \<lambda>_. True\<rparr>"

definition mst0 :: mst where
  "mst0 = \<lparr>img = \<lambda>_. 0, pos = 0, calls = 0\<rparr>"

lemma reliable_menv_ok: "reliable menv_ok"
  by (simp add: reliable_def menv_ok_def)

definition layout25 :: mkfs_layout where
  "layout25 = \<lparr>l_nr_blocks = 6400, l_nr_inodes = 1638, l_nr_istore_blocks = 42, l_nr_ifree_blocks = 1,
     l_nr_bfree_blocks = 1, l_nr_journal_blocks = 1024, l_nr_data_blocks = 5331, l_first_data_block = 45,
     l_journal_start_block = 5376\<rparr>"

lemma layout_25M: "mkfs_calculate_layout 26214400 16384 True = Inr layout25"
  by (simp add: mkfs_calculate_layout_def SIMPLEFS_MIN_SIZE_def SIMPLEFS_JOURNAL_BLOCKS_def Let_def
      idiv_ceil_def layout25_def)

theorem mkfs_create_fs_total_witness:
  "fst (run_state (mkfs_create_fs menv_ok 3 26214400 16384 True) mst0) = None"
  using mkfs_create_fs_total [OF reliable_menv_ok, of 3 26214400 16384 mst0] layout_25M by simp


section \<open>Reading an image back\<close>

definition reads_ok :: "menv \<Rightarrow> bool" where
  "reads_ok M \<longleftrightarrow> (\<forall>c. m_lseek M c = None \<and> m_read M c = W_all)"

lemma get32_read: "p + 4 \<le> n \<Longrightarrow> get32 (\<lambda>i. if i < n then f (q + i) else 0) p = get32 (\<lambda>i. f (q + i)) p"
  by (rule le32.get_local) simp

lemma verify_superblock_run:
  assumes "reads_ok M" "0 \<le> fd" "image_ok L (block_at (img s))"
  shows "fst (run_state (mkfs_verify_superblock M fd (Some L)) s) = None"
proof -
  have g: "get32 (\<lambda>i. if i < 4096 then img s i else 0) p = get32 (block_at (img s) 0) p" if "p + 4 \<le> 4096" for p
    using that by (intro le32.get_local) (simp add: block_at_def)
  show ?thesis using assms(1,2) assms(3)
    by (simp add: mkfs_verify_superblock_def sys_lseek_def sys_read_def reads_ok_def tick_def g image_ok_def Let_def
        cong: if_cong)
qed


lemma create_25M: "run_state (mkfs_create_fs menv_ok 3 26214400 16384 True) mst0 =
   (None, snd (run_state (mkfs_create_fs menv_ok 3 26214400 16384 True) mst0))"
proof -
  have "mkfs_validate_layout (Some layout25)" by (simp add: mkfs_validate_layout_def layout25_def)
  then have "succeeds (mkfs_create_fs menv_ok 3 26214400 16384 True)"
    using create_succeeds [OF reliable_menv_ok _ layout_25M] by simp
  then show ?thesis by (simp add: succeeds_def wp_def split_beta prod_eq_iff)
qed

lemma layout25_fits: "offsets_fit layout25"
  by (simp add: offsets_fit_def layout25_def)

lemma reads_ok_menv_ok: "reads_ok menv_ok"
  by (simp add: reads_ok_def menv_ok_def)




text \<open>An image of 156 GiB with one inode per block.\<close>

definition layout156 :: mkfs_layout where
  "layout156 = \<lparr>l_nr_blocks = 40894425, l_nr_inodes = 40894425, l_nr_istore_blocks = 1048575,
     l_nr_ifree_blocks = 1248, l_nr_bfree_blocks = 1248, l_nr_journal_blocks = 1024,
     l_nr_data_blocks = 39842329, l_first_data_block = 1051072, l_journal_start_block = 40893401\<rparr>"

lemma layout_156G: "mkfs_calculate_layout 167503564800 4096 True = Inr layout156"
  by (simp add: mkfs_calculate_layout_def SIMPLEFS_MIN_SIZE_def SIMPLEFS_JOURNAL_BLOCKS_def Let_def
      idiv_ceil_def layout156_def)

text \<open>
  C30. On an image of 156 GiB formatted with one inode per block, the 32-bit offset of the inode bitmap
  wraps to 0: \<open>mkfs_create_fs\<close> reports success, and the superblock it wrote has been overwritten by
  the inode bitmap, so its magic number is gone.
\<close>
theorem mkfs_large_image_loses_superblock:
  assumes "reliable M" "0 \<le> fd"
    and "run_state (mkfs_create_fs M fd 167503564800 4096 True) s = (r, s')"
  shows "r = None \<and> get32 (block_at (img s') 0) 0 = 0xFFFFFFFC
    \<and> get32 (block_at (img s') 0) 0 \<noteq> SIMPLEFS_DISK_MAGIC"
proof -
  have "mkfs_validate_layout (Some layout156)" by (simp add: mkfs_validate_layout_def layout156_def)
  then have "succeeds (mkfs_create_fs M fd 167503564800 4096 True)"
    by (rule create_succeeds [OF assms(1,2) layout_156G])
  then have r: "r = None" using assms(3) by (simp add: succeeds_def wp_def split: prod.splits) (metis fst_conv)
  then have img: "img s' = mkfs_image layout156 (img s)"
    using create_fs_image [OF _ assms(2)] assms(3) layout_156G by fastforce
  have o: "unat (ifree_offset layout156) = 4096 * 0" "unat (bfree_offset layout156) = 4096 * 1248"
      "unat (l_journal_start_block layout156) * 4096 = 4096 * 40893401"
    by (simp_all add: ifree_offset_def bfree_offset_def layout156_def)
  have b: "block_at (img s') 0 k = ifree_block 0 k" if "k < 4096" for k
    unfolding img mkfs_image_def Let_def o block_at_overlay [OF that]
    by (simp add: layout156_def)
  have "get32 (block_at (img s') 0) 0 = get32 (ifree_block 0) 0"
    by (rule le32.get_local) (simp add: b)
  also have "\<dots> = 0xFFFFFFFC"
    by (simp add: get32_def ifree_block_def mkfs_calc_ifree_value_def)
  finally show ?thesis using r by (simp add: SIMPLEFS_DISK_MAGIC_def)
qed

theorem mkfs_large_image_loses_superblock_witness:
  "get32 (block_at (img (snd (run_state (mkfs_create_fs menv_ok 3 167503564800 4096 True) mst0))) 0) 0 = 0xFFFFFFFC"
  using mkfs_large_image_loses_superblock [OF reliable_menv_ok _ surjective_pairing, of 3 mst0] by simp

end
