(* ===== verification/Spec2Isabelle.thy ===== *)
theory Spec2Isabelle
  imports SFS_NamespaceProps SFS_MkfsImage
begin

text \<open>
  \<^bold>\<open>SimpleFS\<close>: a verification library for the kernel file system in \<open>src/simplefs\<close>, the one program of
  the repository that is a system of its own.

  \<^bold>\<open>The program.\<close> A disk holds a superblock, a journal area, an inode table, two bitmaps of free inodes
  and blocks, and from \<open>root_dir_block\<close> on the extent trees, directory blocks, attribute blocks and
  data. The module keeps the bitmaps in memory (\<open>struct simplefs_sb_info\<close>), reads and writes metadata
  through the page cache of the device, and brackets every change by handles of the JBD2 journal when the image
  has one. Files and directories map logical to physical blocks by a two-level tree of extents; directories
  are arrays of fixed-size records with a name table in memory; extended attributes and ACLs of an inode
  share one block. \<open>mkfs\<close> writes the first image.

  \<^bold>\<open>How code is modelled.\<close> Every C function is a HOL function of the same name in the state monad over
  \<open>kst\<close> (SFS_State): the images of all blocks as the page cache shows them, the mounted superblock, the
  journal adapter, the inodes in memory, and the list of calls that left the module with their results. Blocks are
  functions from offsets to bytes, integers are words of the C width, error pointers are sums and
  status codes are options of error numbers. The kernel is the parameter \<open>env\<close>: it decides from the
  history of calls which of them fail and what those that return numbers return; theorems hold for every
  environment unless they name the behaviour they need. Loops are recursive functions with a termination
  proof.

  \<^bold>\<open>The theories.\<close>
  \<^item> SFS_Prelude: words, bytes in blocks, arrays of records (locale \<open>record_codec\<close>), bitmaps, the state
    monad with a weakest-precondition calculus (\<open>wp\<close>), and frames (locale \<open>frame\<close>): relations that
    every run of a computation keeps, collected in \<open>frame_rules\<close>.
  \<^item> SFS_Format, SFS_State: \<open>simplefs.h\<close> and \<open>simplefs_journal.h\<close>.
  \<^item> SFS_Journal: \<open>simplefs_journal.c\<close>. Handles nest and are restored; a failure latches; an image
    changes only under write access.
  \<^item> SFS_Metabuf, SFS_Retire: \<open>simplefs_metabuf.c\<close>. Blocks are freed only after they are forgotten.
  \<^item> SFS_Bitmap, SFS_Alloc, SFS_AllocSpec, SFS_AllocProps: \<open>simplefs_bitmap.h\<close> and the allocators. The
    contract of an allocator is the locale \<open>allocator\<close>, interpreted for blocks and for inodes: what is handed
    out is never handed out again before it is given back.
  \<^item> SFS_Footprint: which blocks and calls an operation can touch.
  \<^item> SFS_ExtentBuf, SFS_ExtentTree, SFS_ExtentProps, SFS_SyncAlloc: \<open>simplefs_extent.c\<close>. Lists of extents
    as maps (\<open>emap\<close>), their normal form, loading, ordered write-back, failure, and the blocks that stay
    in use.
  \<^item> SFS_FileMap, SFS_GetBlock, SFS_FileRanges: the block mapping of \<open>simplefs_file.c\<close> with unwritten extents.
  \<^item> SFS_Inode: the inode table and inode flags, from \<open>simplefs_super.c\<close> and \<open>simplefs_inode.c\<close>.
  \<^item> SFS_Xattr, SFS_Acl: \<open>simplefs_xattr.c\<close> and \<open>simplefs_acl.c\<close>. The attributes of an inode implement a
    finite map from names to values (locale \<open>attr_store\<close>).
  \<^item> SFS_DirIndex, SFS_DirProps: \<open>simplefs_dir_index.c\<close> and \<open>simplefs_dir.c\<close>.
  \<^item> SFS_Mkfs, SFS_MkfsLayout, SFS_MkfsImage: \<open>mkfs_common.c\<close>.

  \<^bold>\<open>Not modelled.\<close> Locks and concurrency (every operation runs to its end), the VFS, iomap, JBD2,
  the block layer and the kernel's hash tables, which are parameters. Trace points and debug output have
  no effect on the state. The rest of the repository (notes, small kernel modules, experiments and scripts
  outside \<open>src/simplefs\<close>) is unrelated to the file system.
\<close>

end
